(* ===== verification/Prelude.thy ===== *)
theory Prelude
  imports Complex_Main "HOL-Library.Word" "HOL-Library.AList"
begin

text \<open>
  Shared vocabulary of the development: the machine integers and clock values of the Rust
  sources, the collections of rewrite rules the component theories fill, and the generic facts
  on words, lists and association lists that several components use.

  \<^item> \<open>u8\<close> \dots \<open>u64\<close> are words: \<open>+\<close> wraps as in a release build, \<open>saturating_add\<close> is written out.
  \<^item> \<open>Instant\<close> and \<open>Duration\<close> (\<^verbatim>\<open>std::time\<close>) are numbers of nanoseconds. \<open>duration_since\<close>
    saturates at zero, as \<^verbatim>\<open>Instant::duration_since\<close> and \<^verbatim>\<open>saturating_duration_since\<close> do.
  \<^item> A \<^verbatim>\<open>HashMap\<close> is an association list with distinct keys, updated by \<^const>\<open>AList.update\<close> and
    \<^const>\<open>AList.delete\<close>; where the iteration order is observable it is a parameter instead.
\<close>

section \<open>Collections of facts\<close>

named_theorems flt_simps \<open>evaluation of floating-point operations\<close>
named_theorems rate_defs \<open>definitions of the rate controllers\<close>
named_theorems pacer_defs \<open>definitions of the pacer\<close>

section \<open>Machine integers and time\<close>

type_synonym u8 = "8 word"
type_synonym u16 = "16 word"
type_synonym u32 = "32 word"
type_synonym u64 = "64 word"
type_synonym instant = nat
type_synonym duration = nat

definition saturating_add :: "'a::len word \<Rightarrow> 'a word \<Rightarrow> 'a word" where
  "saturating_add a b = (if unat a + unat b < 2 ^ LENGTH('a) then a + b else - 1)"

definition duration_since :: "instant \<Rightarrow> instant \<Rightarrow> duration" where
  "duration_since now t = now - t"

text \<open>An \<^verbatim>\<open>Instant\<close> holds 64-bit seconds and less than \<open>2^30\<close> nanoseconds.\<close>

definition instant_ok :: "instant \<Rightarrow> bool" where
  "instant_ok t \<longleftrightarrow> t < 2 ^ 94"

definition from_millis :: "nat \<Rightarrow> duration" where
  "from_millis n = n * 1000000"

definition from_secs :: "nat \<Rightarrow> duration" where
  "from_secs n = n * 1000000000"

definition as_millis :: "duration \<Rightarrow> nat" where
  "as_millis d = d div 1000000"

definition as_micros :: "duration \<Rightarrow> nat" where
  "as_micros d = d div 1000"

declare of_nat_unat [simp del]

lemma unat_minus_one_word: "unat (- 1 :: 'a::len word) = 2 ^ LENGTH('a) - 1"
  by (simp add: unsigned_minus_1_eq_mask mask_eq_exp_minus_1)

lemma unat_saturating_add:
  "unat (saturating_add a b) = min (unat a + unat b) (2 ^ LENGTH('a) - 1)"
  for a b :: "'a::len word"
proof (cases "unat a + unat b < 2 ^ LENGTH('a)")
  case True
  then show ?thesis by (simp add: saturating_add_def unat_word_ariths)
next
  case False
  then show ?thesis
    by (simp add: saturating_add_def unat_minus_one_word [where 'a = 'a])
qed

lemma duration_since_zero_iff: "duration_since now t = 0 \<longleftrightarrow> now \<le> t"
  by (simp add: duration_since_def)

section \<open>Association lists as finite maps\<close>

definition wf_map :: "('k \<times> 'v) list \<Rightarrow> bool" where
  "wf_map m \<longleftrightarrow> distinct (map fst m)"

lemma wf_map_Nil [simp, intro]: "wf_map []"
  by (simp add: wf_map_def)

lemma wf_map_update [simp, intro]: "wf_map m \<Longrightarrow> wf_map (AList.update k v m)"
  by (simp add: wf_map_def distinct_update)

lemma wf_map_delete [simp, intro]: "wf_map m \<Longrightarrow> wf_map (AList.delete k m)"
  by (simp add: wf_map_def distinct_delete)

lemma map_of_update [simp]: "map_of (AList.update k v m) = (map_of m)(k \<mapsto> v)"
  by (simp add: update_conv')

lemma map_of_delete [simp]: "map_of (AList.delete k m) = (map_of m)(k := None)"
  by (simp add: delete_conv')

lemma length_update_le: "length (AList.update k v m) \<le> Suc (length m)"
  by (induction m) auto

lemma length_update_present:
  "k \<in> fst ` set m \<Longrightarrow> length (AList.update k v m) = length m"
  by (induction m) auto

lemma length_update_absent:
  "k \<notin> fst ` set m \<Longrightarrow> length (AList.update k v m) = Suc (length m)"
  by (induction m) auto

lemma length_delete_present:
  "wf_map m \<Longrightarrow> k \<in> fst ` set m \<Longrightarrow> Suc (length (AList.delete k m)) = length m"
proof (induction m)
  case (Cons a m)
  show ?case
  proof (cases "fst a = k")
    case True
    with Cons.prems have "k \<notin> fst ` set m"
      by (auto simp: wf_map_def)
    then have "AList.delete k m = m"
      by (induction m) auto
    with True show ?thesis by (cases a) simp
  next
    case False
    with Cons show ?thesis by (cases a) (auto simp: wf_map_def)
  qed
qed simp

lemma in_set_tl: "x \<in> set (tl xs) \<Longrightarrow> x \<in> set xs"
  by (cases xs) auto

section \<open>Bounded queues\<close>

text \<open>
  The sources keep several sliding windows with the same two statements: pop the front while
  the queue is at its capacity, then push at the back.
\<close>

locale sliding_window =
  fixes cap :: nat
    and push :: "'a list \<Rightarrow> 'a \<Rightarrow> 'a list"
  assumes cap_pos: "0 < cap"
    and push_below: "length w < cap \<Longrightarrow> push w x = w @ [x]"
    and push_full: "cap \<le> length w \<Longrightarrow> push w x = tl w @ [x]"
begin

lemma length_push: "length w \<le> cap \<Longrightarrow> length (push w x) \<le> cap"
  using cap_pos by (cases "length w < cap") (auto simp: push_below push_full)

lemma last_push: "last (push w x) = x"
  by (cases "length w < cap") (auto simp: push_below push_full)

text \<open>After any run of pushes the window is the most recent \<open>cap\<close> entries, in order.\<close>

lemma foldl_push:
  "length w \<le> cap \<Longrightarrow> foldl push w xs = drop (length (w @ xs) - cap) (w @ xs)"
proof (induction xs rule: rev_induct)
  case (snoc x xs)
  let ?ys = "w @ xs"
  let ?d = "drop (length ?ys - cap) ?ys"
  have IH: "foldl push w xs = ?d"
    using snoc by simp
  have len: "length ?d = min cap (length ?ys)"
    by simp
  show ?case
  proof (cases "length ?ys < cap")
    case True
    with len have "push ?d x = ?d @ [x]"
      by (intro push_below) simp
    with True IH show ?thesis by simp
  next
    case False
    with len have "push ?d x = tl ?d @ [x]"
      by (intro push_full) simp
    moreover have "tl ?d = drop (Suc (length ?ys - cap)) ?ys"
      by (simp only: drop_Suc tl_drop)
    ultimately show ?thesis
      using False IH cap_pos by (simp only: foldl_append foldl.simps) (simp add: Suc_diff_le)
  qed
qed simp

end

section \<open>Stores of per-key state\<close>

text \<open>
  A component that keeps one entry per peer and whose operations each name one peer. \<open>exec\<close> runs
  such an operation on the store, \<open>local\<close> is what it does to the entry of the peer it names. The
  single law gives the projection: the entry of a peer after any interleaving of operations is the
  entry after that peer's own operations.
\<close>

locale keyed_store =
  fixes get :: "'m \<Rightarrow> 'k \<Rightarrow> 'v option"
    and exec :: "'m \<Rightarrow> 'k \<Rightarrow> 'op \<Rightarrow> 'm"
    and local :: "'v option \<Rightarrow> 'op \<Rightarrow> 'v option"
  assumes get_exec: "get (exec m k op) j = (if j = k then local (get m k) op else get m j)"
begin

lemma get_run:
  "get (foldl (\<lambda>m (k, op). exec m k op) m ops) j
     = foldl local (get m j) (map snd (filter (\<lambda>(k, _). k = j) ops))"
  by (induction ops arbitrary: m) (auto simp: get_exec)

lemma get_run_other:
  "\<forall>(k, op) \<in> set ops. k \<noteq> j \<Longrightarrow> get (foldl (\<lambda>m (k, op). exec m k op) m ops) j = get m j"
  by (induction ops arbitrary: m) (auto simp: get_exec)

lemma get_run_inv:
  assumes "\<And>v op. v = None \<or> (\<exists>x. v = Some x \<and> P x) \<Longrightarrow> local v op = None \<or> (\<exists>x. local v op = Some x \<and> P x)"
    and "\<And>j x. get m j = Some x \<Longrightarrow> P x"
    and "get (foldl (\<lambda>m (k, op). exec m k op) m ops) j = Some y"
  shows "P y"
proof -
  have "v = None \<or> (\<exists>x. v = Some x \<and> P x)" if "v = foldl local (get m j) os" for v os
    unfolding that
  proof (induction os rule: rev_induct)
    case Nil
    then show ?case using assms(2) by (cases "get m j") auto
  next
    case (snoc op os)
    then show ?case using assms(1) by simp
  qed
  from this [OF refl, of "map snd (filter (\<lambda>(k, _). k = j) ops)"] assms(3) show ?thesis
    by (simp add: get_run)
qed

end

end
