(* ===== verification/Float64.thy ===== *)
theory Float64
  imports Prelude "HOL-Library.Log_Nat"
begin

text \<open>
  IEEE-754 arithmetic as the sources use it. A value is NaN, an infinity (\<open>Inf True\<close> is the
  negative one) or a finite number, given by its exact rational value; \<open>rnd\<close> is rounding to
  nearest, ties to even, with gradual underflow and overflow to infinity. The two zeros are
  identified: no operation of the sources inspects the sign of a zero or divides by one.
  \<open>f64\<close> arithmetic rounds at 53 bits; \<open>f32\<close> values are only compared, clamped and widened, so the
  same type holds them and only their literals are rounded (at 24 bits).

  The lemmas give what the rate controllers need: rounding is monotone, leaves representable
  values alone, and is off by at most half a unit in the last place.
\<close>

section \<open>Rounding\<close>

definition pow2 :: "int \<Rightarrow> rat" where
  "pow2 e = (if 0 \<le> e then 2 ^ nat e else 1 / 2 ^ nat (- e))"

text \<open>Round a rational to an integer, ties to even.\<close>

definition rne :: "rat \<Rightarrow> int" where
  "rne x = (let n = \<lfloor>x\<rfloor>; f = x - of_int n
     in if f < 1 / 2 then n else if 1 / 2 < f then n + 1 else if even n then n else n + 1)"

text \<open>The binary exponent of a positive rational.\<close>

definition fexp :: "rat \<Rightarrow> int" where
  "fexp q = (case quotient_of q of (a, b) \<Rightarrow>
     let k = bitlen a - bitlen b in if pow2 k \<le> q then k else k - 1)"

text \<open>The unit in the last place at precision \<open>p\<close> and least exponent \<open>m\<close>, and rounding to it.\<close>

definition ulp :: "nat \<Rightarrow> int \<Rightarrow> rat \<Rightarrow> rat" where
  "ulp p m q = pow2 (max (fexp \<bar>q\<bar> - (int p - 1)) m)"

definition rq :: "nat \<Rightarrow> int \<Rightarrow> rat \<Rightarrow> rat" where
  "rq p m q = (if q = 0 then 0 else of_int (rne (q / ulp p m q)) * ulp p m q)"

datatype flt = NaN | Inf bool | Fin rat

type_synonym f64 = flt
type_synonym f32 = flt

definition rnd :: "nat \<Rightarrow> int \<Rightarrow> int \<Rightarrow> rat \<Rightarrow> flt" where
  "rnd p m M q = (let r = rq p m q in if pow2 M \<le> \<bar>r\<bar> then Inf (q < 0) else Fin r)"

abbreviation rnd64 :: "rat \<Rightarrow> f64" where
  "rnd64 \<equiv> rnd 53 (- 1074) 1024"

abbreviation rnd32 :: "rat \<Rightarrow> f32" where
  "rnd32 \<equiv> rnd 24 (- 149) 128"

section \<open>Operations\<close>

instantiation flt :: "{plus, minus, times, inverse, uminus, abs, ord, zero}"
begin

definition "(0 :: flt) = Fin 0"

fun uminus_flt :: "flt \<Rightarrow> flt" where
  "uminus_flt NaN = NaN"
| "uminus_flt (Inf s) = Inf (\<not> s)"
| "uminus_flt (Fin x) = Fin (- x)"

fun abs_flt :: "flt \<Rightarrow> flt" where
  "abs_flt NaN = NaN"
| "abs_flt (Inf s) = Inf False"
| "abs_flt (Fin x) = Fin \<bar>x\<bar>"

fun plus_flt :: "flt \<Rightarrow> flt \<Rightarrow> flt" where
  "plus_flt NaN y = NaN"
| "plus_flt x NaN = NaN"
| "plus_flt (Inf s) (Inf t) = (if s = t then Inf s else NaN)"
| "plus_flt (Inf s) (Fin y) = Inf s"
| "plus_flt (Fin x) (Inf t) = Inf t"
| "plus_flt (Fin x) (Fin y) = rnd64 (x + y)"

definition minus_flt :: "flt \<Rightarrow> flt \<Rightarrow> flt" where
  "minus_flt x y = x + (- y)"

fun times_flt :: "flt \<Rightarrow> flt \<Rightarrow> flt" where
  "times_flt NaN y = NaN"
| "times_flt x NaN = NaN"
| "times_flt (Inf s) (Inf t) = Inf (s \<noteq> t)"
| "times_flt (Inf s) (Fin y) = (if y = 0 then NaN else Inf (s \<noteq> (y < 0)))"
| "times_flt (Fin x) (Inf t) = (if x = 0 then NaN else Inf ((x < 0) \<noteq> t))"
| "times_flt (Fin x) (Fin y) = rnd64 (x * y)"

fun divide_flt :: "flt \<Rightarrow> flt \<Rightarrow> flt" where
  "divide_flt NaN y = NaN"
| "divide_flt x NaN = NaN"
| "divide_flt (Inf s) (Inf t) = NaN"
| "divide_flt (Inf s) (Fin y) = Inf (s \<noteq> (y < 0))"
| "divide_flt (Fin x) (Inf t) = Fin 0"
| "divide_flt (Fin x) (Fin y) =
     (if y = 0 then (if x = 0 then NaN else Inf (x < 0)) else rnd64 (x / y))"

definition inverse_flt :: "flt \<Rightarrow> flt" where
  "inverse_flt x = Fin 1 div x"

text \<open>Comparisons with NaN are false.\<close>

fun less_flt :: "flt \<Rightarrow> flt \<Rightarrow> bool" where
  "less_flt (Fin x) (Fin y) = (x < y)"
| "less_flt (Inf s) (Inf t) = (s \<and> \<not> t)"
| "less_flt (Inf s) (Fin y) = s"
| "less_flt (Fin x) (Inf t) = (\<not> t)"
| "less_flt NaN y = False"
| "less_flt x NaN = False"

fun less_eq_flt :: "flt \<Rightarrow> flt \<Rightarrow> bool" where
  "less_eq_flt (Fin x) (Fin y) = (x \<le> y)"
| "less_eq_flt (Inf s) (Inf t) = (s \<or> \<not> t)"
| "less_eq_flt (Inf s) (Fin y) = s"
| "less_eq_flt (Fin x) (Inf t) = (\<not> t)"
| "less_eq_flt NaN y = False"
| "less_eq_flt x NaN = False"

instance ..

end

definition is_nan :: "flt \<Rightarrow> bool" where
  "is_nan x \<longleftrightarrow> x = NaN"

definition is_finite :: "flt \<Rightarrow> bool" where
  "is_finite x \<longleftrightarrow> (case x of Fin _ \<Rightarrow> True | _ \<Rightarrow> False)"

text \<open>\<^verbatim>\<open>f64::min\<close> and \<^verbatim>\<open>f64::max\<close> discard a NaN operand; \<^verbatim>\<open>clamp\<close> keeps a NaN receiver.\<close>

definition fmin :: "flt \<Rightarrow> flt \<Rightarrow> flt" where
  "fmin x y = (if is_nan x then y else if is_nan y then x else if y < x then y else x)"

definition fmax :: "flt \<Rightarrow> flt \<Rightarrow> flt" where
  "fmax x y = (if is_nan x then y else if is_nan y then x else if x < y then y else x)"

definition clamp :: "flt \<Rightarrow> flt \<Rightarrow> flt \<Rightarrow> flt" where
  "clamp lo hi x = (if x < lo then lo else if hi < x then hi else x)"

section \<open>Conversions\<close>

definition u64_as_f64 :: "u64 \<Rightarrow> f64" where
  "u64_as_f64 n = rnd64 (of_nat (unat n))"

definition usize_as_f64 :: "nat \<Rightarrow> f64" where
  "usize_as_f64 n = rnd64 (of_nat n)"

text \<open>A float-to-integer \<^verbatim>\<open>as\<close> cast truncates, saturates, and sends NaN to zero.\<close>

fun f64_as_u64 :: "f64 \<Rightarrow> u64" where
  "f64_as_u64 NaN = 0"
| "f64_as_u64 (Inf s) = (if s then 0 else - 1)"
| "f64_as_u64 (Fin x) =
     (if x \<le> 0 then 0 else if 2 ^ 64 \<le> x then - 1 else word_of_int \<lfloor>x\<rfloor>)"

text \<open>\<^verbatim>\<open>Duration::as_secs_f64\<close>: whole seconds plus the nanoseconds divided by a billion.\<close>

definition as_secs_f64 :: "duration \<Rightarrow> f64" where
  "as_secs_f64 d =
     rnd64 (of_nat (d div 1000000000)) + rnd64 (of_nat (d mod 1000000000)) / Fin 1000000000"

section \<open>Powers of two and rounding to an integer\<close>

lemma pow2_powi: "pow2 e = 2 powi e"
  by (simp add: pow2_def power_int_def power_inverse inverse_eq_divide power_one_over)

lemma pow2_pos [simp, intro]: "0 < pow2 e"
  by (simp add: pow2_def)

lemma pow2_nonneg [simp]: "0 \<le> pow2 e"
  by (simp add: pow2_def)

lemma pow2_ne [simp]: "pow2 e \<noteq> 0"
  by (simp add: pow2_def)

lemma pow2_add: "pow2 (a + b) = pow2 a * pow2 b"
  by (simp add: pow2_powi power_int_add)

lemma pow2_mono: "a \<le> b \<Longrightarrow> pow2 a \<le> pow2 b"
  by (simp add: pow2_powi power_int_increasing)

lemma pow2_strict_mono: "a < b \<Longrightarrow> pow2 a < pow2 b"
  by (simp add: pow2_powi power_int_strict_increasing)

lemma pow2_le_cancel: "pow2 a \<le> pow2 b \<longleftrightarrow> a \<le> b"
  using pow2_mono pow2_strict_mono by (meson linorder_not_less order_less_imp_le not_le)

lemma pow2_nat: "pow2 (int n) = 2 ^ n"
  by (simp add: pow2_def)

lemma rne_of_int [simp]: "rne (of_int n) = n"
  by (simp add: rne_def)

lemma rne_floor: "\<lfloor>x\<rfloor> \<le> rne x \<and> rne x \<le> \<lfloor>x\<rfloor> + 1"
  by (simp add: rne_def Let_def)

lemma rne_mono: assumes "x \<le> y" shows "rne x \<le> rne y"
proof (cases "\<lfloor>x\<rfloor> = \<lfloor>y\<rfloor>")
  case True
  with assms show ?thesis by (auto simp: rne_def Let_def)
next
  case False
  with floor_mono [OF assms] have "\<lfloor>x\<rfloor> + 1 \<le> \<lfloor>y\<rfloor>" by simp
  with rne_floor [of x] rne_floor [of y] show ?thesis by linarith
qed

lemma rne_error: "\<bar>of_int (rne x) - x\<bar> \<le> 1 / 2"
proof -
  have "of_int \<lfloor>x\<rfloor> \<le> x" and "x < of_int \<lfloor>x\<rfloor> + 1"
    by linarith+
  then show ?thesis by (auto simp: rne_def Let_def abs_le_iff)
qed

lemma rne_eqI: assumes "\<bar>x - of_int n\<bar> < 1 / 2" shows "rne x = n"
proof -
  have "\<bar>of_int (rne x) - of_int n :: rat\<bar> < 1"
    using rne_error [of x] assms unfolding abs_le_iff abs_less_iff by linarith
  then have "\<bar>rne x - n\<bar> < 1"
    by (metis of_int_1 of_int_abs of_int_diff of_int_less_iff)
  then show ?thesis by linarith
qed

lemma rne_minus: "rne (- x) = - rne x"
proof (cases "x = of_int \<lfloor>x\<rfloor>")
  case True
  then show ?thesis by (metis of_int_minus rne_of_int)
next
  case False
  then have "of_int \<lfloor>x\<rfloor> < x" and "x < of_int \<lfloor>x\<rfloor> + 1"
    by linarith+
  then have "\<lfloor>- x\<rfloor> = - \<lfloor>x\<rfloor> - 1"
    by (intro floor_unique) auto
  then show ?thesis by (auto simp: rne_def Let_def)
qed

section \<open>The binary exponent\<close>

lemma bitlen_rat:
  assumes "0 < a"
  shows "pow2 (bitlen a - 1) \<le> of_int a" and "of_int a < pow2 (bitlen a)"
proof -
  have b: "2 ^ nat (bitlen a - 1) \<le> a \<and> a < 2 ^ nat (bitlen a)"
    using bitlen_bounds [OF assms] .
  have g: "0 < bitlen a"
    using assms bitlen_nonneg [of a] bitlen_eq_zero_iff [of a] by linarith
  have "(of_int (2 ^ nat (bitlen a - 1)) :: rat) \<le> of_int a"
    using b by (simp only: of_int_le_iff)
  then show "pow2 (bitlen a - 1) \<le> of_int a"
    using g by (simp add: pow2_def)
  have "(of_int a :: rat) < of_int (2 ^ nat (bitlen a))"
    using b by (simp only: of_int_less_iff)
  then show "of_int a < pow2 (bitlen a)"
    using g by (simp add: pow2_def)
qed

lemma fexp_bounds:
  assumes "0 < q"
  shows "pow2 (fexp q) \<le> q" and "q < pow2 (fexp q + 1)"
proof -
  obtain a b where ab: "quotient_of q = (a, b)" by (cases "quotient_of q")
  have b: "0 < b" using ab quotient_of_denom_pos by blast
  have q: "q = of_int a / of_int b" using ab quotient_of_div by blast
  have a: "0 < a" using assms b q by (simp add: zero_less_divide_iff)
  let ?k = "bitlen a - bitlen b"
  have "pow2 (?k - 1) * of_int b \<le> pow2 (?k - 1) * pow2 (bitlen b)"
    using bitlen_rat(2) [OF b] by (intro mult_left_mono) auto
  also have "\<dots> = pow2 (bitlen a - 1)" by (simp add: pow2_add [symmetric])
  also have "\<dots> \<le> of_int a" by (rule bitlen_rat(1) [OF a])
  finally have lo: "pow2 (?k - 1) \<le> q"
    using b by (simp add: q pos_le_divide_eq)
  have "(of_int a :: rat) < pow2 (bitlen a)" by (rule bitlen_rat(2) [OF a])
  also have "\<dots> = pow2 (?k + 1) * pow2 (bitlen b - 1)" by (simp add: pow2_add [symmetric])
  also have "\<dots> \<le> pow2 (?k + 1) * of_int b"
    using bitlen_rat(1) [OF b] by (intro mult_left_mono) auto
  finally have hi: "q < pow2 (?k + 1)"
    using b by (simp add: q pos_divide_less_eq)
  show "pow2 (fexp q) \<le> q" using lo by (simp add: fexp_def ab Let_def)
  show "q < pow2 (fexp q + 1)" using hi by (auto simp: fexp_def ab Let_def)
qed

lemma fexp_eqI:
  assumes "pow2 e \<le> q" and "q < pow2 (e + 1)"
  shows "fexp q = e"
proof -
  have q: "0 < q" using assms(1) pow2_pos order_less_le_trans by blast
  have "pow2 e < pow2 (fexp q + 1)"
    using assms(1) fexp_bounds(2) [OF q] by (rule order_le_less_trans)
  moreover have "pow2 (fexp q) < pow2 (e + 1)"
    using fexp_bounds(1) [OF q] assms(2) by (rule order_le_less_trans)
  ultimately show ?thesis
    using pow2_le_cancel by (metis add1_zle_eq leD leI order_antisym zle_add1_eq_le)
qed

lemma fexp_mono: assumes "0 < p" and "p \<le> q" shows "fexp p \<le> fexp q"
proof (rule ccontr)
  assume "\<not> fexp p \<le> fexp q"
  then have "pow2 (fexp q + 1) \<le> pow2 (fexp p)" by (intro pow2_mono) simp
  also have "\<dots> \<le> p" using fexp_bounds(1) [OF assms(1)] .
  also have "\<dots> \<le> q" by (fact assms(2))
  also have "\<dots> < pow2 (fexp q + 1)" using fexp_bounds(2) assms by auto
  finally show False by simp
qed

section \<open>Rounding is monotone, exact on representable values, and close\<close>

text \<open>The values of a format with precision \<open>p\<close> and least exponent \<open>m\<close>, ignoring overflow.\<close>

definition repr :: "nat \<Rightarrow> int \<Rightarrow> rat \<Rightarrow> bool" where
  "repr p m q \<longleftrightarrow> (\<exists>k e. q = of_int k * pow2 e \<and> \<bar>k\<bar> \<le> 2 ^ p \<and> m \<le> e)"

lemma ulp_pos [simp, intro]: "0 < ulp p m q"
  by (simp add: ulp_def)

lemma ulp_ne [simp]: "ulp p m q \<noteq> 0"
  by (simp add: ulp_def)

lemma ulp_minus [simp]: "ulp p m (- q) = ulp p m q"
  by (simp add: ulp_def)

lemma rq_zero [simp]: "rq p m 0 = 0"
  by (simp add: rq_def)

lemma rq_alt: "rq p m q = of_int (rne (q / ulp p m q)) * ulp p m q"
  using rne_of_int [of 0] by (simp add: rq_def)

lemma rq_minus: "rq p m (- q) = - rq p m q"
  by (simp add: rq_def rne_minus)

lemma rq_multiple: "q = of_int n * ulp p m q \<Longrightarrow> rq p m q = q"
  by (metis nonzero_mult_div_cancel_right order_less_irrefl rne_of_int rq_alt ulp_pos)

lemma rq_le_multiple: assumes "x \<le> of_int n * ulp p m x" shows "rq p m x \<le> of_int n * ulp p m x"
proof -
  have "x / ulp p m x \<le> of_int n" using assms by (simp add: pos_divide_le_eq)
  then have "rne (x / ulp p m x) \<le> n" using rne_mono by fastforce
  then show ?thesis by (simp add: rq_alt)
qed

lemma rq_ge_multiple: assumes "of_int n * ulp p m x \<le> x" shows "of_int n * ulp p m x \<le> rq p m x"
  using rq_le_multiple [of "- x" "- n" p m] assms by (simp add: rq_minus)

lemma pow2_multiple: assumes "a \<le> b" shows "pow2 b = of_int (2 ^ nat (b - a)) * pow2 a"
proof -
  have "pow2 b = pow2 (b - a) * pow2 a" by (simp add: pow2_add [symmetric])
  then show ?thesis using assms by (simp add: pow2_def)
qed

lemma rq_exact: assumes "repr p m q" and "0 < p" shows "rq p m q = q"
proof (cases "q = 0")
  case False
  obtain k e where q: "q = of_int k * pow2 e" and k: "\<bar>k\<bar> \<le> 2 ^ p" and e: "m \<le> e"
    using assms(1) by (auto simp: repr_def)
  let ?f = "fexp \<bar>q\<bar>"
  let ?E = "max (?f - (int p - 1)) m"
  have f: "pow2 ?f \<le> \<bar>q\<bar>" using fexp_bounds(1) False by simp
  have "(of_int \<bar>k\<bar> :: rat) \<le> of_int (2 ^ p)" using k by (simp only: of_int_le_iff)
  then have "\<bar>q\<bar> \<le> 2 ^ p * pow2 e" by (simp add: q abs_mult)
  then have hi: "\<bar>q\<bar> \<le> pow2 (int p + e)" by (simp add: pow2_add pow2_nat)
  with f have le: "?f \<le> int p + e" using pow2_le_cancel order_trans by blast
  obtain n where "\<bar>q\<bar> = of_int n * pow2 ?E"
  proof (cases "?f = int p + e")
    case True
    then have "\<bar>q\<bar> = pow2 (int p + e)" using f hi by simp
    moreover from True e assms(2) have "?E \<le> int p + e" by simp
    ultimately show ?thesis using pow2_multiple that by metis
  next
    case False
    with le e have "?E \<le> e" by simp
    from pow2_multiple [OF this] have "\<bar>q\<bar> = of_int (\<bar>k\<bar> * 2 ^ nat (e - ?E)) * pow2 ?E"
      by (simp add: q abs_mult)
    then show ?thesis by (rule that)
  qed
  then have "q = of_int (if q < 0 then - n else n) * ulp p m q"
    by (simp add: ulp_def abs_if split: if_splits)
  then show ?thesis by (rule rq_multiple)
qed simp

lemma rq_mono_pos: assumes "0 < x" and "x \<le> y" and p: "0 < p" shows "rq p m x \<le> rq p m y"
proof (cases "ulp p m x = ulp p m y")
  case True
  have "rne (x / ulp p m x) \<le> rne (y / ulp p m x)"
    using assms(2) by (intro rne_mono divide_right_mono) (auto simp: less_imp_le)
  with True show ?thesis by (simp add: rq_alt)
next
  case False
  have f: "fexp x \<le> fexp y" using fexp_mono assms by blast
  have "fexp x \<noteq> fexp y" using False assms by (auto simp: ulp_def)
  with f have g: "fexp x < fexp y" by simp
  have m: "m < fexp y - (int p - 1)"
    using False assms f by (auto simp: ulp_def max_def split: if_splits)
  let ?B = "pow2 (fexp y)"
  let ?Ex = "max (fexp x - (int p - 1)) m"
  let ?Ey = "max (fexp y - (int p - 1)) m"
  have Bx: "?B = of_int (2 ^ nat (fexp y - ?Ex)) * ulp p m x"
    using assms(1) pow2_multiple [of ?Ex "fexp y"] g m p by (simp add: ulp_def)
  have By: "?B = of_int (2 ^ nat (fexp y - ?Ey)) * ulp p m y"
    using assms pow2_multiple [of ?Ey "fexp y"] m p by (simp add: ulp_def)
  have "x < pow2 (fexp x + 1)" using fexp_bounds(2) assms(1) .
  also have "\<dots> \<le> ?B" using g by (intro pow2_mono) simp
  finally have "rq p m x \<le> ?B" using rq_le_multiple Bx by (metis less_imp_le)
  also have "?B \<le> y" using fexp_bounds(1) assms by auto
  then have "?B \<le> rq p m y" using rq_ge_multiple By by metis
  finally show ?thesis .
qed

lemma rq_nonneg: "0 \<le> x \<Longrightarrow> 0 \<le> rq p m x"
  using rq_ge_multiple [of 0 p m x] by simp

lemma rq_nonpos: "x \<le> 0 \<Longrightarrow> rq p m x \<le> 0"
  using rq_le_multiple [of x 0 p m] by simp

lemma rq_mono: assumes "x \<le> y" and p: "0 < p" shows "rq p m x \<le> rq p m y"
proof (cases "0 < x \<or> y < 0")
  case True
  then show ?thesis
  proof
    assume "0 < x"
    then show ?thesis using assms by (rule rq_mono_pos)
  next
    assume "y < 0"
    then have "rq p m (- y) \<le> rq p m (- x)" using assms by (intro rq_mono_pos) auto
    then show ?thesis by (simp add: rq_minus)
  qed
next
  case False
  then show ?thesis using rq_nonneg [of y p m] rq_nonpos [of x p m] by simp
qed

lemma rq_error: "\<bar>rq p m q - q\<bar> \<le> ulp p m q / 2"
proof -
  have "\<bar>rq p m q - q\<bar> = \<bar>of_int (rne (q / ulp p m q)) - q / ulp p m q\<bar> * ulp p m q"
    using abs_mult_pos [of "ulp p m q" "of_int (rne (q / ulp p m q)) - q / ulp p m q"]
    by (simp add: rq_alt left_diff_distrib less_imp_le)
  also have "\<dots> \<le> 1 / 2 * ulp p m q"
    using rne_error by (intro mult_right_mono) (auto simp: less_imp_le)
  finally show ?thesis by simp
qed

section \<open>Rounding to binary64\<close>

abbreviation repr64 :: "rat \<Rightarrow> bool" where
  "repr64 \<equiv> repr 53 (- 1074)"

lemma repr_int: "\<bar>k\<bar> \<le> 2 ^ p \<Longrightarrow> m \<le> 0 \<Longrightarrow> repr p m (of_int k)"
  unfolding repr_def by (rule exI [of _ k], rule exI [of _ 0]) (simp add: pow2_def)

lemma repr_pow2: "m \<le> e \<Longrightarrow> repr p m (pow2 e)"
  unfolding repr_def by (rule exI [of _ 1], rule exI [of _ e]) simp

lemma repr_minus: "repr p m q \<Longrightarrow> repr p m (- q)"
  unfolding repr_def by (metis abs_minus_cancel mult_minus_left of_int_minus)

lemma rnd_Fin:
  assumes "\<bar>q\<bar> \<le> pow2 b" and "b < M" and "m \<le> b" and "0 < p"
  shows "rnd p m M q = Fin (rq p m q)"
proof -
  have b: "rq p m (pow2 b) = pow2 b" using assms by (intro rq_exact repr_pow2) auto
  have "rq p m q \<le> rq p m (pow2 b)" using assms by (intro rq_mono) auto
  moreover have "rq p m (- pow2 b) \<le> rq p m q" using assms by (intro rq_mono) auto
  ultimately have "\<bar>rq p m q\<bar> \<le> pow2 b" using b by (simp add: rq_minus abs_le_iff)
  then have "\<bar>rq p m q\<bar> < pow2 M" using pow2_strict_mono [OF assms(2)] by simp
  then show ?thesis by (simp add: rnd_def)
qed

lemma rnd64_Fin: "\<bar>q\<bar> \<le> 2 ^ 1023 \<Longrightarrow> rnd64 q = Fin (rq 53 (- 1074) q)"
  using rnd_Fin [of q 1023] by (simp add: pow2_def)

lemma rnd64_exact: "repr64 q \<Longrightarrow> \<bar>q\<bar> \<le> 2 ^ 1023 \<Longrightarrow> rnd64 q = Fin q"
  by (simp add: rnd64_Fin rq_exact)

lemma rnd64_of_int: "\<bar>k\<bar> \<le> 2 ^ 53 \<Longrightarrow> rnd64 (of_int k) = Fin (of_int k)"
proof -
  assume k: "\<bar>k\<bar> \<le> 2 ^ 53"
  then have "(of_int \<bar>k\<bar> :: rat) \<le> of_int (2 ^ 53)" by (simp only: of_int_le_iff)
  also have "\<dots> \<le> 2 ^ 1023" by simp
  finally show ?thesis using k by (intro rnd64_exact repr_int) auto
qed

lemma rnd64_of_nat: "n \<le> 2 ^ 53 \<Longrightarrow> rnd64 (of_nat n) = Fin (of_nat n)"
  using rnd64_of_int [of "int n"] by simp

lemma rnd64_numeral [flt_simps]:
  "(numeral n :: nat) \<le> 2 ^ 53 \<Longrightarrow> rnd64 (numeral n) = Fin (numeral n)"
  using rnd64_of_nat [of "numeral n"] by simp

lemma rnd64_zero [simp]: "rnd64 0 = Fin 0"
  by (simp add: rnd_def pow2_def)

lemma rnd64_one [simp]: "rnd64 1 = Fin 1"
  using rnd64_of_int [of 1] by simp

lemma rnd_mono: assumes "x \<le> y" and "0 < p" shows "rnd p m M x \<le> rnd p m M y"
proof -
  let ?x = "rq p m x" and ?y = "rq p m y"
  have xy: "?x \<le> ?y" using assms by (rule rq_mono)
  have pos: "pow2 M \<le> \<bar>?x\<bar> \<Longrightarrow> \<not> x < 0 \<Longrightarrow> pow2 M \<le> \<bar>?y\<bar> \<and> \<not> y < 0"
    using xy rq_nonneg [of x p m] assms(1) by auto
  have neg: "pow2 M \<le> \<bar>?y\<bar> \<Longrightarrow> y < 0 \<Longrightarrow> pow2 M \<le> \<bar>?x\<bar> \<and> x < 0"
    using xy rq_nonpos [of y p m] assms(1) by auto
  show ?thesis using xy pos neg by (auto simp: rnd_def Let_def)
qed

text \<open>A rational bound by a representable number is still bound by it after rounding.\<close>

lemma rnd64_le: "x \<le> c \<Longrightarrow> repr64 c \<Longrightarrow> \<bar>c\<bar> \<le> 2 ^ 1023 \<Longrightarrow> rnd64 x \<le> Fin c"
  using rnd_mono [of x c 53 "- 1074" 1024] rnd64_exact [of c] by simp

lemma rnd64_ge: "c \<le> x \<Longrightarrow> repr64 c \<Longrightarrow> \<bar>c\<bar> \<le> 2 ^ 1023 \<Longrightarrow> Fin c \<le> rnd64 x"
  using rnd_mono [of c x 53 "- 1074" 1024] rnd64_exact [of c] by simp

text \<open>Evaluation of one rounding: the exponent and the significand are checked, not computed.\<close>

lemma rnd64_evalI:
  assumes "pow2 e \<le> q" and "q < pow2 (e + 1)" and "- 1022 \<le> e" and "e \<le> 1022"
    and "\<bar>q / pow2 (e - 52) - of_int n\<bar> < 1 / 2"
  shows "rnd64 q = Fin (of_int n * pow2 (e - 52))"
proof -
  have q: "0 < q" using assms(1) pow2_pos order_less_le_trans by blast
  have "ulp 53 (- 1074) q = pow2 (e - 52)"
    using q fexp_eqI [OF assms(1,2)] assms(3) by (simp add: ulp_def max.absorb1)
  with q have "rq 53 (- 1074) q = of_int n * pow2 (e - 52)"
    by (simp add: rq_alt rne_eqI [OF assms(5)])
  moreover have "pow2 (e + 1) \<le> 2 ^ 1023"
    using pow2_mono [of "e + 1" 1023] assms(4) by (simp add: pow2_def)
  ultimately show ?thesis using assms(2) q by (subst rnd64_Fin) auto
qed

section \<open>Order, minimum, maximum and casts\<close>

lemma flt_le_trans: "x \<le> y \<Longrightarrow> y \<le> z \<Longrightarrow> x \<le> z" for x y z :: flt
  by (cases x; cases y; cases z) auto

lemma flt_less_le_trans: "x < y \<Longrightarrow> y \<le> z \<Longrightarrow> x < z" for x y z :: flt
  by (cases x; cases y; cases z) auto

lemma flt_le_less_trans: "x \<le> y \<Longrightarrow> y < z \<Longrightarrow> x < z" for x y z :: flt
  by (cases x; cases y; cases z) auto

lemma flt_not_less: "x \<noteq> NaN \<Longrightarrow> y \<noteq> NaN \<Longrightarrow> \<not> x < y \<longleftrightarrow> y \<le> x" for x y :: flt
  by (cases x; cases y) auto

lemma flt_less_imp_le: "x < y \<Longrightarrow> x \<le> y" for x y :: flt
  by (cases x; cases y) auto

lemma flt_le_refl: "x \<noteq> NaN \<Longrightarrow> x \<le> x" for x :: flt
  by (cases x) auto

lemma flt_le_not_NaN: "x \<le> y \<Longrightarrow> x \<noteq> NaN \<and> y \<noteq> NaN" for x y :: flt
  by (cases x; cases y) auto

lemma flt_less_not_NaN: "x < y \<Longrightarrow> x \<noteq> NaN \<and> y \<noteq> NaN" for x y :: flt
  by (cases x; cases y) auto

lemma flt_between_Fin: "Fin a \<le> x \<Longrightarrow> x \<le> Fin b \<Longrightarrow> \<exists>q. x = Fin q \<and> a \<le> q \<and> q \<le> b"
  by (cases x) auto

lemma rnd_not_NaN [simp]: "rnd p m M q \<noteq> NaN"
  by (simp add: rnd_def Let_def)

lemma fmax_ge_right: "y \<noteq> NaN \<Longrightarrow> y \<le> fmax x y"
  by (cases x; cases y) (auto simp: fmax_def is_nan_def)

lemma fmin_le_right: "y \<noteq> NaN \<Longrightarrow> fmin x y \<le> y"
  by (cases x; cases y) (auto simp: fmin_def is_nan_def)

lemma fmax_leI: "x \<le> z \<Longrightarrow> y \<le> z \<Longrightarrow> fmax x y \<le> z"
  by (auto simp: fmax_def)

lemma fmin_geI: "z \<le> x \<Longrightarrow> z \<le> y \<Longrightarrow> z \<le> fmin x y"
  by (auto simp: fmin_def)

lemma clamp_bounds: "lo \<le> hi \<Longrightarrow> x \<noteq> NaN \<Longrightarrow> lo \<le> clamp lo hi x \<and> clamp lo hi x \<le> hi"
  by (cases lo; cases hi; cases x) (auto simp: clamp_def)

lemma unat_f64_as_u64_Fin:
  assumes "0 \<le> x" and "x < 2 ^ 64"
  shows "unat (f64_as_u64 (Fin x)) = nat \<lfloor>x\<rfloor>"
proof -
  have "\<lfloor>x\<rfloor> < 2 ^ 64" using assms(2) by (simp add: floor_less_iff)
  moreover have "0 \<le> \<lfloor>x\<rfloor>" using assms(1) by simp
  ultimately have "uint (word_of_int \<lfloor>x\<rfloor> :: u64) = \<lfloor>x\<rfloor>"
    by (simp add: uint_word_of_int)
  moreover have "f64_as_u64 (Fin x) = word_of_int \<lfloor>x\<rfloor>"
    using assms by (cases "x = 0") auto
  ultimately show ?thesis by (simp add: unat_eq_nat_uint del: f64_as_u64.simps)
qed

lemma f64_as_u64_mono: assumes "x \<le> y" shows "f64_as_u64 x \<le> f64_as_u64 y"
proof (cases x; cases y)
  fix a b assume x: "x = Fin a" and y: "y = Fin b"
  with assms have ab: "a \<le> b" by simp
  show ?thesis
  proof (cases "0 < a \<and> b < 2 ^ 64")
    case True
    then show ?thesis using ab unat_f64_as_u64_Fin [of a] unat_f64_as_u64_Fin [of b]
      by (simp add: x y word_le_nat_alt floor_mono nat_mono del: f64_as_u64.simps)
  next
    case False
    then show ?thesis using ab by (auto simp: x y)
  qed
qed (use assms in auto)

lemma f64_as_u64_of_nat:
  assumes "n < 2 ^ 64" shows "f64_as_u64 (Fin (of_nat n)) = word_of_nat n"
proof -
  have "(of_nat n :: rat) < of_nat (2 ^ 64)" using assms by (simp only: of_nat_less_iff)
  then show ?thesis by simp
qed

lemma u64_as_f64_exact: "unat n \<le> 2 ^ 53 \<Longrightarrow> u64_as_f64 n = Fin (of_nat (unat n))"
  by (simp add: u64_as_f64_def rnd64_of_nat)

lemma u64_as_f64_numeral [flt_simps]:
  "unat (numeral n :: u64) \<le> 2 ^ 53 \<Longrightarrow> u64_as_f64 (numeral n) = Fin (of_nat (unat (numeral n :: u64)))"
  by (rule u64_as_f64_exact)

section \<open>Values that are doubles\<close>

lemma repr_rq: assumes "0 < p" shows "repr p m (rq p m q)"
proof (cases "q = 0")
  case True
  then show ?thesis
    unfolding repr_def by (intro exI [of _ 0] exI [of _ m]) simp
next
  case False
  let ?f = "fexp \<bar>q\<bar>" and ?n = "rne (q / ulp p m q)"
  let ?E = "max (?f - (int p - 1)) m"
  have "\<bar>q\<bar> < pow2 (?f + 1)" using fexp_bounds(2) [of "\<bar>q\<bar>"] False by simp
  also have "\<dots> \<le> pow2 (int p + ?E)" by (intro pow2_mono) simp
  finally have "\<bar>q\<bar> \<le> 2 ^ p * pow2 ?E" by (simp add: pow2_add pow2_nat)
  then have "\<bar>q / pow2 ?E\<bar> \<le> 2 ^ p"
    by (simp add: abs_divide pos_divide_le_eq)
  then have "- of_int (2 ^ p) \<le> q / pow2 ?E" and "q / pow2 ?E \<le> of_int (2 ^ p)"
    unfolding abs_le_iff by simp_all
  then have "rne (of_int (- (2 ^ p))) \<le> ?n" and "?n \<le> rne (of_int (2 ^ p))"
    unfolding ulp_def by (intro rne_mono; simp)+
  then have "\<bar>?n\<bar> \<le> 2 ^ p" unfolding rne_of_int by (simp add: abs_le_iff)
  then show ?thesis
    unfolding repr_def rq_alt by (intro exI [of _ ?n] exI [of _ ?E]) (simp add: ulp_def)
qed

definition is_f64 :: "flt \<Rightarrow> bool" where
  "is_f64 x \<longleftrightarrow> (\<forall>q. x = Fin q \<longrightarrow> repr64 q)"

lemma is_f64_simps [simp]: "is_f64 NaN" "is_f64 (Inf s)" "is_f64 (Fin q) \<longleftrightarrow> repr64 q"
  by (simp_all add: is_f64_def)

lemma is_f64_rnd64 [simp, intro]: "is_f64 (rnd64 q)"
  by (simp add: rnd_def Let_def repr_rq)

lemma is_f64_plus [simp, intro]: "is_f64 (x + y)"
  by (cases x; cases y) simp_all

lemma is_f64_times [simp, intro]: "is_f64 (x * y)"
  by (cases x; cases y) simp_all

lemma repr64_numeral [simp]: "(numeral n :: int) \<le> 2 ^ 53 \<Longrightarrow> repr64 (numeral n)"
  using repr_int [of "numeral n" 53 "- 1074"] by simp

lemma repr64_0_1 [simp]: "repr64 0" "repr64 1"
  using repr_int [of 0 53 "- 1074"] repr_int [of 1 53 "- 1074"] by simp_all

lemma is_f64_fmax [simp, intro]: "is_f64 x \<Longrightarrow> is_f64 y \<Longrightarrow> is_f64 (fmax x y)"
  by (simp add: fmax_def)

lemma is_f64_fmin [simp, intro]: "is_f64 x \<Longrightarrow> is_f64 y \<Longrightarrow> is_f64 (fmin x y)"
  by (simp add: fmin_def)

lemma is_f64_clamp [simp, intro]: "is_f64 x \<Longrightarrow> is_f64 lo \<Longrightarrow> is_f64 hi \<Longrightarrow> is_f64 (clamp lo hi x)"
  by (simp add: clamp_def)

lemma rnd64_between:
  assumes "c \<le> x" and "x \<le> d" and "repr64 c" and "repr64 d" and "\<bar>c\<bar> \<le> 2 ^ 1023" and "\<bar>d\<bar> \<le> 2 ^ 1023"
  shows "\<exists>q. rnd64 x = Fin q \<and> c \<le> q \<and> q \<le> d"
  using rnd64_ge [OF assms(1,3,5)] rnd64_le [OF assms(2,4,6)] by (rule flt_between_Fin)

end
