(* ===== verification/Rate_Control.thy ===== *)
theory Rate_Control
  imports Float64
begin

text \<open>
  What the two bitrate controllers of \<^verbatim>\<open>src/bwe\<close> (delay-based, loss-based) have in common: an
  estimate kept between a floor and a ceiling, lowered by a factor at most once per cooldown and
  raised by a constant otherwise. The interface is the locale \<open>rate_controller\<close>; its client
  lemmas hold of every run of observations and control calls.
\<close>

section \<open>Runs of a controller\<close>

datatype 'o ctl_event = Observe 'o | Control instant

fun ctl_exec :: "('s \<Rightarrow> 'o \<Rightarrow> 's) \<Rightarrow> ('s \<Rightarrow> instant \<Rightarrow> 's) \<Rightarrow> 's \<Rightarrow> 'o ctl_event \<Rightarrow> 's" where
  "ctl_exec observe control s (Observe x) = observe s x"
| "ctl_exec observe control s (Control now) = control s now"

definition ctl_run :: "('s \<Rightarrow> 'o \<Rightarrow> 's) \<Rightarrow> ('s \<Rightarrow> instant \<Rightarrow> 's) \<Rightarrow> 's \<Rightarrow> 'o ctl_event list \<Rightarrow> 's" where
  "ctl_run observe control = foldl (ctl_exec observe control)"

text \<open>The instants of the control calls that lowered the rate.\<close>

fun decreases :: "('s \<Rightarrow> f64) \<Rightarrow> ('s \<Rightarrow> 'o \<Rightarrow> 's) \<Rightarrow> ('s \<Rightarrow> instant \<Rightarrow> 's) \<Rightarrow> 's \<Rightarrow> 'o ctl_event list \<Rightarrow> instant list" where
  "decreases rate observe control s [] = []"
| "decreases rate observe control s (Observe x # es) = decreases rate observe control (observe s x) es"
| "decreases rate observe control s (Control now # es) =
     (if rate (control s now) < rate s then [now] else [])
     @ decreases rate observe control (control s now) es"

section \<open>The contract\<close>

locale rate_controller =
  fixes ok :: "'s \<Rightarrow> bool"
    and rate :: "'s \<Rightarrow> f64"
    and last_decrease_of :: "'s \<Rightarrow> instant option"
    and observe :: "'s \<Rightarrow> 'o \<Rightarrow> 's"
    and control :: "'s \<Rightarrow> instant \<Rightarrow> 's"
    and lo hi :: f64
    and cooldown :: duration
  assumes cooldown_pos: "0 < cooldown"
    and ok_bounds: "ok s \<Longrightarrow> lo \<le> rate s \<and> rate s \<le> hi"
    and observe_ok: "ok s \<Longrightarrow> ok (observe s x)"
    and observe_rate: "rate (observe s x) = rate s"
    and observe_last: "last_decrease_of (observe s x) = last_decrease_of s"
    and control_ok: "ok s \<Longrightarrow> ok (control s now)"
    and control_last: "ok s \<Longrightarrow>
      last_decrease_of (control s now) = last_decrease_of s \<and> \<not> rate (control s now) < rate s
      \<or> last_decrease_of (control s now) = Some now
        \<and> (\<forall>t. last_decrease_of s = Some t \<longrightarrow> cooldown \<le> duration_since now t)"
begin

lemma exec_ok: "ok s \<Longrightarrow> ok (ctl_exec observe control s e)"
  by (cases e) (simp_all add: observe_ok control_ok)

lemma run_ok: "ok s \<Longrightarrow> ok (ctl_run observe control s es)"
  unfolding ctl_run_def by (induction es arbitrary: s) (simp_all add: exec_ok)

lemma run_bounds:
  "ok s \<Longrightarrow> lo \<le> rate (ctl_run observe control s es) \<and> rate (ctl_run observe control s es) \<le> hi"
  by (intro ok_bounds run_ok)

text \<open>The first decrease of a run comes a cooldown after the last one recorded.\<close>

lemma control_gap:
  assumes "ok s" and "last_decrease_of s = Some t" and "u \<le> t"
  shows "rate (control s now) < rate s \<Longrightarrow> u + cooldown \<le> now"
    and "\<exists>t'. last_decrease_of (control s now) = Some t' \<and> u \<le> t'
           \<and> (rate (control s now) < rate s \<longrightarrow> t' = now)"
proof -
  show "u + cooldown \<le> now" if "rate (control s now) < rate s"
    using that control_last [OF assms(1), of now] assms(2,3) cooldown_pos
    by (auto simp: duration_since_def)
  show "\<exists>t'. last_decrease_of (control s now) = Some t' \<and> u \<le> t'
           \<and> (rate (control s now) < rate s \<longrightarrow> t' = now)"
    using control_last [OF assms(1), of now] assms(2,3) cooldown_pos
    by (auto simp: duration_since_def)
qed

lemma decreases_spaced_after:
  assumes "ok s" and "last_decrease_of s = Some t" and "u \<le> t"
  shows "successively (\<lambda>a b. a + cooldown \<le> b) (u # decreases rate observe control s es)"
  using assms
proof (induction es arbitrary: s t u)
  case (Cons e es)
  show ?case
  proof (cases e)
    case (Observe x)
    with Cons show ?thesis by (simp add: observe_ok observe_last)
  next
    case (Control now)
    let ?s = "control s now"
    have b: "ok ?s"
      using control_ok Cons.prems by auto
    obtain t' where t': "last_decrease_of ?s = Some t'" "u \<le> t'" "rate ?s < rate s \<Longrightarrow> t' = now"
      using control_gap(2) [OF Cons.prems, of now] by blast
    show ?thesis
    proof (cases "rate ?s < rate s")
      case True
      then show ?thesis
        using Control control_gap(1) [OF Cons.prems True] Cons.IH [OF b t'(1), of now] t'(3) by simp
    next
      case False
      then show ?thesis using Control Cons.IH [OF b t'(1,2)] by simp
    qed
  qed
qed simp

lemma decreases_spaced:
  assumes "ok s"
  shows "successively (\<lambda>a b. a + cooldown \<le> b) (decreases rate observe control s es)"
  using assms
proof (induction es arbitrary: s)
  case (Cons e es)
  show ?case
  proof (cases e)
    case (Observe x)
    with Cons show ?thesis by (simp add: observe_ok)
  next
    case (Control now)
    let ?s = "control s now"
    have b: "ok ?s"
      using control_ok Cons.prems by auto
    show ?thesis
    proof (cases "rate ?s < rate s")
      case True
      then have "last_decrease_of ?s = Some now" using control_last [OF Cons.prems, of now] by auto
      then show ?thesis
        using Control True decreases_spaced_after [OF b, of now now] by simp
    next
      case False
      then show ?thesis using Control Cons.IH [OF b] by simp
    qed
  qed
qed simp

end

section \<open>One multiplicative decrease, one additive increase\<close>

lemma decrease_bounds:
  assumes "lo \<le> r" and "r \<le> hi" and "0 \<le> lo" and "0 \<le> d" and "d \<le> 1"
    and "repr64 hi" and "hi \<le> 2 ^ 1023"
  shows "Fin lo \<le> fmax (Fin r * Fin d) (Fin lo)" and "fmax (Fin r * Fin d) (Fin lo) \<le> Fin hi"
proof -
  show "Fin lo \<le> fmax (Fin r * Fin d) (Fin lo)" by (simp add: fmax_ge_right)
  have "r * d \<le> hi" using assms mult_left_le [of d r] by linarith
  then have "rnd64 (r * d) \<le> Fin hi" using assms by (intro rnd64_le) auto
  then show "fmax (Fin r * Fin d) (Fin lo) \<le> Fin hi" using assms by (intro fmax_leI) auto
qed

lemma increase_bounds:
  assumes "lo \<le> r" and "r \<le> hi" and "0 \<le> lo" and "0 \<le> i"
    and "repr64 lo" and "hi \<le> 2 ^ 1023"
  shows "Fin lo \<le> fmin (Fin r + Fin i) (Fin hi)" and "fmin (Fin r + Fin i) (Fin hi) \<le> Fin hi"
proof -
  show "fmin (Fin r + Fin i) (Fin hi) \<le> Fin hi" by (simp add: fmin_le_right)
  have "Fin lo \<le> rnd64 (r + i)" using assms by (intro rnd64_ge) auto
  then show "Fin lo \<le> fmin (Fin r + Fin i) (Fin hi)" using assms by (intro fmin_geI) auto
qed

text \<open>The increase never lowers a rate that is a double.\<close>

lemma increase_not_less:
  assumes "repr64 r" and "0 \<le> r" and "r \<le> hi" and "0 \<le> i" and "hi \<le> 2 ^ 1023"
  shows "\<not> fmin (Fin r + Fin i) (Fin hi) < Fin r"
proof -
  have "Fin r \<le> rnd64 (r + i)" using assms by (intro rnd64_ge) auto
  then have "Fin r \<le> fmin (Fin r + Fin i) (Fin hi)" using assms by (intro fmin_geI) auto
  then show ?thesis by (cases "fmin (Fin r + Fin i) (Fin hi)") auto
qed

end
