(* ===== verification/Delay_Loss.thy ===== *)
theory Delay_Loss
  imports Rate_Control
begin

text \<open>
  The two rate controllers of the bandwidth estimator: the Kalman-filtered delay controller of
  \<^verbatim>\<open>src/bwe/kalman.rs\<close> and the loss controller of \<^verbatim>\<open>src/bwe/loss.rs\<close>. Both interpret
  \<open>rate_controller\<close>; the loss window interprets \<open>sliding_window\<close>.
\<close>

section \<open>Delay: Kalman filter and AIMD (bwe/kalman.rs)\<close>

definition PROCESS_NOISE_VAR :: f64 where "PROCESS_NOISE_VAR = rnd64 (1 / 10000)"
definition MEASUREMENT_NOISE_VAR :: f64 where "MEASUREMENT_NOISE_VAR = rnd64 (5 / 1000)"
definition OVERUSE_THRESHOLD_US :: f64 where "OVERUSE_THRESHOLD_US = Fin 12500"
definition DECREASE_FACTOR :: f64 where "DECREASE_FACTOR = rnd64 (85 / 100)"
definition ADDITIVE_INCREASE_BPS :: f64 where "ADDITIVE_INCREASE_BPS = Fin 8000"
definition MIN_BITRATE_BPS :: f64 where "MIN_BITRATE_BPS = Fin 30000"
definition MAX_BITRATE_BPS :: f64 where "MAX_BITRATE_BPS = Fin 50000000"
definition DECREASE_COOLDOWN :: duration where "DECREASE_COOLDOWN = from_millis 200"

record DelayEstimator =
  gradient_us :: f64
  gradient_var :: f64
  delay_bitrate_bps :: f64
  delay_last_decrease :: "instant option"

definition DelayEstimator_new :: "f64 \<Rightarrow> DelayEstimator" where
  "DelayEstimator_new initial_bitrate_bps =
     \<lparr>gradient_us = Fin 0, gradient_var = Fin 1,
      delay_bitrate_bps = clamp MIN_BITRATE_BPS MAX_BITRATE_BPS initial_bitrate_bps,
      delay_last_decrease = None\<rparr>"

definition update_kalman :: "DelayEstimator \<Rightarrow> f64 \<Rightarrow> DelayEstimator" where
  "update_kalman d g =
     (let v = gradient_var d + PROCESS_NOISE_VAR;
          gain = v / (v + MEASUREMENT_NOISE_VAR);
          x = gradient_us d + gain * (g - gradient_us d)
      in d\<lparr>gradient_us := x, gradient_var := v * (Fin 1 - gain)\<rparr>)"

definition delay_apply_rate_control :: "DelayEstimator \<Rightarrow> instant \<Rightarrow> DelayEstimator" where
  "delay_apply_rate_control d now =
     (if OVERUSE_THRESHOLD_US < gradient_us d then
        let can_decrease = (case delay_last_decrease d of None \<Rightarrow> True
                            | Some t \<Rightarrow> DECREASE_COOLDOWN \<le> duration_since now t)
        in if can_decrease
           then d\<lparr>delay_bitrate_bps := fmax (delay_bitrate_bps d * DECREASE_FACTOR) MIN_BITRATE_BPS,
                  delay_last_decrease := Some now\<rparr>
           else d
      else d\<lparr>delay_bitrate_bps := fmin (delay_bitrate_bps d + ADDITIVE_INCREASE_BPS) MAX_BITRATE_BPS\<rparr>)"

definition filtered_gradient_us :: "DelayEstimator \<Rightarrow> f64" where
  "filtered_gradient_us d = gradient_us d"

section \<open>Loss: sliding window and AIMD (bwe/loss.rs)\<close>

definition LOSS_WINDOW :: nat where "LOSS_WINDOW = 64"
definition LOSS_HIGH_THRESHOLD :: f64 where "LOSS_HIGH_THRESHOLD = rnd64 (10 / 100)"
definition LOSS_LOW_THRESHOLD :: f64 where "LOSS_LOW_THRESHOLD = rnd64 (2 / 100)"
definition LOSS_DECREASE_FACTOR :: f64 where "LOSS_DECREASE_FACTOR = rnd64 (85 / 100)"
definition LOSS_DECREASE_COOLDOWN :: duration where "LOSS_DECREASE_COOLDOWN = from_millis 250"
definition LOSS_INCREASE_BPS :: f64 where "LOSS_INCREASE_BPS = Fin 5000"

record LossEstimator =
  loss_window :: "bool list"
  loss_bitrate_bps :: f64
  loss_last_decrease :: "instant option"

definition LossEstimator_new :: "f64 \<Rightarrow> LossEstimator" where
  "LossEstimator_new initial_bitrate_bps =
     \<lparr>loss_window = [],
      loss_bitrate_bps = clamp MIN_BITRATE_BPS MAX_BITRATE_BPS initial_bitrate_bps,
      loss_last_decrease = None\<rparr>"

definition loss_push :: "bool list \<Rightarrow> bool \<Rightarrow> bool list" where
  "loss_push w received = (if LOSS_WINDOW \<le> length w then tl w else w) @ [received]"

definition loss_record :: "LossEstimator \<Rightarrow> bool \<Rightarrow> LossEstimator" where
  "loss_record l received = l\<lparr>loss_window := loss_push (loss_window l) received\<rparr>"

definition loss_fraction :: "LossEstimator \<Rightarrow> f64" where
  "loss_fraction l =
     (if loss_window l = [] then Fin 0
      else let lost = length (filter Not (loss_window l))
           in usize_as_f64 lost / usize_as_f64 (length (loss_window l)))"

definition loss_apply_rate_control :: "LossEstimator \<Rightarrow> instant \<Rightarrow> LossEstimator" where
  "loss_apply_rate_control l now =
     (let loss = loss_fraction l
      in if LOSS_HIGH_THRESHOLD \<le> loss then
           let can_decrease = (case loss_last_decrease l of None \<Rightarrow> True
                               | Some t \<Rightarrow> LOSS_DECREASE_COOLDOWN \<le> duration_since now t)
           in if can_decrease
              then l\<lparr>loss_bitrate_bps := fmax (loss_bitrate_bps l * LOSS_DECREASE_FACTOR) MIN_BITRATE_BPS,
                     loss_last_decrease := Some now\<rparr>
              else l
         else if loss < LOSS_LOW_THRESHOLD
         then l\<lparr>loss_bitrate_bps := fmin (loss_bitrate_bps l + LOSS_INCREASE_BPS) MAX_BITRATE_BPS\<rparr>
         else l)"

lemmas [rate_defs] =
  PROCESS_NOISE_VAR_def MEASUREMENT_NOISE_VAR_def OVERUSE_THRESHOLD_US_def DECREASE_FACTOR_def
  ADDITIVE_INCREASE_BPS_def MIN_BITRATE_BPS_def MAX_BITRATE_BPS_def DECREASE_COOLDOWN_def
  LOSS_WINDOW_def LOSS_HIGH_THRESHOLD_def LOSS_LOW_THRESHOLD_def LOSS_DECREASE_FACTOR_def
  LOSS_DECREASE_COOLDOWN_def LOSS_INCREASE_BPS_def

section \<open>Both are rate controllers\<close>

definition bitrate_ok :: "f64 \<Rightarrow> bool" where
  "bitrate_ok r \<longleftrightarrow> MIN_BITRATE_BPS \<le> r \<and> r \<le> MAX_BITRATE_BPS \<and> is_f64 r"

definition delay_ok :: "DelayEstimator \<Rightarrow> bool" where
  "delay_ok d \<longleftrightarrow> bitrate_ok (delay_bitrate_bps d)"

definition loss_ok :: "LossEstimator \<Rightarrow> bool" where
  "loss_ok l \<longleftrightarrow> bitrate_ok (loss_bitrate_bps l) \<and> length (loss_window l) \<le> LOSS_WINDOW"

lemma bitrate_okE:
  assumes "bitrate_ok r"
  obtains q where "r = Fin q" "30000 \<le> q" "q \<le> 50000000" "repr64 q"
  using assms flt_between_Fin [of 30000 r 50000000]
  by (auto simp: bitrate_ok_def MIN_BITRATE_BPS_def MAX_BITRATE_BPS_def)

lemma factor_85: "\<exists>d. rnd64 (85 / 100) = Fin d \<and> 0 \<le> d \<and> d \<le> 1"
  using rnd64_between [of 0 "85 / 100" 1] by simp

lemma bitrate_ok_clamp: "is_f64 r \<Longrightarrow> r \<noteq> NaN \<Longrightarrow> bitrate_ok (clamp MIN_BITRATE_BPS MAX_BITRATE_BPS r)"
  using clamp_bounds [of MIN_BITRATE_BPS MAX_BITRATE_BPS r]
  by (simp add: bitrate_ok_def rate_defs)

lemma bitrate_ok_decrease:
  assumes "bitrate_ok r"
  shows "bitrate_ok (fmax (r * rnd64 (85 / 100)) MIN_BITRATE_BPS)"
proof -
  obtain q d where "r = Fin q" "30000 \<le> q" "q \<le> 50000000"
    and "rnd64 (85 / 100) = Fin d" "0 \<le> d" "d \<le> 1"
    using factor_85 bitrate_okE [OF assms] by metis
  then show ?thesis
    using decrease_bounds [of 30000 q 50000000 d]
    by (auto simp: bitrate_ok_def MIN_BITRATE_BPS_def MAX_BITRATE_BPS_def)
qed

lemma bitrate_ok_increase:
  assumes "bitrate_ok r" and "0 \<le> i"
  shows "bitrate_ok (fmin (r + Fin i) MAX_BITRATE_BPS)" and "\<not> fmin (r + Fin i) MAX_BITRATE_BPS < r"
proof -
  obtain q where "r = Fin q" "30000 \<le> q" "q \<le> 50000000" "repr64 q"
    using bitrate_okE [OF assms(1)] .
  then show "bitrate_ok (fmin (r + Fin i) MAX_BITRATE_BPS)" and "\<not> fmin (r + Fin i) MAX_BITRATE_BPS < r"
    using increase_bounds [of 30000 q 50000000 i] increase_not_less [of q 50000000 i] assms(2)
    by (auto simp: bitrate_ok_def MIN_BITRATE_BPS_def MAX_BITRATE_BPS_def)
qed

lemma flt_less_irrefl [simp]: "\<not> x < (x :: flt)"
  by (cases x) auto

interpretation delay: rate_controller delay_ok delay_bitrate_bps delay_last_decrease update_kalman
    delay_apply_rate_control MIN_BITRATE_BPS MAX_BITRATE_BPS DECREASE_COOLDOWN
proof
  show "delay_ok (delay_apply_rate_control s now)" if "delay_ok s" for s now
    using that bitrate_ok_decrease bitrate_ok_increase(1) [of _ 8000]
    by (auto simp: delay_apply_rate_control_def delay_ok_def DECREASE_FACTOR_def Let_def
        ADDITIVE_INCREASE_BPS_def)
  show "delay_last_decrease (delay_apply_rate_control s now) = delay_last_decrease s
      \<and> \<not> delay_bitrate_bps (delay_apply_rate_control s now) < delay_bitrate_bps s
      \<or> delay_last_decrease (delay_apply_rate_control s now) = Some now
        \<and> (\<forall>t. delay_last_decrease s = Some t \<longrightarrow> DECREASE_COOLDOWN \<le> duration_since now t)"
    if "delay_ok s" for s now
    using that bitrate_ok_increase(2) [of _ 8000]
    by (auto simp: delay_apply_rate_control_def delay_ok_def Let_def ADDITIVE_INCREASE_BPS_def
        split: option.splits)
qed (auto simp: delay_ok_def bitrate_ok_def update_kalman_def Let_def rate_defs from_millis_def)

interpretation loss_win: sliding_window LOSS_WINDOW loss_push
  by unfold_locales (auto simp: loss_push_def LOSS_WINDOW_def)

interpretation loss: rate_controller loss_ok loss_bitrate_bps loss_last_decrease loss_record
    loss_apply_rate_control MIN_BITRATE_BPS MAX_BITRATE_BPS LOSS_DECREASE_COOLDOWN
proof
  show "loss_ok (loss_record s x)" if "loss_ok s" for s x
    using that loss_win.length_push by (auto simp: loss_ok_def loss_record_def)
  show "loss_ok (loss_apply_rate_control s now)" if "loss_ok s" for s now
    using that bitrate_ok_decrease bitrate_ok_increase(1) [of _ 5000]
    by (auto simp: loss_apply_rate_control_def loss_ok_def LOSS_DECREASE_FACTOR_def Let_def
        LOSS_INCREASE_BPS_def)
  show "loss_last_decrease (loss_apply_rate_control s now) = loss_last_decrease s
      \<and> \<not> loss_bitrate_bps (loss_apply_rate_control s now) < loss_bitrate_bps s
      \<or> loss_last_decrease (loss_apply_rate_control s now) = Some now
        \<and> (\<forall>t. loss_last_decrease s = Some t \<longrightarrow> LOSS_DECREASE_COOLDOWN \<le> duration_since now t)"
    if "loss_ok s" for s now
    using that bitrate_ok_increase(2) [of _ 5000]
    by (auto simp: loss_apply_rate_control_def loss_ok_def Let_def LOSS_INCREASE_BPS_def
        split: option.splits)
qed (auto simp: loss_ok_def bitrate_ok_def loss_record_def rate_defs from_millis_def)

lemma DelayEstimator_new_ok: "is_f64 r \<Longrightarrow> r \<noteq> NaN \<Longrightarrow> delay_ok (DelayEstimator_new r)"
  by (simp add: delay_ok_def DelayEstimator_new_def bitrate_ok_clamp)

lemma LossEstimator_new_ok: "is_f64 r \<Longrightarrow> r \<noteq> NaN \<Longrightarrow> loss_ok (LossEstimator_new r)"
  by (simp add: loss_ok_def LossEstimator_new_def bitrate_ok_clamp)

section \<open>Properties\<close>

text \<open>
  C20: both estimates always lie between 30 kbit/s and 50 Mbit/s, and their decreases are rate-limited.
  From any initial estimate that is a number, every sequence of samples, packet reports and control
  calls keeps the delay-based and the loss-based bitrate inside the bounds, in particular finite and
  not NaN; two control calls that lower the delay-based estimate are at least 200 ms apart and two
  that lower the loss-based estimate at least 250 ms, also when the clock readings are not monotone.
\<close>

theorem estimators_controlled:
  assumes "is_f64 r" and "r \<noteq> NaN"
  shows "bitrate_ok (delay_bitrate_bps
           (ctl_run update_kalman delay_apply_rate_control (DelayEstimator_new r) ds))
       \<and> bitrate_ok (loss_bitrate_bps
           (ctl_run loss_record loss_apply_rate_control (LossEstimator_new r) ls))
       \<and> successively (\<lambda>a b. a + 200000000 \<le> b)
           (decreases delay_bitrate_bps update_kalman delay_apply_rate_control (DelayEstimator_new r) ds)
       \<and> successively (\<lambda>a b. a + 250000000 \<le> b)
           (decreases loss_bitrate_bps loss_record loss_apply_rate_control (LossEstimator_new r) ls)"
  using delay.run_ok [OF DelayEstimator_new_ok [OF assms], of ds]
    loss.run_ok [OF LossEstimator_new_ok [OF assms], of ls]
    delay.decreases_spaced [OF DelayEstimator_new_ok [OF assms], of ds]
    loss.decreases_spaced [OF LossEstimator_new_ok [OF assms], of ls]
  by (simp add: delay_ok_def loss_ok_def DECREASE_COOLDOWN_def LOSS_DECREASE_COOLDOWN_def from_millis_def)

theorem estimators_controlled_witness:
  "bitrate_ok (delay_bitrate_bps (ctl_run update_kalman delay_apply_rate_control
       (DelayEstimator_new (Fin 10)) [Observe (Fin 20000), Control 7]))
   \<and> successively (\<lambda>a b. a + 250000000 \<le> b)
     (decreases loss_bitrate_bps loss_record loss_apply_rate_control (LossEstimator_new (Fin 10))
        [Observe False, Control 7, Control 8, Control 300000000])"
  using estimators_controlled [of "Fin 10" "[Observe (Fin 20000), Control 7]" "[Observe False, Control 7, Control 8, Control 300000000]"]
  by simp

text \<open>
  The loss window holds exactly the latest 64 packet reports, in order, whatever was recorded
  before.
\<close>

lemma loss_window_latest:
  "loss_window (foldl loss_record (LossEstimator_new r) rs) = drop (length rs - 64) rs"
proof -
  have "loss_window (foldl loss_record l rs) = foldl loss_push (loss_window l) rs" for l
    by (induction rs arbitrary: l) (simp_all add: loss_record_def)
  then show ?thesis
    using loss_win.foldl_push [of "[]" rs] by (simp add: LossEstimator_new_def LOSS_WINDOW_def)
qed

end
