(* ===== verification/Kalman.thy ===== *)
theory Kalman
  imports Delay_Loss
begin

text \<open>
  Numerical behaviour of the Kalman filter of \<^verbatim>\<open>src/bwe/kalman.rs\<close> in double precision: the
  covariance stays in \<open>[0, 1]\<close>, the gain strictly between 0 and 1, and the filtered gradient inside
  the range of the samples, so that no congestion is reported unless a sample showed one. The last
  section shows that the loss controller's threshold tests are exact.
\<close>

section \<open>Relative error\<close>

lemma ulp_rel:
  assumes "pow2 (- 1022) \<le> x"
  shows "ulp 53 (- 1074) x \<le> x * pow2 (- 52)"
proof -
  have x: "0 < x" using assms pow2_pos order_less_le_trans by blast
  have f: "pow2 (fexp x) \<le> x" "x < pow2 (fexp x + 1)" using fexp_bounds [OF x] .
  then have "pow2 (- 1022) < pow2 (fexp x + 1)" using assms by linarith
  then have "- 1022 < fexp x + 1" using pow2_mono [of "fexp x + 1" "- 1022"] by linarith
  then have "ulp 53 (- 1074) x = pow2 (fexp x) * pow2 (- 52)"
    using x by (simp add: ulp_def pow2_add [symmetric])
  with f show ?thesis by simp
qed

lemma rq_rel:
  assumes "pow2 (- 1022) \<le> x"
  shows "x * (1 - pow2 (- 53)) \<le> rq 53 (- 1074) x" and "rq 53 (- 1074) x \<le> x * (1 + pow2 (- 53))"
proof -
  have "pow2 (- 52) = 2 * pow2 (- 53)" using pow2_add [of 1 "- 53"] by (simp add: pow2_def)
  then have "\<bar>rq 53 (- 1074) x - x\<bar> \<le> x * pow2 (- 53)"
    using rq_error [of 53 "- 1074" x] ulp_rel [OF assms] by simp
  then show "x * (1 - pow2 (- 53)) \<le> rq 53 (- 1074) x" and "rq 53 (- 1074) x \<le> x * (1 + pow2 (- 53))"
    unfolding abs_le_iff by (simp_all add: algebra_simps)
qed

lemma rq_between:
  "c \<le> x \<Longrightarrow> x \<le> d \<Longrightarrow> repr64 c \<Longrightarrow> repr64 d \<Longrightarrow> c \<le> rq 53 (- 1074) x \<and> rq 53 (- 1074) x \<le> d"
  using rq_mono [of c x 53 "- 1074"] rq_mono [of x d 53 "- 1074"] rq_exact [of 53 "- 1074"] by simp

lemma repr64_dyadic: "\<bar>k\<bar> \<le> 2 ^ 53 \<Longrightarrow> - 1074 \<le> e \<Longrightarrow> repr64 (of_int k * pow2 e)"
  unfolding repr_def by blast

section \<open>Gain and covariance\<close>

text \<open>The gain of one update from covariance \<open>v\<close>, and the covariance it leaves.\<close>

definition kalman_gain :: "f64 \<Rightarrow> f64" where
  "kalman_gain v = (v + PROCESS_NOISE_VAR) / (v + PROCESS_NOISE_VAR + MEASUREMENT_NOISE_VAR)"

lemma update_kalman_gain:
  "gradient_us (update_kalman d g)
     = gradient_us d + kalman_gain (gradient_var d) * (g - gradient_us d)"
  "gradient_var (update_kalman d g)
     = (gradient_var d + PROCESS_NOISE_VAR) * (Fin 1 - kalman_gain (gradient_var d))"
  by (simp_all add: update_kalman_def kalman_gain_def Let_def)

lemma dyadic_facts:
  "repr64 (13 / 131072)" "repr64 (11 / 2048)" "repr64 (1 / 64)" "repr64 (1 / 8192)" "repr64 (8193 / 8192)" "repr64 (1 / 256)" "repr64 (1 / 128)"
  "repr64 (2047 / 2048)" "repr64 (1 / 2048)" "repr64 (255 / 256)" "repr64 2"
  using repr64_dyadic [of 13 "- 17"] repr64_dyadic [of 11 "- 11"] repr64_dyadic [of 1 "- 6"] repr64_dyadic [of 1 "- 13"] repr64_dyadic [of 8193 "- 13"]
    repr64_dyadic [of 1 "- 8"] repr64_dyadic [of 1 "- 7"] repr64_dyadic [of 2047 "- 11"]
    repr64_dyadic [of 1 "- 11"] repr64_dyadic [of 255 "- 8"]
  by (simp_all add: pow2_def)

lemma noise_bounds:
  "\<exists>q. PROCESS_NOISE_VAR = Fin q \<and> 13 / 131072 \<le> q \<and> q \<le> 1 / 8192"
  "\<exists>r. MEASUREMENT_NOISE_VAR = Fin r \<and> 1 / 256 \<le> r \<and> r \<le> 11 / 2048"
  unfolding PROCESS_NOISE_VAR_def MEASUREMENT_NOISE_VAR_def
  by (rule rnd64_between; simp add: dyadic_facts)+

text \<open>The predicted covariance, the gain and its complement, from a covariance in \<open>[0, 1]\<close>.\<close>

lemma kalman_gain_bounds:
  assumes "0 \<le> v" and "v \<le> 1"
  shows "\<exists>p. Fin v + PROCESS_NOISE_VAR = Fin p \<and> 13 / 131072 \<le> p \<and> p \<le> 8193 / 8192"
    and "\<exists>k. kalman_gain (Fin v) = Fin k \<and> 1 / 64 \<le> k \<and> k \<le> 2047 / 2048"
proof -
  obtain q r where q: "PROCESS_NOISE_VAR = Fin q" "13 / 131072 \<le> q" "q \<le> 1 / 8192"
    and r: "MEASUREMENT_NOISE_VAR = Fin r" "1 / 256 \<le> r" "r \<le> 11 / 2048"
    using noise_bounds by blast
  have "\<exists>p. rnd64 (v + q) = Fin p \<and> 13 / 131072 \<le> p \<and> p \<le> 8193 / 8192"
    using assms q by (intro rnd64_between) (simp_all add: dyadic_facts)
  then obtain p where p: "rnd64 (v + q) = Fin p" "13 / 131072 \<le> p" "p \<le> 8193 / 8192" by blast
  then show "\<exists>p. Fin v + PROCESS_NOISE_VAR = Fin p \<and> 13 / 131072 \<le> p \<and> p \<le> 8193 / 8192"
    by (simp add: q)
  let ?s = "rq 53 (- 1074) (p + r)"
  have "(2 :: rat) \<le> 2 ^ 1023" by simp
  then have "\<bar>p + r\<bar> \<le> 2 ^ 1023" using p r by linarith
  then have s: "rnd64 (p + r) = Fin ?s" by (rule rnd64_Fin)
  have "pow2 (- 1022) \<le> pow2 (- 17)" by (rule pow2_mono) simp
  then have n: "pow2 (- 1022) \<le> p + r" using p r by (simp add: pow2_def)
  have e: "0 \<le> pow2 (- 53)" "pow2 (- 53) \<le> 1 / 1048576" by (simp_all add: pow2_def)
  have r': "p / 257 \<le> r" "r \<le> p * 56" using p r by simp_all
  have lo: "p * (1025 / 1024) \<le> (p + r) * (1 - pow2 (- 53))"
  proof -
    have "p * (1025 / 1024) \<le> (p + p / 257) * (1 - 1 / 1048576)" using p by simp
    also have "\<dots> \<le> (p + r) * (1 - pow2 (- 53))" using p r' e by (intro mult_mono) simp_all
    finally show ?thesis .
  qed
  have hi: "(p + r) * (1 + pow2 (- 53)) \<le> p * 64"
  proof -
    have "(p + r) * (1 + pow2 (- 53)) \<le> (p + p * 56) * (1 + 1 / 1048576)"
      using p r' e r by (intro mult_mono) simp_all
    also have "\<dots> \<le> p * 64" using p by simp
    finally show ?thesis .
  qed
  have s': "p * (1025 / 1024) \<le> ?s" "?s \<le> p * 64"
    using rq_rel [OF n] lo hi by linarith+
  then have s0: "0 < ?s" using p by linarith
  have "p / ?s \<le> 2047 / 2048" "1 / 64 \<le> p / ?s"
    using s' s0 p by (simp_all add: pos_divide_le_eq pos_le_divide_eq)
  then have "\<exists>k. rnd64 (p / ?s) = Fin k \<and> 1 / 64 \<le> k \<and> k \<le> 2047 / 2048"
    by (intro rnd64_between) (simp_all add: dyadic_facts)
  then show "\<exists>k. kalman_gain (Fin v) = Fin k \<and> 1 / 64 \<le> k \<and> k \<le> 2047 / 2048"
    using s0 by (simp add: kalman_gain_def q r p s)
qed

lemma kalman_var_bounds:
  assumes "0 \<le> v" and "v \<le> 1"
  shows "\<exists>w. (Fin v + PROCESS_NOISE_VAR) * (Fin 1 - kalman_gain (Fin v)) = Fin w \<and> 0 \<le> w \<and> w \<le> 1"
proof -
  obtain p k where p: "Fin v + PROCESS_NOISE_VAR = Fin p" "13 / 131072 \<le> p" "p \<le> 8193 / 8192"
    and k: "kalman_gain (Fin v) = Fin k" "1 / 64 \<le> k" "k \<le> 2047 / 2048"
    using kalman_gain_bounds [OF assms] by blast
  have "\<exists>c. rnd64 (1 - k) = Fin c \<and> 1 / 2048 \<le> c \<and> c \<le> 255 / 256"
    using k by (intro rnd64_between) (simp_all add: dyadic_facts)
  then obtain c where c: "rnd64 (1 - k) = Fin c" "1 / 2048 \<le> c" "c \<le> 255 / 256" by blast
  have "p * c \<le> (8193 / 8192) * (255 / 256)" using p c by (intro mult_mono) simp_all
  then have "p * c \<le> 1" by simp
  then have "\<exists>w. rnd64 (p * c) = Fin w \<and> 0 \<le> w \<and> w \<le> 1"
    using p c by (intro rnd64_between) simp_all
  then show ?thesis
    unfolding p(1) k(1) minus_flt_def by (simp add: c)
qed

section \<open>The filtered gradient\<close>

lemma ulp_mono: "0 < x \<Longrightarrow> x \<le> y \<Longrightarrow> ulp p m x \<le> ulp p m y"
  unfolding ulp_def by (intro pow2_mono) (use fexp_mono [of x y] in auto)

lemma repr64_grid: assumes "repr64 a" obtains n where "a = of_int n * pow2 (- 1074)"
proof -
  obtain k e where "a = of_int k * pow2 e" "- 1074 \<le> e" using assms by (auto simp: repr_def)
  then have "a = of_int (k * 2 ^ nat (e - (- 1074))) * pow2 (- 1074)"
    using pow2_multiple [of "- 1074" e] by simp
  then show ?thesis by (rule that)
qed

lemma repr64_small_diff:
  assumes "repr64 a" and "repr64 b" and "0 \<le> a - b" and "a - b < pow2 (- 1022)"
  shows "repr64 (a - b)"
proof -
  obtain m n where mn: "a = of_int m * pow2 (- 1074)" "b = of_int n * pow2 (- 1074)"
    using repr64_grid assms(1,2) by metis
  then have d: "a - b = of_int (m - n) * pow2 (- 1074)" by (simp add: algebra_simps)
  have "pow2 (- 1022) = of_int (2 ^ 52) * pow2 (- 1074)"
    using pow2_multiple [of "- 1074" "- 1022"] by simp
  with d assms(4) have "(of_int (m - n) :: rat) < of_int (2 ^ 52)" by (simp only: mult_less_cancel_right_pos pow2_pos)
  then have "m - n < 2 ^ 52" by (simp only: of_int_less_iff)
  moreover have "0 \<le> m - n" using d assms(3) pow2_pos [of "- 1074"] by (auto simp: zero_le_mult_iff)
  ultimately show ?thesis unfolding d by (intro repr64_dyadic) auto
qed

text \<open>A step of gain at most \<open>2047/2048\<close> towards a bound never reaches past it.\<close>

lemma gain_step_le:
  assumes y: "repr64 a" "repr64 b" "y = a - b" "0 \<le> y" and k: "0 \<le> k" "k \<le> 2047 / 2048"
  shows "rq 53 (- 1074) (k * rq 53 (- 1074) y) \<le> y"
proof (cases "pow2 (- 1022) \<le> y")
  case True
  let ?u = "rq 53 (- 1074) y" and ?e = "pow2 (- 53)" and ?z = "y * (4095 / 4096)"
  have y0: "0 < y" using True pow2_pos order_less_le_trans by blast
  have e: "0 \<le> ?e" "?e \<le> 1 / 1048576" by (simp_all add: pow2_def)
  have u: "0 \<le> ?u" "?u \<le> y * (1 + ?e)" using rq_nonneg y(4) rq_rel(2) [OF True] by auto
  have "k * ?u \<le> 2047 / 2048 * (y * (1 + ?e))" using k u by (intro mult_mono) simp_all
  also have "\<dots> \<le> 2047 / 2048 * (y * (1 + 1 / 1048576))"
    using e y(4) by (intro mult_left_mono) simp_all
  finally have z: "k * ?u \<le> ?z" using y(4) by simp
  have "rq 53 (- 1074) (k * ?u) \<le> rq 53 (- 1074) ?z" using z by (rule rq_mono) simp
  also have "\<dots> \<le> ?z + ulp 53 (- 1074) ?z / 2"
    using rq_error [of 53 "- 1074" ?z] unfolding abs_le_iff by linarith
  also have "\<dots> \<le> ?z + y * pow2 (- 52) / 2"
    using ulp_mono [of ?z y 53 "- 1074"] ulp_rel [OF True] y0 by linarith
  also have "\<dots> \<le> y" using y0 by (simp add: pow2_def)
  finally show ?thesis .
next
  case False
  then have r: "repr64 y" using repr64_small_diff [OF y(1,2)] y(3,4) by simp
  have "k * y \<le> y" using k y(4) by (simp add: mult_left_le_one_le)
  then have "rq 53 (- 1074) (k * y) \<le> rq 53 (- 1074) y" by (rule rq_mono) simp
  with r show ?thesis by (simp add: rq_exact)
qed

text \<open>One filter step in exact terms: the four roundings never leave \<open>[lo, hi]\<close>.\<close>

lemma filter_step_le:
  assumes "repr64 x" "repr64 hi" and "x \<le> hi" "g \<le> hi" and k: "0 \<le> k" "k \<le> 2047 / 2048"
  shows "x + rq 53 (- 1074) (k * rq 53 (- 1074) (g - x)) \<le> hi"
proof -
  have "rq 53 (- 1074) (g - x) \<le> rq 53 (- 1074) (hi - x)" using assms by (intro rq_mono) simp_all
  then have "rq 53 (- 1074) (k * rq 53 (- 1074) (g - x)) \<le> rq 53 (- 1074) (k * rq 53 (- 1074) (hi - x))"
    using k assms by (intro rq_mono mult_left_mono) simp_all
  also have "\<dots> \<le> hi - x" using assms by (intro gain_step_le [of hi x]) simp_all
  finally show ?thesis by simp
qed

lemma filter_step_ge:
  assumes "repr64 x" "repr64 lo" and "lo \<le> x" "lo \<le> g" and k: "0 \<le> k" "k \<le> 2047 / 2048"
  shows "lo \<le> x + rq 53 (- 1074) (k * rq 53 (- 1074) (g - x))"
proof -
  have "- x + rq 53 (- 1074) (k * rq 53 (- 1074) (- g - - x)) \<le> - lo"
    using assms by (intro filter_step_le) (simp_all add: repr_minus)
  moreover have "rq 53 (- 1074) (- g - - x) = - rq 53 (- 1074) (g - x)"
    using rq_minus [of 53 "- 1074" "g - x"] by simp
  ultimately show ?thesis by (simp add: rq_minus)
qed

definition kalman_in :: "rat \<Rightarrow> rat \<Rightarrow> DelayEstimator \<Rightarrow> bool" where
  "kalman_in lo hi d \<longleftrightarrow>
     (\<exists>x. gradient_us d = Fin x \<and> repr64 x \<and> lo \<le> x \<and> x \<le> hi)
     \<and> (\<exists>v. gradient_var d = Fin v \<and> 0 \<le> v \<and> v \<le> 1)"

text \<open>One update in exact terms: a step of gain between \<open>1/64\<close> and \<open>2047/2048\<close> towards the sample, with three roundings.\<close>

lemma update_kalman_gradient:
  assumes x: "gradient_us d = Fin x" "lo \<le> x" "x \<le> hi" and v: "gradient_var d = Fin v" "0 \<le> v" "v \<le> 1"
    and g: "lo \<le> g" "g \<le> hi" and r: "\<bar>lo\<bar> \<le> 2 ^ 1000" "\<bar>hi\<bar> \<le> 2 ^ 1000"
  obtains k where "kalman_gain (Fin v) = Fin k" "1 / 64 \<le> k" "k \<le> 2047 / 2048"
    "gradient_us (update_kalman d (Fin g)) = rnd64 (x + rq 53 (- 1074) (k * rq 53 (- 1074) (g - x)))"
proof -
  obtain k where k: "kalman_gain (Fin v) = Fin k" "1 / 64 \<le> k" "k \<le> 2047 / 2048"
    using kalman_gain_bounds(2) [OF v(2,3)] by blast
  let ?y = "rq 53 (- 1074) (g - x)"
  let ?z = "rq 53 (- 1074) (k * ?y)"
  have big: "2 * 2 ^ 1000 \<le> (2 ^ 1001 :: rat)" "(2 ^ 1001 :: rat) \<le> 2 ^ 1023" by simp_all
  have gx: "\<bar>g - x\<bar> \<le> 2 ^ 1001" using x g r unfolding abs_le_iff by simp
  then have y: "Fin g - Fin x = Fin ?y" using big by (simp add: minus_flt_def rnd64_Fin)
  have "pow2 1001 = 2 ^ 1001" by (simp add: pow2_def)
  then have rep: "repr64 (2 ^ 1001)" using repr_pow2 [of "- 1074" 1001 53] by simp
  have yb: "\<bar>?y\<bar> \<le> 2 ^ 1001"
    using rq_between [of "- (2 ^ 1001)" "g - x" "2 ^ 1001"] gx rep repr_minus [OF rep]
    unfolding abs_le_iff by auto
  then have "\<bar>k * ?y\<bar> \<le> 2 ^ 1001"
    using k mult_mono [of k 1 "\<bar>?y\<bar>" "2 ^ 1001"] by (simp add: abs_mult)
  then have z: "Fin k * Fin ?y = Fin ?z" using big by (simp add: rnd64_Fin)
  show thesis
    by (rule that [OF k]) (simp only: update_kalman_gain x(1) v(1) k(1) y z plus_flt.simps)
qed

lemma update_kalman_in:
  assumes d: "kalman_in lo hi d" and g: "lo \<le> g" "g \<le> hi"
    and r: "repr64 lo" "repr64 hi" "\<bar>lo\<bar> \<le> 2 ^ 1000" "\<bar>hi\<bar> \<le> 2 ^ 1000"
  shows "kalman_in lo hi (update_kalman d (Fin g))"
proof -
  obtain x v where x: "gradient_us d = Fin x" "repr64 x" "lo \<le> x" "x \<le> hi"
    and v: "gradient_var d = Fin v" "0 \<le> v" "v \<le> 1"
    using d by (auto simp: kalman_in_def)
  obtain k where k: "1 / 64 \<le> k" "k \<le> 2047 / 2048"
    and u: "gradient_us (update_kalman d (Fin g)) = rnd64 (x + rq 53 (- 1074) (k * rq 53 (- 1074) (g - x)))"
    using update_kalman_gradient [OF x(1,3,4) v g r(3,4)] .
  let ?z = "rq 53 (- 1074) (k * rq 53 (- 1074) (g - x))"
  have hi: "x + ?z \<le> hi" and lo: "lo \<le> x + ?z"
    using x g r k by (intro filter_step_le filter_step_ge; simp)+
  have "(2 ^ 1000 :: rat) \<le> 2 ^ 1023" by simp
  then have "\<bar>lo\<bar> \<le> 2 ^ 1023" "\<bar>hi\<bar> \<le> 2 ^ 1023" using r by linarith+
  then obtain w where w: "rnd64 (x + ?z) = Fin w" "lo \<le> w" "w \<le> hi"
    using rnd64_between [OF lo hi r(1,2)] by blast
  have "repr64 w" using is_f64_rnd64 [of "x + ?z"] w(1) by simp
  then show ?thesis
    using w u kalman_var_bounds [OF v(2,3)] by (simp add: kalman_in_def update_kalman_gain(2) v(1))
qed

lemma new_kalman_in: "lo \<le> 0 \<Longrightarrow> 0 \<le> hi \<Longrightarrow> kalman_in lo hi (DelayEstimator_new r)"
  by (simp add: kalman_in_def DelayEstimator_new_def)

lemma control_kalman_in: "kalman_in lo hi (delay_apply_rate_control d now) \<longleftrightarrow> kalman_in lo hi d"
  by (simp add: kalman_in_def delay_apply_rate_control_def Let_def)

text \<open>
  C21: the Kalman filter stays inside the range of its samples. Let \<open>lo \<le> 0 \<le> hi\<close> be doubles of magnitude at most
  \<open>2^1000\<close>, about \<open>10^301\<close> microseconds. Whatever finite gradients in \<open>[lo, hi]\<close> are fed in, in
  double-precision arithmetic with all its roundings, the filtered gradient is a finite double in \<open>[lo, hi]\<close> and the
  covariance is in \<open>[0, 1]\<close>: the filter neither overshoots nor produces NaN or an infinity. The bound on
  the magnitude is needed: near the largest double the difference of two samples overflows, and samples such as
  \<^verbatim>\<open>f64::MAX\<close>, \<^verbatim>\<open>f64::MAX\<close>, \<^verbatim>\<open>-f64::MAX\<close>, 0 lead to an infinity and to NaN.
\<close>

theorem kalman_stays_in_range:
  assumes "repr64 lo" and "repr64 hi" and "\<bar>lo\<bar> \<le> 2 ^ 1000" and "\<bar>hi\<bar> \<le> 2 ^ 1000"
    and "lo \<le> 0" and "0 \<le> hi" and "\<forall>g \<in> set gs. lo \<le> g \<and> g \<le> hi"
  shows "kalman_in lo hi (foldl update_kalman (DelayEstimator_new r) (map Fin gs))"
  using assms(7)
proof (induction gs rule: rev_induct)
  case (snoc g gs)
  then show ?case
    using update_kalman_in [OF _ _ _ assms(1-4)] by simp
qed (simp add: new_kalman_in assms)

theorem kalman_stays_in_range_witness:
  "kalman_in (- 100) 20000 (foldl update_kalman (DelayEstimator_new (Fin 300000))
     (map Fin [15000, - 50, 20000, 1 / 3]))"
  by (rule kalman_stays_in_range) (simp_all add: repr_minus)

lemma no_decrease_in_range:
  assumes "delay_ok d" and "kalman_in lo 12500 d"
  shows "\<not> delay_bitrate_bps (delay_apply_rate_control d now) < delay_bitrate_bps d"
  using assms bitrate_ok_increase(2) [of "delay_bitrate_bps d" 8000]
  by (auto simp: kalman_in_def delay_apply_rate_control_def OVERUSE_THRESHOLD_US_def delay_ok_def
      ADDITIVE_INCREASE_BPS_def)

text \<open>
  C22: no false congestion. If every gradient sample is finite, at least \<open>- 2^1000\<close> and not above the overuse
  threshold of 12.5 ms, no control call ever lowers the delay-based estimate, whatever the order and
  timing of calls.
\<close>

theorem no_false_congestion:
  assumes "is_f64 r" and "r \<noteq> NaN"
    and "\<forall>e \<in> set es. \<forall>g. e = Observe g \<longrightarrow> (\<exists>q. g = Fin q \<and> - (2 ^ 1000) \<le> q \<and> q \<le> 12500)"
  shows "decreases delay_bitrate_bps update_kalman delay_apply_rate_control (DelayEstimator_new r) es = []"
proof -
  let ?lo = "- (2 ^ 1000) :: rat"
  have "pow2 1000 = 2 ^ 1000" by (simp add: pow2_def)
  then have lo: "repr64 ?lo" using repr_minus [OF repr_pow2 [of "- 1074" 1000 53]] by simp
  have "decreases delay_bitrate_bps update_kalman delay_apply_rate_control d es = []"
    if "delay_ok d" and "kalman_in ?lo 12500 d" for d
    using that assms(3)
  proof (induction es arbitrary: d)
    case (Cons e es)
    show ?case
    proof (cases e)
      case (Observe g)
      then obtain q where "g = Fin q" "?lo \<le> q" "q \<le> 12500" using Cons.prems(3) by auto
      with Cons lo Observe show ?thesis
        using update_kalman_in [of ?lo 12500 d q] delay.observe_ok [of d] by simp
    next
      case (Control now)
      with Cons show ?thesis
        using no_decrease_in_range [of d] delay.control_ok [of d] by (simp add: control_kalman_in)
    qed
  qed simp
  then show ?thesis
    using DelayEstimator_new_ok [OF assms(1,2)] new_kalman_in [of ?lo 12500 r] by simp
qed

theorem no_false_congestion_witness:
  "decreases delay_bitrate_bps update_kalman delay_apply_rate_control (DelayEstimator_new (Fin 300000))
     [Observe (Fin 12000), Control 5, Observe (Fin 12500), Control 10] = []"
  by (rule no_false_congestion) simp_all

section \<open>The loss thresholds\<close>

lemma rnd64_gap:
  assumes "0 \<le> x" and "x + 1 / 1000000 \<le> y" and "y \<le> 1"
  shows "rnd64 x < rnd64 y"
proof -
  have one: "(1 :: rat) \<le> 2 ^ 1023" by simp
  have e: "pow2 (- 52) / 2 + pow2 (- 52) / 2 < 1 / 1000000" by (simp add: pow2_def)
  have "fexp 1 = 0" by (rule fexp_eqI) (simp_all add: pow2_def)
  then have u: "ulp 53 (- 1074) 1 = pow2 (- 52)" by (simp add: ulp_def)
  have err: "\<bar>rq 53 (- 1074) z - z\<bar> \<le> pow2 (- 52) / 2" if "0 \<le> z" "z \<le> 1" for z
    using rq_error [of 53 "- 1074" z] ulp_mono [of z 1 53 "- 1074"] u that by (cases "z = 0") simp_all
  have "rq 53 (- 1074) x < rq 53 (- 1074) y"
    using err [of x] err [of y] e assms unfolding abs_le_iff by linarith
  moreover have "\<bar>x\<bar> \<le> 2 ^ 1023" "\<bar>y\<bar> \<le> 2 ^ 1023" using assms one by linarith+
  ultimately show ?thesis by (simp add: rnd64_Fin)
qed

lemma loss_fraction_rnd:
  assumes "loss_window l \<noteq> []" and "length (loss_window l) \<le> LOSS_WINDOW"
  shows "loss_fraction l
    = rnd64 (of_nat (length (filter Not (loss_window l))) / of_nat (length (loss_window l)))"
proof -
  let ?w = "loss_window l"
  have n: "length ?w \<le> 64" using assms(2) by (simp add: LOSS_WINDOW_def)
  have k: "length (filter Not ?w) \<le> 64" using length_filter_le n by (rule order_trans)
  have "usize_as_f64 (length ?w) = Fin (of_nat (length ?w))"
    and "usize_as_f64 (length (filter Not ?w)) = Fin (of_nat (length (filter Not ?w)))"
    unfolding usize_as_f64_def by (rule rnd64_of_nat; use n k in simp)+
  then show ?thesis using assms(1) by (simp add: loss_fraction_def)
qed

text \<open>Comparing \<open>k/n\<close> with a threshold \<open>c\<close> far enough from every such fraction.\<close>

lemma threshold_exact:
  fixes k n :: nat and c :: rat
  assumes "0 < c" and "c \<le> 1" and "k \<le> n" and "0 < n"
    and "of_nat k / of_nat n < c \<Longrightarrow> of_nat k / of_nat n + 1 / 1000000 \<le> c"
  shows "rnd64 c \<le> rnd64 (of_nat k / of_nat n) \<longleftrightarrow> c \<le> of_nat k / of_nat n"
    and "rnd64 (of_nat k / of_nat n) < rnd64 c \<longleftrightarrow> of_nat k / of_nat n < c"
proof -
  let ?q = "of_nat k / of_nat n :: rat"
  have less: "rnd64 ?q < rnd64 c" if "?q < c"
    using assms that by (intro rnd64_gap) simp_all
  have le: "rnd64 c \<le> rnd64 ?q" if "c \<le> ?q"
    using that by (rule rnd_mono) simp
  show "rnd64 c \<le> rnd64 ?q \<longleftrightarrow> c \<le> ?q" and "rnd64 ?q < rnd64 c \<longleftrightarrow> ?q < c"
    using le less flt_not_less [of "rnd64 ?q" "rnd64 c"] by (metis linorder_not_le rnd_not_NaN)+
qed

lemma fraction_gap:
  fixes k n m :: nat
  assumes "0 < n" and "n \<le> 64" and "0 < m" and "m \<le> 50" and "of_nat k / of_nat n < (1 / of_nat m :: rat)"
  shows "of_nat k / of_nat n + 1 / 1000000 \<le> (1 / of_nat m :: rat)"
proof -
  have "of_nat (m * k) < (of_nat n :: rat)" using assms by (simp add: field_simps)
  then have "m * k + 1 \<le> n" by (simp only: of_nat_less_iff)
  then have "of_nat (m * k + 1) \<le> (of_nat n :: rat)" by (simp only: of_nat_le_iff)
  moreover have "of_nat (n * m) \<le> (of_nat 1000000 :: rat)"
    using mult_le_mono [OF assms(2,4)] unfolding of_nat_le_iff by simp
  ultimately show ?thesis using assms(1,3) by (simp add: field_simps)
qed

lemma loss_comparisons:
  assumes "loss_window l \<noteq> []" and "length (loss_window l) \<le> LOSS_WINDOW"
  shows "(LOSS_HIGH_THRESHOLD \<le> loss_fraction l
            \<longleftrightarrow> length (loss_window l) \<le> 10 * length (filter Not (loss_window l)))
       \<and> (loss_fraction l < LOSS_LOW_THRESHOLD
            \<longleftrightarrow> 50 * length (filter Not (loss_window l)) < length (loss_window l))"
proof -
  let ?n = "length (loss_window l)" and ?k = "length (filter Not (loss_window l))"
  have n: "0 < ?n" "?n \<le> 64" "?k \<le> ?n" using assms by (simp_all add: LOSS_WINDOW_def)
  have hi: "rnd64 (1 / 10) \<le> rnd64 (of_nat ?k / of_nat ?n) \<longleftrightarrow> 1 / 10 \<le> (of_nat ?k / of_nat ?n :: rat)"
    using n fraction_gap [of ?n 10 ?k] by (intro threshold_exact) simp_all
  have lo: "rnd64 (of_nat ?k / of_nat ?n) < rnd64 (1 / 50) \<longleftrightarrow> of_nat ?k / of_nat ?n < (1 / 50 :: rat)"
    using n fraction_gap [of ?n 50 ?k] by (intro threshold_exact) simp_all
  have "1 / 10 \<le> (of_nat ?k / of_nat ?n :: rat) \<longleftrightarrow> of_nat ?n \<le> (of_nat (10 * ?k) :: rat)"
    and "of_nat ?k / of_nat ?n < (1 / 50 :: rat) \<longleftrightarrow> of_nat (50 * ?k) < (of_nat ?n :: rat)"
    using n(1) by (simp_all add: field_simps)
  then show ?thesis
    unfolding of_nat_le_iff of_nat_less_iff
    using hi lo loss_fraction_rnd [OF assms]
    by (simp add: LOSS_HIGH_THRESHOLD_def LOSS_LOW_THRESHOLD_def)
qed

lemma loss_comparisons_empty:
  assumes "loss_window l = []"
  shows "\<not> LOSS_HIGH_THRESHOLD \<le> loss_fraction l" "loss_fraction l < LOSS_LOW_THRESHOLD"
proof -
  have "rnd64 0 < rnd64 (1 / 10)" "rnd64 0 < rnd64 (1 / 50)" by (intro rnd64_gap; simp)+
  with assms show "\<not> LOSS_HIGH_THRESHOLD \<le> loss_fraction l" "loss_fraction l < LOSS_LOW_THRESHOLD"
    by (auto simp: loss_fraction_def LOSS_HIGH_THRESHOLD_def LOSS_LOW_THRESHOLD_def flt_not_less [symmetric])
qed

text \<open>
  C24: the loss controller's decision is exact. The code compares a rounded quotient with rounded thresholds; for
  every window of at most 64 packets, \<open>k\<close> of its \<open>n\<close> lost, \<^verbatim>\<open>apply_rate_control\<close> does what integer
  arithmetic says. If \<open>k/n \<ge> 1/10\<close> it cuts the bitrate to 85%, not below 30 kbit/s, and notes the time, unless its
  last cut is less than 250 ms ago, when it does nothing; if \<open>k/n < 1/50\<close>, or nothing was reported yet, it adds
  5 kbit/s, up to 50 Mbit/s; in between it does nothing.
\<close>

theorem loss_thresholds_exact:
  assumes "length (loss_window l) \<le> 64"
  shows "loss_apply_rate_control l now =
    (let n = length (loss_window l); k = length (filter Not (loss_window l))
     in if 0 < n \<and> n \<le> 10 * k then
          if \<forall>t. loss_last_decrease l = Some t \<longrightarrow> t + from_millis 250 \<le> now
          then l\<lparr>loss_bitrate_bps := fmax (loss_bitrate_bps l * rnd64 (85 / 100)) (Fin 30000), loss_last_decrease := Some now\<rparr>
          else l
        else if n = 0 \<or> 50 * k < n then l\<lparr>loss_bitrate_bps := fmin (loss_bitrate_bps l + Fin 5000) (Fin 50000000)\<rparr>
        else l)"
proof -
  have cool: "(case loss_last_decrease l of None \<Rightarrow> True | Some t \<Rightarrow> LOSS_DECREASE_COOLDOWN \<le> duration_since now t)
      \<longleftrightarrow> (\<forall>t. loss_last_decrease l = Some t \<longrightarrow> t + from_millis 250 \<le> now)"
    by (auto simp: LOSS_DECREASE_COOLDOWN_def duration_since_def from_millis_def split: option.split)
  show ?thesis
  proof (cases "loss_window l = []")
    case True
    with loss_comparisons_empty [OF this] show ?thesis
      by (simp add: loss_apply_rate_control_def MAX_BITRATE_BPS_def LOSS_INCREASE_BPS_def)
  next
    case False
    with loss_comparisons [OF this] assms show ?thesis
      unfolding loss_apply_rate_control_def Let_def cool
      by (auto simp: LOSS_WINDOW_def LOSS_DECREASE_FACTOR_def MIN_BITRATE_BPS_def MAX_BITRATE_BPS_def LOSS_INCREASE_BPS_def)
  qed
qed

text \<open>Exactly 10% lost: the bitrate is cut.\<close>

theorem loss_thresholds_exact_witness:
  "loss_last_decrease (loss_apply_rate_control
     \<lparr>loss_window = replicate 9 True @ [False], loss_bitrate_bps = Fin 300000, loss_last_decrease = Some 0\<rparr>
     (from_millis 250)) = Some (from_millis 250)"
  using loss_thresholds_exact [of "\<lparr>loss_window = replicate 9 True @ [False],
     loss_bitrate_bps = Fin 300000, loss_last_decrease = Some 0\<rparr>" "from_millis 250"]
  by simp

end
