(* ===== verification/Detection.thy ===== *)
theory Detection
  imports Kalman
begin

text \<open>
  The delay controller reacts. Theory \<^theory_text>\<open>Kalman\<close> shows that it does not back off without cause; here a run of samples above
  the overuse threshold brings the filtered gradient above it, at a geometric rate and with all roundings
  counted, and the next control call then lowers the bitrate.
\<close>

section \<open>Decreases are strict\<close>

lemma rq_abs_error:
  assumes "\<bar>c\<bar> \<le> 2 ^ 31"
  shows "\<bar>rq 53 (- 1074) c - c\<bar> \<le> 1 / 1048576"
proof (cases "c = 0")
  case False
  have u: "ulp 53 (- 1074) \<bar>c\<bar> = ulp 53 (- 1074) c" by (cases "0 \<le> c") simp_all
  have "pow2 (- 1022) \<le> pow2 31" by (rule pow2_mono) simp
  then have "ulp 53 (- 1074) (2 ^ 31) \<le> 2 ^ 31 * pow2 (- 52)" by (intro ulp_rel) (simp add: pow2_def)
  moreover have "ulp 53 (- 1074) \<bar>c\<bar> \<le> ulp 53 (- 1074) (2 ^ 31)"
    using assms False by (intro ulp_mono) simp_all
  ultimately have "ulp 53 (- 1074) c \<le> 1 / 2097152" by (simp add: u pow2_def)
  with rq_error [of 53 "- 1074" c] show ?thesis by linarith
qed simp

lemma decrease_factor: "\<exists>f. rnd64 (85 / 100) = Fin f \<and> 3 / 4 \<le> f \<and> f \<le> 7 / 8"
proof (rule rnd64_between)
  show "repr64 (3 / 4)" "repr64 (7 / 8)"
    using repr64_dyadic [of 3 "- 2"] repr64_dyadic [of 7 "- 3"] by (simp_all add: pow2_def)
qed simp_all

lemma decrease_strict:
  assumes "bitrate_ok b" "b \<noteq> MIN_BITRATE_BPS"
  shows "fmax (b * rnd64 (85 / 100)) MIN_BITRATE_BPS < b"
proof -
  obtain x where x': "b = Fin x" "30000 \<le> x" "x \<le> 50000000" using bitrate_okE [OF assms(1)] by metis
  then have x: "b = Fin x" "30000 < x" "x \<le> 50000000" using assms(2) by (auto simp: MIN_BITRATE_BPS_def)
  obtain f where f: "rnd64 (85 / 100) = Fin f" "3 / 4 \<le> f" "f \<le> 7 / 8" using decrease_factor by blast
  have xf: "x * f \<le> x * (7 / 8)" "0 \<le> x * f" using x f by simp_all
  have "\<bar>x * f\<bar> \<le> 50000000" using xf x unfolding abs_le_iff by linarith
  then have c: "\<bar>x * f\<bar> \<le> 2 ^ 31" by simp
  have "(2 ^ 31 :: rat) \<le> 2 ^ 1023" by simp
  then have "rnd64 (x * f) = Fin (rq 53 (- 1074) (x * f))" using c by (intro rnd64_Fin) linarith
  moreover have "rq 53 (- 1074) (x * f) < x"
    using rq_abs_error [OF c] xf x unfolding abs_le_iff by linarith
  ultimately show ?thesis using x f by (simp add: fmax_def is_nan_def MIN_BITRATE_BPS_def)
qed

section \<open>The filter follows its samples\<close>

text \<open>
  While the filtered value is at least 1 us short of \<open>G\<close>, a sample of at least \<open>G\<close> removes one
  part in 128 of the shortfall.
\<close>

lemma update_kalman_approach:
  assumes d: "kalman_in lo hi d" "gradient_us d = Fin x" and g: "G \<le> g" "g \<le> hi" and short: "x \<le> G - 1" "lo \<le> G"
    and r: "repr64 lo" "repr64 hi" "\<bar>lo\<bar> \<le> 2 ^ 30" "\<bar>hi\<bar> \<le> 2 ^ 30"
  shows "\<exists>x'. gradient_us (update_kalman d (Fin g)) = Fin x' \<and> G - x' \<le> (G - x) * (127 / 128)"
proof -
  obtain v where x: "lo \<le> x" "x \<le> hi" "repr64 x" and v: "gradient_var d = Fin v" "0 \<le> v" "v \<le> 1"
    using d by (auto simp: kalman_in_def)
  have "(2 ^ 30 :: rat) \<le> 2 ^ 1000" by simp
  then have m: "\<bar>lo\<bar> \<le> 2 ^ 1000" "\<bar>hi\<bar> \<le> 2 ^ 1000" using r by linarith+
  have "lo \<le> g" using short g by linarith
  then obtain k where k: "1 / 64 \<le> k" "k \<le> 2047 / 2048"
    and u: "gradient_us (update_kalman d (Fin g)) = rnd64 (x + rq 53 (- 1074) (k * rq 53 (- 1074) (g - x)))"
    using update_kalman_gradient [OF d(2) x(1,2) v _ g(2) m] by blast
  let ?e = "G - x" and ?y = "rq 53 (- 1074) (g - x)"
  let ?z = "rq 53 (- 1074) (k * ?y)"
  have tiny: "pow2 (- 1022) \<le> 1 / 256" "pow2 (- 53) \<le> 1 / 1048576" "0 \<le> pow2 (- 53)"
    using pow2_mono [of "- 1022" "- 8"] by (simp_all add: pow2_def)
  have b: "1 \<le> g - x" "g - x \<le> 2 ^ 31" using short g x r unfolding abs_le_iff by simp_all
  have y: "?e * (1 - 1 / 1048576) \<le> ?y"
  proof -
    have "?e * (1 - 1 / 1048576) \<le> (g - x) * (1 - pow2 (- 53))"
      using b g short tiny by (intro mult_mono) simp_all
    also have "\<dots> \<le> ?y" using b tiny by (intro rq_rel(1)) linarith
    finally show ?thesis .
  qed
  have yk: "?e * (1 - 1 / 1048576) / 64 \<le> k * ?y"
    using mult_mono [of "1 / 64" k "?e * (1 - 1 / 1048576)" ?y] y k short by simp
  have "1 / 256 \<le> k * ?y" using yk short by simp
  then have n: "pow2 (- 1022) \<le> k * ?y" using tiny by linarith
  have "?e * (1 - 1 / 1048576) / 64 * (1 - 1 / 1048576) \<le> k * ?y * (1 - pow2 (- 53))"
    using yk tiny short by (intro mult_mono) simp_all
  also have "\<dots> \<le> ?z" by (rule rq_rel(1) [OF n])
  finally have z: "?e * (1 - 1 / 1048576) / 64 * (1 - 1 / 1048576) \<le> ?z" .
  have "lo \<le> x + ?z" "x + ?z \<le> hi"
    using x g r k short by (intro filter_step_ge filter_step_le; simp)+
  then have c: "\<bar>x + ?z\<bar> \<le> 2 ^ 31" using r unfolding abs_le_iff by simp
  have "(2 ^ 31 :: rat) \<le> 2 ^ 1023" by simp
  then have "rnd64 (x + ?z) = Fin (rq 53 (- 1074) (x + ?z))" using c by (intro rnd64_Fin) linarith
  moreover have "G - rq 53 (- 1074) (x + ?z) \<le> ?e * (127 / 128)"
    using rq_abs_error [OF c] z short unfolding abs_le_iff by simp
  ultimately show ?thesis using u by simp
qed

text \<open>How far below \<open>G\<close> the filtered value can be after \<open>n\<close> samples of at least \<open>G\<close>.\<close>

definition shortfall :: "rat \<Rightarrow> rat \<Rightarrow> nat \<Rightarrow> rat" where
  "shortfall lo G n = max 1 ((127 / 128) ^ n * (G - lo))"

lemma kalman_follows:
  assumes d: "kalman_in lo hi d" and gs: "\<forall>g \<in> set gs. G \<le> g \<and> g \<le> hi"
    and r: "repr64 lo" "repr64 hi" "repr64 (G - 1)" "\<bar>lo\<bar> \<le> 2 ^ 30" "\<bar>hi\<bar> \<le> 2 ^ 30" "lo \<le> G - 1" "G \<le> hi"
  shows "\<exists>x. kalman_in lo hi (foldl update_kalman d (map Fin gs))
    \<and> gradient_us (foldl update_kalman d (map Fin gs)) = Fin x \<and> G - x \<le> shortfall lo G (length gs)"
  using gs
proof (induction gs rule: rev_induct)
  case Nil
  then show ?case using d by (auto simp: kalman_in_def shortfall_def)
next
  case (snoc g gs)
  let ?d = "foldl update_kalman d (map Fin gs)"
  obtain x where x: "kalman_in lo hi ?d" "gradient_us ?d = Fin x" "G - x \<le> shortfall lo G (length gs)"
    using snoc by auto
  have g: "G \<le> g" "g \<le> hi" "lo \<le> g" "G - 1 \<le> g" using snoc.prems r(6) by auto
  have "(2 ^ 30 :: rat) \<le> 2 ^ 1000" by simp
  then have m: "\<bar>lo\<bar> \<le> 2 ^ 1000" "\<bar>hi\<bar> \<le> 2 ^ 1000" "\<bar>G - 1\<bar> \<le> 2 ^ 1000"
    using r(4-7) unfolding abs_le_iff by linarith+
  have stays: "kalman_in lo hi (update_kalman ?d (Fin g))"
    using update_kalman_in [OF x(1) g(3,2) r(1,2) m(1,2)] .
  have "\<exists>x'. gradient_us (update_kalman ?d (Fin g)) = Fin x' \<and> G - x' \<le> shortfall lo G (Suc (length gs))"
  proof (cases "x \<le> G - 1")
    case True
    have "lo \<le> G" using r(6) by linarith
    then obtain x' where x': "gradient_us (update_kalman ?d (Fin g)) = Fin x'" "G - x' \<le> (G - x) * (127 / 128)"
      using update_kalman_approach [OF x(1,2) g(1,2) True _ r(1,2,4,5)] by blast
    have "(G - x) * (127 / 128) \<le> shortfall lo G (length gs) * (127 / 128)" using x(3) by simp
    also have "\<dots> \<le> shortfall lo G (Suc (length gs))" by (simp add: shortfall_def max_def)
    finally show ?thesis using x' by auto
  next
    case False
    then have "kalman_in (G - 1) hi ?d" using x(1,2) by (auto simp: kalman_in_def)
    then have "kalman_in (G - 1) hi (update_kalman ?d (Fin g))"
      using update_kalman_in [OF _ g(4,2) r(3,2) m(3,2)] by blast
    then show ?thesis by (auto simp: kalman_in_def shortfall_def)
  qed
  with stays show ?case by simp
qed

section \<open>Congestion is detected\<close>

definition delay_after :: "f64 \<Rightarrow> f64 ctl_event list \<Rightarrow> rat list \<Rightarrow> DelayEstimator" where
  "delay_after r es gs =
     foldl update_kalman (ctl_run update_kalman delay_apply_rate_control (DelayEstimator_new r) es) (map Fin gs)"

lemma control_lowers:
  assumes "delay_ok d" "OVERUSE_THRESHOLD_US < gradient_us d"
    and "case delay_last_decrease d of None \<Rightarrow> True | Some t \<Rightarrow> DECREASE_COOLDOWN \<le> duration_since now t"
    and "delay_bitrate_bps d \<noteq> MIN_BITRATE_BPS"
  shows "delay_bitrate_bps (delay_apply_rate_control d now) < delay_bitrate_bps d"
  using assms decrease_strict [of "delay_bitrate_bps d"]
  by (simp add: delay_apply_rate_control_def delay_ok_def DECREASE_FACTOR_def split: option.splits)

lemma ctl_run_kalman_in:
  assumes "kalman_in lo hi d" "repr64 lo" "repr64 hi" "\<bar>lo\<bar> \<le> 2 ^ 1000" "\<bar>hi\<bar> \<le> 2 ^ 1000"
    and "\<forall>e \<in> set es. \<forall>g. e = Observe g \<longrightarrow> (\<exists>q. g = Fin q \<and> lo \<le> q \<and> q \<le> hi)"
  shows "kalman_in lo hi (ctl_run update_kalman delay_apply_rate_control d es)"
  using assms(1,6)
proof (induction es arbitrary: d)
  case (Cons e es)
  show ?case
  proof (cases e)
    case (Observe g)
    then obtain q where "g = Fin q" "lo \<le> q" "q \<le> hi" using Cons.prems(2) by auto
    with Cons Observe assms(2-5) update_kalman_in [of lo hi d q] show ?thesis by (simp add: ctl_run_def)
  next
    case (Control now)
    with Cons show ?thesis by (simp add: ctl_run_def control_kalman_in)
  qed
qed (simp add: ctl_run_def)

text \<open>
  C23: congestion is detected. Take any history of samples of at least \<open>lo\<close> and of control calls, followed by \<open>n\<close> samples
  that all show a gradient of at least \<open>G\<close>, where \<open>G\<close> exceeds the threshold of 12.5 ms by 2 us or more. Once
  \<open>(127/128)^n * (G - lo)\<close> is below \<open>G - 12500\<close>, the filtered gradient is above the threshold, in double precision with all
  roundings, and the next control call outside the cool-down of 200 ms lowers the estimate, unless it is at its
  floor of 30 kbit/s. Gradients are at most \<open>2^30\<close> us, about 18 minutes, in size.
\<close>

theorem congestion_detected:
  fixes lo G :: int
  assumes "is_f64 r" "r \<noteq> NaN" and lo: "- (2 ^ 30) \<le> lo" "lo \<le> 0" and G: "12502 \<le> G" "G \<le> 2 ^ 30"
    and es: "\<forall>e \<in> set es. \<forall>g. e = Observe g \<longrightarrow> (\<exists>q. g = Fin q \<and> of_int lo \<le> q \<and> q \<le> 2 ^ 30)"
    and gs: "\<forall>g \<in> set gs. of_int G \<le> g \<and> g \<le> 2 ^ 30"
    and n: "(127 / 128) ^ length gs * (of_int G - of_int lo) < (of_int G - 12500 :: rat)"
  shows "OVERUSE_THRESHOLD_US < gradient_us (delay_after r es gs)
    \<and> ((\<forall>t. delay_last_decrease (delay_after r es gs) = Some t \<longrightarrow> t + from_millis 200 \<le> now)
       \<and> delay_bitrate_bps (delay_after r es gs) \<noteq> MIN_BITRATE_BPS
       \<longrightarrow> delay_bitrate_bps (delay_apply_rate_control (delay_after r es gs) now)
           < delay_bitrate_bps (delay_after r es gs))"
proof -
  let ?d = "ctl_run update_kalman delay_apply_rate_control (DelayEstimator_new r) es"
  have i: "repr64 (of_int i)" "\<bar>of_int i :: rat\<bar> \<le> 2 ^ 30" "\<bar>of_int i :: rat\<bar> \<le> 2 ^ 1000" if "\<bar>i\<bar> \<le> 2 ^ 30" for i :: int
  proof -
    show "repr64 (of_int i)" using that repr64_dyadic [of i 0] by (simp add: pow2_def)
    have "\<bar>of_int i :: rat\<bar> \<le> of_int (2 ^ 30)" using that by (simp only: of_int_le_iff flip: of_int_abs)
    then show b: "\<bar>of_int i :: rat\<bar> \<le> 2 ^ 30" by simp
    have "(2 ^ 30 :: rat) \<le> 2 ^ 1000" by simp
    with b show "\<bar>of_int i :: rat\<bar> \<le> 2 ^ 1000" by linarith
  qed
  have b: "\<bar>lo\<bar> \<le> 2 ^ 30" "\<bar>G - 1\<bar> \<le> 2 ^ 30" "\<bar>2 ^ 30 :: int\<bar> \<le> 2 ^ 30" using lo G by auto
  have h: "(2 ^ 30 :: rat) = of_int (2 ^ 30)" by simp
  have "kalman_in (of_int lo) (2 ^ 30) ?d"
    by (rule ctl_run_kalman_in [OF new_kalman_in]) (use lo es i [OF b(1)] i [OF b(3)] in \<open>simp_all add: h\<close>)
  then obtain x where x: "gradient_us (delay_after r es gs) = Fin x"
    "of_int G - x \<le> shortfall (of_int lo) (of_int G) (length gs)"
    using kalman_follows [of "of_int lo" "2 ^ 30" ?d gs "of_int G"] gs lo G i [OF b(1)] i [OF b(2)] i [OF b(3)]
    unfolding delay_after_def by (auto simp: h)
  have "shortfall (of_int lo) (of_int G) (length gs) < of_int G - 12500"
    using n G by (simp add: shortfall_def)
  with x have over: "OVERUSE_THRESHOLD_US < gradient_us (delay_after r es gs)"
    by (simp add: OVERUSE_THRESHOLD_US_def)
  have "delay_ok (delay_after r es gs)"
    using delay.run_ok [OF DelayEstimator_new_ok [OF assms(1,2)], of es] unfolding delay_after_def
    by (induction gs rule: rev_induct) (simp_all add: delay.observe_ok)
  with over show ?thesis
    using control_lowers [of "delay_after r es gs" now]
    by (cases "delay_last_decrease (delay_after r es gs)") (auto simp: DECREASE_COOLDOWN_def duration_since_def)
qed

theorem congestion_detected_witness:
  "delay_bitrate_bps (delay_apply_rate_control (delay_after (Fin 300000) [Observe (Fin 0), Observe (Fin (- 3))]
       [1000000, 2000000, 1000000, 1000000]) 7) < Fin 300000"
proof -
  let ?d = "delay_after (Fin 300000) [Observe (Fin 0), Observe (Fin (- 3))] [1000000, 2000000, 1000000, 1000000]"
  have "delay_last_decrease ?d = None" "delay_bitrate_bps ?d = Fin 300000"
    by (simp_all add: delay_after_def ctl_run_def delay.observe_last delay.observe_rate DelayEstimator_new_def
        clamp_def MIN_BITRATE_BPS_def MAX_BITRATE_BPS_def)
  then show ?thesis
    using congestion_detected [of "Fin 300000" "- 3" 1000000 "[Observe (Fin 0), Observe (Fin (- 3))]"
        "[1000000, 2000000, 1000000, 1000000]" 7]
    by (simp add: power_numeral MIN_BITRATE_BPS_def)
qed

end
