(* ===== verification/Ids.thy ===== *)
theory Ids
  imports Prelude
begin

text \<open>
  The identifier and tag types of the kit: \<^verbatim>\<open>src/ids.rs\<close>, \<^verbatim>\<open>src/client/layer.rs\<close>,
  \<^verbatim>\<open>src/keyframe.rs\<close>, \<^verbatim>\<open>src/origin.rs\<close>, the media kinds of \<^verbatim>\<open>src/media.rs\<close>, the protocol tags and
  datagrams of \<^verbatim>\<open>src/net.rs\<close>, and \<^verbatim>\<open>ClientId\<close> of \<^verbatim>\<open>src/propagate.rs\<close>.

  str0m's own identifiers are opaque to the kit: a \<open>Rid\<close> is the eight bytes
  \<^verbatim>\<open>Rid::from_array\<close> takes, a \<open>Mid\<close> its bytes, a \<open>Pt\<close> its number. str0m's conversion from a string
  is the parameter \<open>rid_from\<close> of \<open>from_str\<close>.
\<close>

section \<open>str0m's types as the sources use them\<close>

datatype Rid = Rid "u8 list"
datatype Mid = Mid "u8 list"
datatype Pt = Pt u8
datatype MediaKind = Audio | Video
datatype KeyframeRequestKind = Pli | Fir
datatype Protocol = Udp | Tcp | SslTcp | Tls

record KeyframeRequest =
  kr_mid :: Mid
  kr_rid :: "Rid option"
  kr_kind :: KeyframeRequestKind

section \<open>Identifier wrappers (ids.rs)\<close>

datatype SfuRid = SfuRid Rid
datatype SfuMid = SfuMid Mid
datatype SfuPt = SfuPt Pt
datatype InvalidRid = InvalidRid

type_synonym client_id = u64

fun SfuRid_from_str0m :: "Rid \<Rightarrow> SfuRid" where "SfuRid_from_str0m r = SfuRid r"
fun SfuRid_to_str0m :: "SfuRid \<Rightarrow> Rid" where "SfuRid_to_str0m (SfuRid r) = r"
fun SfuMid_from_str0m :: "Mid \<Rightarrow> SfuMid" where "SfuMid_from_str0m m = SfuMid m"
fun SfuMid_to_str0m :: "SfuMid \<Rightarrow> Mid" where "SfuMid_to_str0m (SfuMid m) = m"
fun SfuPt_from_str0m :: "Pt \<Rightarrow> SfuPt" where "SfuPt_from_str0m p = SfuPt p"
fun SfuPt_to_str0m :: "SfuPt \<Rightarrow> Pt" where "SfuPt_to_str0m (SfuPt p) = p"

text \<open>The byte literals \<^verbatim>\<open>b"q       "\<close>, \<^verbatim>\<open>b"h       "\<close> and \<^verbatim>\<open>b"f       "\<close>.\<close>

definition LOW :: SfuRid where "LOW = SfuRid (Rid (0x71 # replicate 7 0x20))"
definition MEDIUM :: SfuRid where "MEDIUM = SfuRid (Rid (0x68 # replicate 7 0x20))"
definition HIGH :: SfuRid where "HIGH = SfuRid (Rid (0x66 # replicate 7 0x20))"

definition is_ascii_alphanumeric :: "u8 \<Rightarrow> bool" where
  "is_ascii_alphanumeric b \<longleftrightarrow>
     (0x30 \<le> b \<and> b \<le> 0x39) \<or> (0x41 \<le> b \<and> b \<le> 0x5A) \<or> (0x61 \<le> b \<and> b \<le> 0x7A)"

definition SfuRid_from_str :: "(u8 list \<Rightarrow> Rid) \<Rightarrow> u8 list \<Rightarrow> InvalidRid + SfuRid" where
  "SfuRid_from_str rid_from s =
     (if s = [] then Inl InvalidRid
      else if length s > 8 then Inl InvalidRid
      else if \<not> list_all is_ascii_alphanumeric s then Inl InvalidRid
      else Inr (SfuRid (rid_from s)))"

definition SfuMid_from_str :: "(u8 list \<Rightarrow> Mid) \<Rightarrow> u8 list \<Rightarrow> SfuMid" where
  "SfuMid_from_str mid_from s = SfuMid (mid_from s)"

section \<open>Keyframe requests (keyframe.rs), media kinds (media.rs)\<close>

datatype SfuKeyframeKind = SfuPli | SfuFir
datatype SfuMediaKind = SfuAudio | SfuVideo

fun SfuKeyframeKind_from_str0m :: "KeyframeRequestKind \<Rightarrow> SfuKeyframeKind" where
  "SfuKeyframeKind_from_str0m Pli = SfuPli"
| "SfuKeyframeKind_from_str0m Fir = SfuFir"

fun SfuKeyframeKind_to_str0m :: "SfuKeyframeKind \<Rightarrow> KeyframeRequestKind" where
  "SfuKeyframeKind_to_str0m SfuPli = Pli"
| "SfuKeyframeKind_to_str0m SfuFir = Fir"

record SfuKeyframeRequest =
  skr_mid :: SfuMid
  skr_rid :: "SfuRid option"
  skr_kind :: SfuKeyframeKind

definition SfuKeyframeRequest_from_str0m :: "KeyframeRequest \<Rightarrow> SfuKeyframeRequest" where
  "SfuKeyframeRequest_from_str0m r =
     \<lparr>skr_mid = SfuMid_from_str0m (kr_mid r),
      skr_rid = map_option SfuRid_from_str0m (kr_rid r),
      skr_kind = SfuKeyframeKind_from_str0m (kr_kind r)\<rparr>"

fun SfuMediaKind_from_str0m :: "MediaKind \<Rightarrow> SfuMediaKind" where
  "SfuMediaKind_from_str0m Audio = SfuAudio"
| "SfuMediaKind_from_str0m Video = SfuVideo"

fun SfuMediaKind_to_str0m :: "SfuMediaKind \<Rightarrow> MediaKind" where
  "SfuMediaKind_to_str0m SfuAudio = Audio"
| "SfuMediaKind_to_str0m SfuVideo = Video"

section \<open>Client origin (origin.rs)\<close>

datatype ClientOrigin = Local | RelayFromSfu string

section \<open>Datagrams (net.rs)\<close>

text \<open>A \<^verbatim>\<open>SocketAddr\<close> is an address and a port; the kit only passes it through.\<close>

type_synonym socket_addr = "nat \<times> u16"

datatype SfuProtocol = SfuUdp | SfuTcp | SfuSslTcp | SfuTls

fun SfuProtocol_from_str0m :: "Protocol \<Rightarrow> SfuProtocol" where
  "SfuProtocol_from_str0m Udp = SfuUdp"
| "SfuProtocol_from_str0m Tcp = SfuTcp"
| "SfuProtocol_from_str0m SslTcp = SfuSslTcp"
| "SfuProtocol_from_str0m Tls = SfuTls"

fun SfuProtocol_to_str0m :: "SfuProtocol \<Rightarrow> Protocol" where
  "SfuProtocol_to_str0m SfuUdp = Udp"
| "SfuProtocol_to_str0m SfuTcp = Tcp"
| "SfuProtocol_to_str0m SfuSslTcp = SslTcp"
| "SfuProtocol_to_str0m SfuTls = Tls"

record IncomingDatagram =
  in_received_at :: instant
  in_proto :: SfuProtocol
  in_source :: socket_addr
  in_destination :: socket_addr
  in_contents :: "u8 list"

record OutgoingDatagram =
  out_proto :: SfuProtocol
  out_source :: socket_addr
  out_destination :: socket_addr
  out_contents :: "u8 list"

text \<open>str0m's \<^verbatim>\<open>net::Transmit\<close>.\<close>

record Transmit =
  tx_proto :: Protocol
  tx_source :: socket_addr
  tx_destination :: socket_addr
  tx_contents :: "u8 list"

definition from_transmit :: "Transmit \<Rightarrow> OutgoingDatagram" where
  "from_transmit t =
     \<lparr>out_proto = SfuProtocol_from_str0m (tx_proto t), out_source = tx_source t,
      out_destination = tx_destination t, out_contents = tx_contents t\<rparr>"

section \<open>The wrappers are lossless\<close>

text \<open>
  A wrapper over a str0m type is a pair of conversions that are inverse to each other; what the
  clients of the wrapper rely on is that a comparison may be made on either side.
\<close>

locale wrapper =
  fixes from_str0m :: "'s \<Rightarrow> 'w"
    and to_str0m :: "'w \<Rightarrow> 's"
  assumes to_from: "to_str0m (from_str0m s) = s"
    and from_to: "from_str0m (to_str0m w) = w"
begin

lemma to_eq_iff: "to_str0m a = to_str0m b \<longleftrightarrow> a = b"
  by (metis from_to)

lemma from_eq_iff: "from_str0m a = from_str0m b \<longleftrightarrow> a = b"
  by (metis to_from)

lemma map_option_to_from: "map_option to_str0m (map_option from_str0m x) = x"
  by (cases x) (simp_all add: to_from)

end

interpretation rid_wrapper: wrapper SfuRid_from_str0m SfuRid_to_str0m
proof
  show "SfuRid_from_str0m (SfuRid_to_str0m w) = w" for w by (cases w) simp
qed simp

interpretation mid_wrapper: wrapper SfuMid_from_str0m SfuMid_to_str0m
proof
  show "SfuMid_from_str0m (SfuMid_to_str0m w) = w" for w by (cases w) simp
qed simp

interpretation pt_wrapper: wrapper SfuPt_from_str0m SfuPt_to_str0m
proof
  show "SfuPt_from_str0m (SfuPt_to_str0m w) = w" for w by (cases w) simp
qed simp

interpretation keyframe_kind_wrapper: wrapper SfuKeyframeKind_from_str0m SfuKeyframeKind_to_str0m
proof
  show "SfuKeyframeKind_to_str0m (SfuKeyframeKind_from_str0m s) = s" for s by (cases s) simp_all
  show "SfuKeyframeKind_from_str0m (SfuKeyframeKind_to_str0m w) = w" for w by (cases w) simp_all
qed

interpretation media_kind_wrapper: wrapper SfuMediaKind_from_str0m SfuMediaKind_to_str0m
proof
  show "SfuMediaKind_to_str0m (SfuMediaKind_from_str0m s) = s" for s by (cases s) simp_all
  show "SfuMediaKind_from_str0m (SfuMediaKind_to_str0m w) = w" for w by (cases w) simp_all
qed

interpretation protocol_wrapper: wrapper SfuProtocol_from_str0m SfuProtocol_to_str0m
proof
  show "SfuProtocol_to_str0m (SfuProtocol_from_str0m s) = s" for s by (cases s) simp_all
  show "SfuProtocol_from_str0m (SfuProtocol_to_str0m w) = w" for w by (cases w) simp_all
qed

lemma layers_distinct [simp]:
  "LOW \<noteq> MEDIUM" "LOW \<noteq> HIGH" "MEDIUM \<noteq> HIGH" "MEDIUM \<noteq> LOW" "HIGH \<noteq> LOW" "HIGH \<noteq> MEDIUM"
  by (simp_all add: LOW_def MEDIUM_def HIGH_def)

text \<open>
  Parsing a RID accepts exactly the byte strings of length one to eight over \<^verbatim>\<open>[0-9A-Za-z]\<close>, and
  then never alters the text handed to str0m.
\<close>

lemma SfuRid_from_str_ok_iff:
  "SfuRid_from_str f s = Inr r \<longleftrightarrow>
     1 \<le> length s \<and> length s \<le> 8 \<and> (\<forall>b \<in> set s. is_ascii_alphanumeric b) \<and> r = SfuRid (f s)"
  by (auto simp: SfuRid_from_str_def list_all_iff Suc_le_eq)

end
