(* ===== verification/Layer_Selector.thy ===== *)
theory Layer_Selector
  imports Ids
begin

text \<open>
  Per-subscriber simulcast layer selection, \<^verbatim>\<open>src/layer_selector.rs\<close>. The trait
  \<^verbatim>\<open>LayerSelector\<close> is the locale \<open>layer_selector\<close>, whose laws are the two sentences of the trait's
  documentation; \<open>BestFitSelector\<close> interprets it. \<open>max_by_key\<close> and \<open>min_by_key\<close> are Rust's iterator
  methods: of several elements with the best key the former returns the last, the latter the first.
\<close>

section \<open>The selector\<close>

definition rank :: "SfuRid \<Rightarrow> nat" where
  "rank r = (if r = LOW then 0 else if r = MEDIUM then 1 else 2)"

fun max_by_key :: "('a \<Rightarrow> nat) \<Rightarrow> 'a list \<Rightarrow> 'a option" where
  "max_by_key k [] = None"
| "max_by_key k (x # xs) =
     (case max_by_key k xs of None \<Rightarrow> Some x | Some y \<Rightarrow> Some (if k x \<le> k y then y else x))"

fun min_by_key :: "('a \<Rightarrow> nat) \<Rightarrow> 'a list \<Rightarrow> 'a option" where
  "min_by_key k [] = None"
| "min_by_key k (x # xs) =
     (case min_by_key k xs of None \<Rightarrow> Some x | Some y \<Rightarrow> Some (if k x \<le> k y then x else y))"

definition best_fit_select :: "SfuRid \<Rightarrow> SfuRid list \<Rightarrow> SfuRid" where
  "best_fit_select desired active =
     (if active = [] then desired
      else let desired_rank = rank desired;
               best_below = max_by_key rank (filter (\<lambda>r. rank r \<le> desired_rank) active)
           in case best_below of
                Some r \<Rightarrow> r
              | None \<Rightarrow> (case min_by_key rank active of Some r \<Rightarrow> r | None \<Rightarrow> desired))"

section \<open>Iterator methods\<close>

lemma max_by_key_None [simp]: "max_by_key k xs = None \<longleftrightarrow> xs = []"
  by (cases xs) (auto split: option.splits)

lemma min_by_key_None [simp]: "min_by_key k xs = None \<longleftrightarrow> xs = []"
  by (cases xs) (auto split: option.splits)

lemma max_by_key_Some: "max_by_key k xs = Some y \<Longrightarrow> y \<in> set xs \<and> (\<forall>x \<in> set xs. k x \<le> k y)"
  by (induction xs arbitrary: y) (fastforce split: option.splits if_splits)+

lemma min_by_key_Some: "min_by_key k xs = Some y \<Longrightarrow> y \<in> set xs \<and> (\<forall>x \<in> set xs. k y \<le> k x)"
  by (induction xs arbitrary: y) (fastforce split: option.splits if_splits)+

section \<open>The trait's contract\<close>

locale layer_selector =
  fixes select :: "SfuRid \<Rightarrow> SfuRid list \<Rightarrow> SfuRid"
  assumes select_empty: "select desired [] = desired"
    and select_mem: "active \<noteq> [] \<Longrightarrow> select desired active \<in> set active"
begin

text \<open>A publisher that sends a single layer is always forwarded.\<close>

lemma select_single: "select desired [r] = r"
  using select_mem [of "[r]" desired] by simp

text \<open>Whatever is selected is either on offer or what the subscriber asked for.\<close>

lemma select_in_offer: "select desired active \<in> insert desired (set active)"
  by (cases "active = []") (use select_mem in \<open>auto simp: select_empty\<close>)

end

lemma best_fit_select_cases:
  assumes "active \<noteq> []"
  shows "best_fit_select desired active \<in> set active
    \<and> (if \<exists>r \<in> set active. rank r \<le> rank desired
       then rank (best_fit_select desired active) \<le> rank desired
         \<and> (\<forall>r \<in> set active. rank r \<le> rank desired \<longrightarrow> rank r \<le> rank (best_fit_select desired active))
       else \<forall>r \<in> set active. rank (best_fit_select desired active) \<le> rank r)"
proof (cases "\<exists>r \<in> set active. rank r \<le> rank desired")
  case True
  then obtain y where y: "max_by_key rank (filter (\<lambda>r. rank r \<le> rank desired) active) = Some y"
    by (cases "max_by_key rank (filter (\<lambda>r. rank r \<le> rank desired) active)")
       (auto simp: filter_empty_conv)
  then have "best_fit_select desired active = y"
    using assms by (simp add: best_fit_select_def)
  with True max_by_key_Some [OF y] show ?thesis by auto
next
  case False
  then have "filter (\<lambda>r. rank r \<le> rank desired) active = []"
    by (auto simp: filter_empty_conv)
  moreover obtain y where y: "min_by_key rank active = Some y"
    using assms by (cases "min_by_key rank active") auto
  ultimately have "best_fit_select desired active = y"
    using assms by (simp add: best_fit_select_def)
  with False min_by_key_Some [OF y] show ?thesis by auto
qed

interpretation best_fit: layer_selector best_fit_select
proof
  show "best_fit_select desired [] = desired" for desired
    by (simp add: best_fit_select_def)
  show "best_fit_select desired active \<in> set active" if "active \<noteq> []" for desired active
    using best_fit_select_cases [OF that] by blast
qed

text \<open>On the three-layer ladder the rank determines the layer.\<close>

definition ladder :: "SfuRid set" where
  "ladder = {LOW, MEDIUM, HIGH}"

lemma rank_ladder [simp]: "rank LOW = 0" "rank MEDIUM = 1" "rank HIGH = 2"
  by (simp_all add: rank_def)

lemma rank_inj_ladder: "a \<in> ladder \<Longrightarrow> b \<in> ladder \<Longrightarrow> rank a = rank b \<Longrightarrow> a = b"
  by (auto simp: ladder_def)

lemma best_fit_rank:
  assumes "active \<noteq> []"
  shows "rank (best_fit_select desired active) =
    (if \<exists>r \<in> set active. rank r \<le> rank desired
     then Max (rank ` {r \<in> set active. rank r \<le> rank desired}) else Min (rank ` set active))"
proof (cases "\<exists>r \<in> set active. rank r \<le> rank desired")
  case True
  with best_fit_select_cases [OF assms, of desired] show ?thesis
    by (auto intro!: Max_eqI [symmetric])
next
  case False
  with best_fit_select_cases [OF assms, of desired] show ?thesis
    by (auto intro!: Min_eqI [symmetric])
qed

text \<open>
  C35: The best-fit selector forwards the highest active layer not above the desired one, the lowest
  active layer when all are above it, and the desired layer when nothing is active. On the
  low/medium/high ladder the choice depends only on the set of active layers, so it does not depend on
  the iteration order of the hash set the layers are kept in.
\<close>

theorem best_fit_order_free:
  assumes "set active' = set active" "set active \<subseteq> ladder"
  shows "best_fit_select desired active' = best_fit_select desired active
    \<and> (if active = [] then best_fit_select desired active = desired
       else best_fit_select desired active \<in> set active
         \<and> rank (best_fit_select desired active) =
             (if \<exists>r \<in> set active. rank r \<le> rank desired
              then Max (rank ` {r \<in> set active. rank r \<le> rank desired}) else Min (rank ` set active)))"
proof (cases "active = []")
  case True
  with assms(1) show ?thesis by (simp add: best_fit.select_empty)
next
  case False
  then have ne: "active' \<noteq> []" using assms(1) by auto
  have "best_fit_select desired active' \<in> ladder" "best_fit_select desired active \<in> ladder"
    using best_fit.select_mem [OF ne] best_fit.select_mem [OF False] assms by blast+
  moreover have "rank (best_fit_select desired active') = rank (best_fit_select desired active)"
    using best_fit_rank [OF ne] best_fit_rank [OF False] assms(1) by simp
  ultimately show ?thesis
    using rank_inj_ladder best_fit_rank [OF False] best_fit.select_mem [OF False] False by auto
qed

theorem best_fit_order_free_witness:
  "best_fit_select MEDIUM [HIGH, LOW] = best_fit_select MEDIUM [LOW, HIGH]"
  using best_fit_order_free [of "[HIGH, LOW]" "[LOW, HIGH]" MEDIUM] by (simp add: ladder_def insert_commute)

end
