(* ===== verification/Pacer.thy ===== *)
theory Pacer
  imports Layer_Selector "HOL-Library.Monad_Syntax"
begin

text \<open>
  The per-subscriber hysteretic layer pacer: \<^verbatim>\<open>src/bwe/pacer_config.rs\<close>, \<^verbatim>\<open>src/bwe/hysteresis.rs\<close>
  and the thresholds of \<^verbatim>\<open>src/bwe/mod.rs\<close>.

  \<open>update\<close> is one tick of the state machine. Its result is an option because \<^verbatim>\<open>rank\<close> ends in
  \<^verbatim>\<open>unreachable!\<close>: \<open>None\<close> is that panic, and the invariant shows it is never reached. The abstract
  machine \<open>mode\<close> (full video on a layer, audio only, suspended) is refined by the concrete one:
  the action a tick returns is exactly the mode change it makes.
\<close>

section \<open>Thresholds (bwe/mod.rs)\<close>

definition SUSPEND_VIDEO_BPS :: u64 where "SUSPEND_VIDEO_BPS = 10000"
definition AUDIO_ONLY_BPS :: u64 where "AUDIO_ONLY_BPS = 80000"
definition LOW_MIN_BPS :: u64 where "LOW_MIN_BPS = 150000"
definition MEDIUM_MIN_BPS :: u64 where "MEDIUM_MIN_BPS = 350000"
definition HIGH_MIN_BPS :: u64 where "HIGH_MIN_BPS = 700000"
definition SUSPEND_STREAK :: u8 where "SUSPEND_STREAK = 2"
definition UPGRADE_STREAK :: u8 where "UPGRADE_STREAK = 3"
definition PACER_MIN_TICK_INTERVAL :: duration where "PACER_MIN_TICK_INTERVAL = from_millis 100"

section \<open>Configuration (bwe/pacer\_config.rs)\<close>

datatype PacerConfigError = UpgradeStreakZero | SuspendStreakZero | BitrateOrderingViolation

fun PacerConfigError_display :: "PacerConfigError \<Rightarrow> string" where
  "PacerConfigError_display UpgradeStreakZero = ''upgrade_streak must be >= 1''"
| "PacerConfigError_display SuspendStreakZero = ''suspend_streak must be >= 1''"
| "PacerConfigError_display BitrateOrderingViolation =
     ''bitrate fields must satisfy: suspend_video_bps <= audio_only_bps <= low_min_bps <= medium_min_bps <= high_min_bps''"

record PacerConfig =
  suspend_video_bps :: u64
  audio_only_bps :: u64
  low_min_bps :: u64
  medium_min_bps :: u64
  high_min_bps :: u64
  cfg_suspend_streak :: u8
  cfg_upgrade_streak :: u8

definition PacerConfig_validate :: "PacerConfig \<Rightarrow> PacerConfigError + unit" where
  "PacerConfig_validate c =
     (if cfg_upgrade_streak c = 0 then Inl UpgradeStreakZero
      else if cfg_suspend_streak c = 0 then Inl SuspendStreakZero
      else if \<not> (suspend_video_bps c \<le> audio_only_bps c
                \<and> audio_only_bps c \<le> low_min_bps c
                \<and> low_min_bps c \<le> medium_min_bps c
                \<and> medium_min_bps c \<le> high_min_bps c) then Inl BitrateOrderingViolation
      else Inr ())"

definition PacerConfig_default :: PacerConfig where
  "PacerConfig_default =
     \<lparr>suspend_video_bps = SUSPEND_VIDEO_BPS, audio_only_bps = AUDIO_ONLY_BPS,
      low_min_bps = LOW_MIN_BPS, medium_min_bps = MEDIUM_MIN_BPS, high_min_bps = HIGH_MIN_BPS,
      cfg_suspend_streak = SUSPEND_STREAK, cfg_upgrade_streak = UPGRADE_STREAK\<rparr>"

section \<open>The state machine (bwe/hysteresis.rs)\<close>

datatype PacerAction =
    NoChange
  | ChangeLayer SfuRid
  | GoAudioOnly
  | RestoreVideo
  | SuspendVideo
  | RestoreAudio

record SubscriberPacer =
  current_layer :: SfuRid
  audio_only :: bool
  suspended :: bool
  upgrade_streak :: u8
  suspend_streak :: u8
  config :: PacerConfig

definition try_with_config :: "PacerConfig \<Rightarrow> PacerConfigError + SubscriberPacer" where
  "try_with_config c =
     (case PacerConfig_validate c of
        Inl e \<Rightarrow> Inl e
      | Inr _ \<Rightarrow> Inr \<lparr>current_layer = LOW, audio_only = False, suspended = False,
                      upgrade_streak = 0, suspend_streak = 0, config = c\<rparr>)"

text \<open>\<^verbatim>\<open>with_config\<close> panics (\<open>None\<close>) on an invalid configuration.\<close>

definition with_config :: "PacerConfig \<Rightarrow> SubscriberPacer option" where
  "with_config c = (case try_with_config c of Inl _ \<Rightarrow> None | Inr p \<Rightarrow> Some p)"

definition SubscriberPacer_new :: "SubscriberPacer option" where
  "SubscriberPacer_new = with_config PacerConfig_default"

definition pacer_rank :: "SfuRid \<Rightarrow> nat option" where
  "pacer_rank r =
     (if r = LOW then Some 0 else if r = MEDIUM then Some 1 else if r = HIGH then Some 2 else None)"

definition layer_for_bps :: "SubscriberPacer \<Rightarrow> u64 \<Rightarrow> SfuRid" where
  "layer_for_bps p bps =
     (if high_min_bps (config p) \<le> bps then HIGH
      else if medium_min_bps (config p) \<le> bps then MEDIUM
      else LOW)"

definition update :: "SubscriberPacer \<Rightarrow> u64 \<Rightarrow> (SubscriberPacer \<times> PacerAction) option" where
  "update p bps =
     (if suspended p then
        if audio_only_bps (config p) \<le> bps
        then Some (p\<lparr>suspended := False, audio_only := True, upgrade_streak := 0,
                    suspend_streak := 0\<rparr>, RestoreAudio)
        else Some (p, NoChange)
      else if bps < suspend_video_bps (config p) then
        let p = p\<lparr>suspend_streak := saturating_add (suspend_streak p) 1\<rparr>
        in if cfg_suspend_streak (config p) \<le> suspend_streak p
           then Some (p\<lparr>suspended := True, audio_only := True, upgrade_streak := 0,
                       suspend_streak := 0\<rparr>, SuspendVideo)
           else Some (p, NoChange)
      else
        let p = p\<lparr>suspend_streak := 0\<rparr>
        in if audio_only p then
             if low_min_bps (config p) \<le> bps
             then Some (p\<lparr>audio_only := False, current_layer := LOW, upgrade_streak := 0\<rparr>,
                        RestoreVideo)
             else Some (p, NoChange)
           else if bps < audio_only_bps (config p)
             then Some (p\<lparr>audio_only := True, upgrade_streak := 0\<rparr>, GoAudioOnly)
           else do {
             let target = layer_for_bps p bps;
             rt \<leftarrow> pacer_rank target;
             rc \<leftarrow> pacer_rank (current_layer p);
             if rt < rc then
               Some (p\<lparr>current_layer := target, upgrade_streak := 0\<rparr>, ChangeLayer target)
             else if rc < rt then
               let p = p\<lparr>upgrade_streak := saturating_add (upgrade_streak p) 1\<rparr>
               in if cfg_upgrade_streak (config p) \<le> upgrade_streak p
                  then Some (p\<lparr>current_layer := target, upgrade_streak := 0\<rparr>, ChangeLayer target)
                  else Some (p, NoChange)
             else Some (p\<lparr>upgrade_streak := 0\<rparr>, NoChange)
           })"

text \<open>Successive ticks, collecting the actions.\<close>

fun run :: "SubscriberPacer \<Rightarrow> u64 list \<Rightarrow> (SubscriberPacer \<times> PacerAction list) option" where
  "run p [] = Some (p, [])"
| "run p (b # bs) = do { (p1, a) \<leftarrow> update p b; (p2, as) \<leftarrow> run p1 bs; Some (p2, a # as) }"

section \<open>The invariant\<close>

definition config_ok :: "PacerConfig \<Rightarrow> bool" where
  "config_ok c \<longleftrightarrow> PacerConfig_validate c = Inr ()"

definition pacer_inv :: "SubscriberPacer \<Rightarrow> bool" where
  "pacer_inv p \<longleftrightarrow>
     config_ok (config p) \<and> current_layer p \<in> ladder
     \<and> (suspended p \<longrightarrow> audio_only p \<and> suspend_streak p = 0)
     \<and> (audio_only p \<longrightarrow> upgrade_streak p = 0)
     \<and> upgrade_streak p < cfg_upgrade_streak (config p)
     \<and> suspend_streak p < cfg_suspend_streak (config p)"

lemma config_ok_iff:
  "config_ok c \<longleftrightarrow> cfg_upgrade_streak c \<noteq> 0 \<and> cfg_suspend_streak c \<noteq> 0
     \<and> suspend_video_bps c \<le> audio_only_bps c \<and> audio_only_bps c \<le> low_min_bps c
     \<and> low_min_bps c \<le> medium_min_bps c \<and> medium_min_bps c \<le> high_min_bps c"
  by (auto simp: config_ok_def PacerConfig_validate_def)

lemma pacer_rank_ladder: "r \<in> ladder \<Longrightarrow> pacer_rank r = Some (rank r)"
  by (auto simp: pacer_rank_def rank_def ladder_def)

lemma layer_for_bps_ladder [simp, intro]: "layer_for_bps p b \<in> ladder"
  by (simp add: layer_for_bps_def ladder_def)

lemma layer_for_bps_cong [simp]:
  "layer_for_bps (p\<lparr>suspend_streak := s\<rparr>) b = layer_for_bps p b"
  by (simp add: layer_for_bps_def)

lemma streak_succ:
  assumes "a < (b :: u8)" and "\<not> b \<le> saturating_add a 1"
  shows "saturating_add a 1 < b"
  using assms by simp

lemma default_ok [simp]: "config_ok PacerConfig_default"
  by (simp add: config_ok_iff PacerConfig_default_def SUSPEND_VIDEO_BPS_def AUDIO_ONLY_BPS_def
      LOW_MIN_BPS_def MEDIUM_MIN_BPS_def HIGH_MIN_BPS_def SUSPEND_STREAK_def UPGRADE_STREAK_def)

text \<open>What one tick does on every branch, with the ranks resolved.\<close>

lemma update_video:
  assumes "current_layer p \<in> ladder" and "\<not> suspended p" and "\<not> audio_only p"
    and "\<not> b < suspend_video_bps (config p)" and "\<not> b < audio_only_bps (config p)"
  shows "update p b =
    (let t = layer_for_bps p b; p = p\<lparr>suspend_streak := 0\<rparr>
     in if rank t < rank (current_layer p)
        then Some (p\<lparr>current_layer := t, upgrade_streak := 0\<rparr>, ChangeLayer t)
        else if rank (current_layer p) < rank t then
          if cfg_upgrade_streak (config p) \<le> saturating_add (upgrade_streak p) 1
          then Some (p\<lparr>current_layer := t, upgrade_streak := 0\<rparr>, ChangeLayer t)
          else Some (p\<lparr>upgrade_streak := saturating_add (upgrade_streak p) 1\<rparr>, NoChange)
        else Some (p\<lparr>upgrade_streak := 0\<rparr>, NoChange))"
  using assms by (simp add: update_def Let_def pacer_rank_ladder)

lemma update_inv:
  assumes "pacer_inv p"
  shows "\<exists>p' a. update p b = Some (p', a) \<and> pacer_inv p' \<and> config p' = config p"
proof (cases "suspended p \<or> b < suspend_video_bps (config p) \<or> audio_only p
    \<or> b < audio_only_bps (config p)")
  case True
  with assms show ?thesis
    by (auto simp: update_def Let_def pacer_inv_def config_ok_iff ladder_def word_gt_0 not_le)
next
  case False
  then show ?thesis
    using assms
    by (auto simp: update_video pacer_inv_def config_ok_iff Let_def word_gt_0 not_le)
qed

section \<open>Runs\<close>

lemma run_append:
  "run p (xs @ ys) = do { (p1, as) \<leftarrow> run p xs; (p2, bs) \<leftarrow> run p1 ys; Some (p2, as @ bs) }"
  by (induction xs arbitrary: p) (auto split: Option.bind_split simp: Option.bind_assoc)

lemma run_inv:
  "pacer_inv p \<Longrightarrow>
     \<exists>p' as. run p bs = Some (p', as) \<and> pacer_inv p' \<and> config p' = config p \<and> length as = length bs"
proof (induction bs arbitrary: p)
  case (Cons b bs)
  obtain p1 a where u: "update p b = Some (p1, a)" "pacer_inv p1" "config p1 = config p"
    using update_inv [OF Cons.prems] by blast
  with Cons.IH [of p1] show ?case by auto
qed simp

lemma try_with_config_inv: "try_with_config c = Inr p \<Longrightarrow> pacer_inv p \<and> config p = c"
  by (auto simp: try_with_config_def pacer_inv_def config_ok_def ladder_def word_gt_0
      PacerConfig_validate_def split: if_splits)

lemma run_config: "pacer_inv p \<Longrightarrow> run p bs = Some (p', as) \<Longrightarrow> pacer_inv p' \<and> config p' = config p"
  using run_inv [of p bs] by auto

section \<open>The abstract machine\<close>

datatype mode = FullVideo SfuRid | AudioOnly | Suspended

definition mode_of :: "SubscriberPacer \<Rightarrow> mode" where
  "mode_of p = (if suspended p then Suspended else if audio_only p then AudioOnly
                else FullVideo (current_layer p))"

definition layer_of :: "PacerConfig \<Rightarrow> u64 \<Rightarrow> SfuRid" where
  "layer_of c b =
     (if high_min_bps c \<le> b then HIGH else if medium_min_bps c \<le> b then MEDIUM else LOW)"

text \<open>
  The transitions the thresholds allow on a reading \<open>b\<close>, each with the action that announces it.
  Recovery from suspension and from audio-only operation, the fall to audio-only and a downgrade are
  not optional: the readings that call for them allow nothing else. When to suspend and
  when to upgrade is left open; it is the business of the streak counters.
\<close>

inductive mode_step :: "PacerConfig \<Rightarrow> u64 \<Rightarrow> mode \<Rightarrow> PacerAction \<Rightarrow> mode \<Rightarrow> bool"
  for c :: PacerConfig and b :: u64 where
  stay_suspended: "b < audio_only_bps c \<Longrightarrow> mode_step c b Suspended NoChange Suspended"
| stay_audio_only: "b < low_min_bps c \<Longrightarrow> mode_step c b AudioOnly NoChange AudioOnly"
| stay_dip: "b < suspend_video_bps c \<Longrightarrow> mode_step c b (FullVideo l) NoChange (FullVideo l)"
| stay_layer: "audio_only_bps c \<le> b \<Longrightarrow> rank l \<le> rank (layer_of c b) \<Longrightarrow>
    mode_step c b (FullVideo l) NoChange (FullVideo l)"
| suspend: "b < suspend_video_bps c \<Longrightarrow> m \<noteq> Suspended \<Longrightarrow> mode_step c b m SuspendVideo Suspended"
| restore_audio: "audio_only_bps c \<le> b \<Longrightarrow> mode_step c b Suspended RestoreAudio AudioOnly"
| go_audio_only: "suspend_video_bps c \<le> b \<Longrightarrow> b < audio_only_bps c \<Longrightarrow>
    mode_step c b (FullVideo l) GoAudioOnly AudioOnly"
| restore_video: "low_min_bps c \<le> b \<Longrightarrow> mode_step c b AudioOnly RestoreVideo (FullVideo LOW)"
| change_layer: "audio_only_bps c \<le> b \<Longrightarrow> layer_of c b \<noteq> l \<Longrightarrow>
    mode_step c b (FullVideo l) (ChangeLayer (layer_of c b)) (FullVideo (layer_of c b))"

code_pred mode_step .

inductive_cases mode_step_SuspendVideoE: "mode_step c b m SuspendVideo m'"
inductive_cases mode_step_NoChangeE: "mode_step c b m NoChange m'"
inductive_simps mode_step_from_Suspended: "mode_step c b Suspended a m'"

lemma layer_for_bps_layer_of: "layer_for_bps p b = layer_of (config p) b"
  by (simp add: layer_for_bps_def layer_of_def)

lemma update_mode_step:
  assumes "pacer_inv p" and "update p b = Some (p', a)"
  shows "mode_step (config p) b (mode_of p) a (mode_of p')"
proof (cases "suspended p \<or> b < suspend_video_bps (config p) \<or> audio_only p
    \<or> b < audio_only_bps (config p)")
  case True
  have "low_min_bps (config p) \<ge> suspend_video_bps (config p)"
    using assms(1) by (auto simp: pacer_inv_def config_ok_iff)
  with True assms show ?thesis
    by (auto simp: update_def Let_def mode_of_def not_less not_le intro: mode_step.intros
        split: if_splits)
next
  case False
  let ?t = "layer_of (config p) b"
  have l: "current_layer p \<in> ladder" using assms(1) by (simp add: pacer_inv_def)
  have "rank ?t \<noteq> rank (current_layer p) \<Longrightarrow> ?t \<noteq> current_layer p" by auto
  moreover have "rank (current_layer p) \<le> rank ?t \<Longrightarrow> mode_step (config p) b
      (FullVideo (current_layer p)) NoChange (FullVideo (current_layer p))"
    using False by (intro mode_step.stay_layer) (auto simp: not_less)
  ultimately show ?thesis
    using False assms(2) l
    by (auto simp: update_video Let_def mode_of_def layer_for_bps_layer_of not_less
        intro: mode_step.change_layer split: if_splits)
qed


section \<open>Runs of the abstract machine\<close>

inductive mode_run :: "PacerConfig \<Rightarrow> u64 list \<Rightarrow> mode \<Rightarrow> PacerAction list \<Rightarrow> mode \<Rightarrow> bool"
  for c :: PacerConfig where
  idle: "mode_run c [] m [] m"
| tick: "mode_step c b m a m1 \<Longrightarrow> mode_run c bs m1 as m' \<Longrightarrow> mode_run c (b # bs) m (a # as) m'"

lemma run_mode_run:
  assumes "pacer_inv p" and "run p bs = Some (p', as)"
  shows "mode_run (config p) bs (mode_of p) as (mode_of p')"
  using assms
proof (induction bs arbitrary: p as)
  case (Cons b bs)
  obtain p1 a where u: "update p b = Some (p1, a)" "pacer_inv p1" "config p1 = config p"
    using update_inv [OF Cons.prems(1)] by blast
  obtain as1 where r: "run p1 bs = Some (p', as1)" "as = a # as1"
    using Cons.prems(2) u by (auto split: Option.bind_splits)
  from Cons.IH [OF u(2) r(1)] update_mode_step [OF Cons.prems(1) u(1)] show ?case
    by (simp add: r u mode_run.tick)
qed (auto intro: mode_run.idle)

text \<open>
  C14: the pacer never panics and refines the abstract machine. A pacer built by
  \<^verbatim>\<open>try_with_config\<close> handles every sequence of readings without reaching \<^verbatim>\<open>unreachable!\<close> in
  \<^verbatim>\<open>rank\<close>, returns one action per reading, keeps its configuration, and ends in a state where suspended
  implies audio-only, the layer is one of the three and both streak counters are below their limits.
  The actions are exactly the transitions of \<open>mode_run\<close> between the abstract states: the caller
  who applies the returned actions stays in step with the pacer, each transition is one the
  thresholds allow on that tick's reading, and recovery, audio-only entry and downgrades happen on
  the first reading that calls for them.
\<close>

theorem run_refines:
  assumes "try_with_config c = Inr p"
  shows "\<exists>p' as. run p bs = Some (p', as) \<and> pacer_inv p' \<and> config p' = c \<and> length as = length bs
    \<and> mode_run c bs (mode_of p) as (mode_of p')"
  using run_inv [of p bs] run_mode_run [of p bs] try_with_config_inv [OF assms] by auto

definition default_pacer :: SubscriberPacer where
  "default_pacer = \<lparr>current_layer = LOW, audio_only = False, suspended = False,
     upgrade_streak = 0, suspend_streak = 0, config = PacerConfig_default\<rparr>"

lemma try_with_config_default: "try_with_config PacerConfig_default = Inr default_pacer"
  using default_ok by (simp add: try_with_config_def config_ok_def default_pacer_def)

lemma default_pacer_inv: "pacer_inv default_pacer"
  using try_with_config_inv [OF try_with_config_default] by simp

lemmas default_defs =
  default_pacer_def PacerConfig_default_def SUSPEND_VIDEO_BPS_def AUDIO_ONLY_BPS_def
  LOW_MIN_BPS_def MEDIUM_MIN_BPS_def HIGH_MIN_BPS_def SUSPEND_STREAK_def UPGRADE_STREAK_def

lemma run_default_suspend:
  "run default_pacer [800000, 9000, 9000, 100000]
     = Some (default_pacer\<lparr>audio_only := True\<rparr>, [NoChange, NoChange, SuspendVideo, RestoreAudio])"
  by (simp add: default_defs update_def Let_def layer_for_bps_def pacer_rank_def saturating_add_def
      word_le_nat_alt)

theorem run_refines_witness:
  "mode_run PacerConfig_default [800000, 9000, 9000, 100000] (FullVideo LOW)
     [NoChange, NoChange, SuspendVideo, RestoreAudio] AudioOnly"
proof -
  have "mode_run PacerConfig_default [800000, 9000, 9000, 100000] (mode_of default_pacer)
      [NoChange, NoChange, SuspendVideo, RestoreAudio] (mode_of (default_pacer\<lparr>audio_only := True\<rparr>))"
    using run_refines [OF try_with_config_default, of "[800000, 9000, 9000, 100000]"]
    unfolding run_default_suspend by blast
  then show ?thesis by (simp add: mode_of_def default_pacer_def)
qed

section \<open>Safety and debouncing\<close>

text \<open>
  No overshoot. Whenever a tick whose reading is not below the suspend threshold leaves the
  pacer forwarding video, the reading sustains at least audio-only operation and the forwarded
  layer is at most the layer the reading pays for.
\<close>

lemma update_no_overshoot:
  assumes "pacer_inv p" and "update p b = Some (p', a)"
    and "suspend_video_bps (config p) \<le> b" and "mode_of p' = FullVideo l"
  shows "audio_only_bps (config p) \<le> b \<and> rank l \<le> rank (layer_of (config p) b)"
proof (cases "suspended p \<or> audio_only p \<or> b < audio_only_bps (config p)")
  case True
  with assms show ?thesis
    by (auto simp: update_def Let_def mode_of_def pacer_inv_def config_ok_iff split: if_splits)
next
  case False
  with assms show ?thesis
    by (auto simp: update_video Let_def mode_of_def pacer_inv_def layer_for_bps_layer_of not_less
        split: if_splits)
qed

lemma update_default_high:
  "update (default_pacer\<lparr>upgrade_streak := 2\<rparr>) 800000
     = Some (default_pacer\<lparr>current_layer := HIGH\<rparr>, ChangeLayer HIGH)"
  by (simp add: default_defs update_def Let_def layer_for_bps_def pacer_rank_def saturating_add_def)

lemma default_pacer_streak_inv: "pacer_inv (default_pacer\<lparr>upgrade_streak := 2\<rparr>)"
  using default_pacer_inv by (simp add: pacer_inv_def default_defs)

text \<open>The history of a run: how many of the latest readings satisfy a predicate.\<close>

definition trailing :: "('a \<Rightarrow> bool) \<Rightarrow> 'a list \<Rightarrow> nat" where
  "trailing P bs = length (takeWhile P (rev bs))"

lemma trailing_simps [simp]:
  "trailing P [] = 0" "trailing P (bs @ [b]) = (if P b then Suc (trailing P bs) else 0)"
  by (simp_all add: trailing_def)

lemma trailing_nth:
  "i < trailing P bs \<Longrightarrow> P (rev bs ! i)"
  unfolding trailing_def by (metis nth_mem set_takeWhileD takeWhile_nth)

lemma unat_saturating_Suc: "unat (saturating_add (a :: u8) 1) \<le> Suc (unat a)"
  by (simp add: unat_saturating_add)

lemma run_snocE:
  assumes "pacer_inv p" and "run p (bs @ [b]) = Some (p', as)"
  obtains p1 as1 a where "run p bs = Some (p1, as1)" "update p1 b = Some (p', a)"
    "as = as1 @ [a]" "pacer_inv p1" "config p1 = config p"
  using assms run_inv [of p bs] by (auto simp: run_append split: Option.bind_splits prod.splits)

lemma update_suspend_streak:
  assumes "pacer_inv p" and "update p b = Some (p', a)"
  shows "suspend_streak p' =
    (if b < suspend_video_bps (config p) \<and> \<not> suspended p \<and> a \<noteq> SuspendVideo
     then saturating_add (suspend_streak p) 1 else 0)"
proof (cases "suspended p \<or> b < suspend_video_bps (config p) \<or> audio_only p
    \<or> b < audio_only_bps (config p)")
  case True
  with assms show ?thesis
    by (auto simp: update_def Let_def pacer_inv_def config_ok_iff split: if_splits)
next
  case False
  with assms show ?thesis
    by (auto simp: update_video Let_def pacer_inv_def split: if_splits)
qed

lemma suspend_streak_history:
  assumes "pacer_inv p" and "suspend_streak p = 0" and "run p bs = Some (p', as)"
  shows "unat (suspend_streak p') \<le> trailing (\<lambda>b. b < suspend_video_bps (config p)) bs"
  using assms(3)
proof (induction bs arbitrary: p' as rule: rev_induct)
  case Nil
  then show ?case using assms(2) by simp
next
  case (snoc b bs)
  obtain p1 as1 a where r: "run p bs = Some (p1, as1)" "update p1 b = Some (p', a)"
    "pacer_inv p1" "config p1 = config p"
    using run_snocE [OF assms(1) snoc.prems] by metis
  have "unat (suspend_streak p1) \<le> trailing (\<lambda>b. b < suspend_video_bps (config p)) bs"
    using snoc.IH [OF r(1)] .
  then show ?case
    using update_suspend_streak [OF r(3,2)] unat_saturating_Suc [of "suspend_streak p1"] r(4)
    by (auto split: if_splits)
qed

text \<open>
  When a pacer that starts with an empty streak answers \<open>SuspendVideo\<close>, at least
  \<open>suspend_streak\<close> readings in a row, this one included, were below the suspend threshold.
\<close>

lemma suspend_debounced:
  assumes "pacer_inv p" and "suspend_streak p = 0"
    and "run p bs = Some (p1, as)" and "update p1 b = Some (p', SuspendVideo)"
  shows "unat (cfg_suspend_streak (config p))
    \<le> trailing (\<lambda>b. b < suspend_video_bps (config p)) (bs @ [b])"
proof -
  have p1: "pacer_inv p1" "config p1 = config p"
    using run_config [OF assms(1,3)] by auto
  have b: "b < suspend_video_bps (config p)"
    using update_mode_step [OF p1(1) assms(4)] p1(2) by (auto elim: mode_step_SuspendVideoE)
  have "cfg_suspend_streak (config p) \<le> saturating_add (suspend_streak p1) 1"
    using assms(4) p1(2) b by (auto simp: update_def Let_def split: if_splits)
  then have "unat (cfg_suspend_streak (config p)) \<le> Suc (unat (suspend_streak p1))"
    using unat_saturating_Suc [of "suspend_streak p1"] by (simp add: word_le_nat_alt)
  with suspend_streak_history [OF assms(1-3)] b show ?thesis by simp
qed

text \<open>
  An upgrade waits for its streak, but the streak survives a reading below the suspend threshold:
  that branch returns before the layer decision and leaves \<open>upgrade_streak\<close> alone. So the readings
  that count are those of the history with the dips filtered out.
\<close>

definition no_dips :: "PacerConfig \<Rightarrow> u64 list \<Rightarrow> u64 list" where
  "no_dips c bs = filter (\<lambda>b. suspend_video_bps c \<le> b) bs"

lemma no_dips_snoc [simp]:
  "no_dips c (bs @ [b]) = no_dips c bs @ (if suspend_video_bps c \<le> b then [b] else [])"
  by (simp add: no_dips_def)

lemma update_upgrade_streak:
  assumes "pacer_inv p" and "update p b = Some (p', a)"
  shows "upgrade_streak p' = 0
    \<or> current_layer p' = current_layer p \<and> upgrade_streak p' = upgrade_streak p
        \<and> b < suspend_video_bps (config p)
    \<or> current_layer p' = current_layer p \<and> rank (current_layer p) < rank (layer_of (config p) b)
        \<and> suspend_video_bps (config p) \<le> b \<and> upgrade_streak p' = saturating_add (upgrade_streak p) 1"
proof (cases "suspended p \<or> b < suspend_video_bps (config p) \<or> audio_only p
    \<or> b < audio_only_bps (config p)")
  case True
  with assms show ?thesis
    by (auto simp: update_def Let_def pacer_inv_def config_ok_iff split: if_splits)
next
  case False
  with assms show ?thesis
    by (auto simp: update_video Let_def pacer_inv_def layer_for_bps_layer_of split: if_splits)
qed

lemma upgrade_streak_history:
  assumes "pacer_inv p" and "upgrade_streak p = 0" and "run p bs = Some (p', as)"
  shows "unat (upgrade_streak p')
    \<le> trailing (\<lambda>b. rank (current_layer p') < rank (layer_of (config p) b)) (no_dips (config p) bs)"
  using assms(3)
proof (induction bs arbitrary: p' as rule: rev_induct)
  case Nil
  then show ?case using assms(2) by simp
next
  case (snoc b bs)
  obtain p1 as1 a where r: "run p bs = Some (p1, as1)" "update p1 b = Some (p', a)"
    "pacer_inv p1" "config p1 = config p"
    using run_snocE [OF assms(1) snoc.prems] by metis
  have IH: "unat (upgrade_streak p1)
      \<le> trailing (\<lambda>b. rank (current_layer p1) < rank (layer_of (config p) b)) (no_dips (config p) bs)"
    using snoc.IH [OF r(1)] .
  show ?case
    using update_upgrade_streak [OF r(3,2)] unat_saturating_Suc [of "upgrade_streak p1"] r(4) IH
    by (elim disjE) (auto simp: not_le)
qed

text \<open>
  When the pacer moves up from layer \<open>l\<close>, the latest \<open>upgrade_streak\<close> readings that were not below
  the suspend threshold all paid for a layer above \<open>l\<close>.
\<close>

lemma upgrade_debounced:
  assumes "pacer_inv p" and "upgrade_streak p = 0"
    and "run p bs = Some (p1, as)" and "update p1 b = Some (p', ChangeLayer l')"
    and "rank (current_layer p1) < rank l'"
  shows "unat (cfg_upgrade_streak (config p))
    \<le> trailing (\<lambda>b. rank (current_layer p1) < rank (layer_of (config p) b))
        (no_dips (config p) (bs @ [b]))"
proof -
  have p1: "pacer_inv p1" "config p1 = config p"
    using run_config [OF assms(1,3)] by auto
  have s: "\<not> suspended p1" "\<not> audio_only p1" "\<not> b < audio_only_bps (config p)"
      "\<not> b < suspend_video_bps (config p)"
    using assms(4) p1 by (auto simp: update_def Let_def split: if_splits)
  with assms(4,5) p1 have u: "l' = layer_of (config p) b"
      "cfg_upgrade_streak (config p) \<le> saturating_add (upgrade_streak p1) 1"
    by (auto simp: update_video pacer_inv_def Let_def layer_for_bps_layer_of split: if_splits)
  then have "unat (cfg_upgrade_streak (config p)) \<le> Suc (unat (upgrade_streak p1))"
    using unat_saturating_Suc [of "upgrade_streak p1"] by (simp add: word_le_nat_alt)
  with upgrade_streak_history [OF assms(1,2,3)] s u assms(5) show ?thesis
    by (simp add: not_less)
qed

text \<open>
  C29: the pacer is debounced both ways. Take a pacer whose streaks are empty, and any history of readings. When the next
  reading makes it suspend video, at least \<open>suspend_streak\<close> readings in a row, this one included, were
  below the suspend threshold: a shorter dip never stops all video. When the next reading raises the
  layer, the latest \<open>upgrade_streak\<close> readings, those below the suspend threshold left out, all paid for
  a layer above the current one: no shorter burst of good readings raises it.
\<close>

theorem pacer_debounced:
  assumes "pacer_inv p" and "suspend_streak p = 0" and "upgrade_streak p = 0"
    and "run p bs = Some (p1, as)" and "update p1 b = Some (p', a)"
  shows "(a = SuspendVideo \<longrightarrow> unat (cfg_suspend_streak (config p))
      \<le> trailing (\<lambda>b. b < suspend_video_bps (config p)) (bs @ [b]))
    \<and> (\<forall>l'. a = ChangeLayer l' \<and> rank (current_layer p1) < rank l' \<longrightarrow> unat (cfg_upgrade_streak (config p))
      \<le> trailing (\<lambda>b. rank (current_layer p1) < rank (layer_of (config p) b)) (no_dips (config p) (bs @ [b])))"
  using assms suspend_debounced upgrade_debounced by blast

lemma run_default_climb:
  "run default_pacer [400000, 0, 400000] = Some (default_pacer\<lparr>upgrade_streak := 2\<rparr>, [NoChange, NoChange, NoChange])"
  by (simp add: default_defs update_def Let_def layer_for_bps_def pacer_rank_def
      saturating_add_def word_le_nat_alt)

lemma run_default_dip:
  "run default_pacer [800000, 9000] = Some (default_pacer\<lparr>suspend_streak := 1, upgrade_streak := 1\<rparr>, [NoChange, NoChange])"
  "update (default_pacer\<lparr>suspend_streak := 1, upgrade_streak := 1\<rparr>) 9000
     = Some (default_pacer\<lparr>audio_only := True, suspended := True\<rparr>, SuspendVideo)"
  by (simp_all add: default_defs update_def Let_def layer_for_bps_def pacer_rank_def
      saturating_add_def word_le_nat_alt)

theorem pacer_debounced_witness:
  "2 \<le> trailing (\<lambda>b. b < SUSPEND_VIDEO_BPS) [800000, 9000, 9000 :: u64]
   \<and> 3 \<le> trailing (\<lambda>b. rank LOW < rank (layer_of PacerConfig_default b))
      (no_dips PacerConfig_default [400000, 0, 400000, 800000])"
  using pacer_debounced [OF default_pacer_inv _ _ run_default_dip]
    pacer_debounced [OF default_pacer_inv _ _ run_default_climb update_default_high]
  by (simp add: default_defs)

text \<open>
  How long a climb takes. While a pacer forwards video, a dip (a reading below the suspend threshold) too short to
  suspend it leaves everything but the suspend streak alone; a reading that pays for a higher layer adds to the upgrade streak.
\<close>

definition dip :: "PacerConfig \<Rightarrow> u64 \<Rightarrow> bool" where
  "dip c b \<longleftrightarrow> b < suspend_video_bps c"

definition pays_more :: "PacerConfig \<Rightarrow> SfuRid \<Rightarrow> u64 \<Rightarrow> bool" where
  "pays_more c l b \<longleftrightarrow> rank l < rank (layer_of c b)"

lemma pays_more_level:
  assumes "config_ok c" "pays_more c l b"
  shows "\<not> b < suspend_video_bps c" "\<not> b < audio_only_bps c"
  using assms by (auto simp: pays_more_def layer_of_def config_ok_iff rank_def split: if_splits)

lemma update_dip:
  assumes "pacer_inv p" "mode_of p = FullVideo l" "dip (config p) b"
    "Suc (unat (suspend_streak p)) < unat (cfg_suspend_streak (config p))"
  shows "update p b = Some (p\<lparr>suspend_streak := saturating_add (suspend_streak p) 1\<rparr>, NoChange)"
    and "unat (saturating_add (suspend_streak p) 1) = Suc (unat (suspend_streak p))"
proof -
  have "unat (cfg_suspend_streak (config p)) < 2 ^ 8" using unsigned_less [of "cfg_suspend_streak (config p)"] by simp
  with assms(4) show u: "unat (saturating_add (suspend_streak p) 1) = Suc (unat (suspend_streak p))"
    by (simp add: unat_saturating_add)
  with assms show "update p b = Some (p\<lparr>suspend_streak := saturating_add (suspend_streak p) 1\<rparr>, NoChange)"
    by (auto simp: update_def Let_def dip_def mode_of_def word_le_nat_alt split: if_splits)
qed

lemma update_pays_more:
  assumes "pacer_inv p" "mode_of p = FullVideo l" "pays_more (config p) l b"
  shows "update p b =
    (if Suc (unat (upgrade_streak p)) < unat (cfg_upgrade_streak (config p))
     then Some (p\<lparr>suspend_streak := 0, upgrade_streak := saturating_add (upgrade_streak p) 1\<rparr>, NoChange)
     else Some (p\<lparr>suspend_streak := 0, current_layer := layer_of (config p) b, upgrade_streak := 0\<rparr>,
                ChangeLayer (layer_of (config p) b)))"
    and "unat (saturating_add (upgrade_streak p) 1) = Suc (unat (upgrade_streak p))"
proof -
  have less: "upgrade_streak p < cfg_upgrade_streak (config p)" using assms(1) by (simp add: pacer_inv_def)
  moreover have "unat (cfg_upgrade_streak (config p)) < 2 ^ 8" using unsigned_less [of "cfg_upgrade_streak (config p)"] by simp
  ultimately show u: "unat (saturating_add (upgrade_streak p) 1) = Suc (unat (upgrade_streak p))"
    by (simp add: unat_saturating_add word_less_nat_alt)
  have "\<not> suspended p" "\<not> audio_only p" "current_layer p = l"
    using assms(2) by (auto simp: mode_of_def split: if_splits)
  with assms pays_more_level [of "config p" l b] u show "update p b =
    (if Suc (unat (upgrade_streak p)) < unat (cfg_upgrade_streak (config p))
     then Some (p\<lparr>suspend_streak := 0, upgrade_streak := saturating_add (upgrade_streak p) 1\<rparr>, NoChange)
     else Some (p\<lparr>suspend_streak := 0, current_layer := layer_of (config p) b, upgrade_streak := 0\<rparr>,
                ChangeLayer (layer_of (config p) b)))"
    by (auto simp: update_video pacer_inv_def Let_def layer_for_bps_layer_of pays_more_def word_le_nat_alt not_le)
qed

text \<open>A climb: dips and paying readings, with fewer dips in a row than suspend the pacer.\<close>

definition climbing :: "PacerConfig \<Rightarrow> SfuRid \<Rightarrow> u64 list \<Rightarrow> bool" where
  "climbing c l bs \<longleftrightarrow> list_all (\<lambda>b. dip c b \<or> pays_more c l b) bs
     \<and> list_all (\<lambda>n. trailing (dip c) (take n bs) < unat (cfg_suspend_streak c)) [0..<Suc (length bs)]"

lemma climbing_snoc:
  "climbing c l (bs @ [b]) \<longleftrightarrow> climbing c l bs \<and> (dip c b \<or> pays_more c l b)
     \<and> trailing (dip c) (bs @ [b]) < unat (cfg_suspend_streak c)"
proof -
  have "[0..<Suc (length (bs @ [b]))] = [0..<Suc (length bs)] @ [Suc (length bs)]" by simp
  then show ?thesis by (auto simp: climbing_def list_all_iff simp del: upt_Suc)
qed

lemma mode_of_streaks:
  "mode_of (p\<lparr>suspend_streak := s\<rparr>) = mode_of p" "mode_of (p\<lparr>upgrade_streak := s\<rparr>) = mode_of p"
  by (simp_all add: mode_of_def)

lemma run_climb:
  assumes "pacer_inv p" "mode_of p = FullVideo l" "suspend_streak p = 0" "climbing (config p) l bs"
    and "unat (upgrade_streak p) + length (filter (pays_more (config p) l) bs) < unat (cfg_upgrade_streak (config p))"
  shows "\<exists>p'. run p bs = Some (p', replicate (length bs) NoChange) \<and> mode_of p' = FullVideo l
    \<and> unat (suspend_streak p') = trailing (dip (config p)) bs
    \<and> unat (upgrade_streak p') = unat (upgrade_streak p) + length (filter (pays_more (config p) l) bs)"
  using assms(4,5)
proof (induction bs rule: rev_induct)
  case (snoc b bs)
  then obtain p1 where r: "run p bs = Some (p1, replicate (length bs) NoChange)" "mode_of p1 = FullVideo l"
    "unat (suspend_streak p1) = trailing (dip (config p)) bs"
    "unat (upgrade_streak p1) = unat (upgrade_streak p) + length (filter (pays_more (config p) l) bs)"
    by (auto simp: climbing_snoc split: if_splits)
  note p1 = run_config [OF assms(1) r(1)]
  have ok: "config_ok (config p)" using assms(1) by (simp add: pacer_inv_def)
  have snoc_run: "run p (bs @ [b]) = Some (p', replicate (length (bs @ [b])) NoChange)"
    if "update p1 b = Some (p', NoChange)" for p'
    using that r(1) by (simp add: run_append replicate_append_same)
  show ?case
  proof (cases "dip (config p) b")
    case True
    then have "\<not> pays_more (config p) l b" using pays_more_level(1) [OF ok] by (auto simp: dip_def)
    moreover have "Suc (unat (suspend_streak p1)) < unat (cfg_suspend_streak (config p1))"
      using snoc.prems(1) True r(3) p1 by (simp add: climbing_snoc)
    ultimately show ?thesis
      using update_dip [of p1 l b] snoc_run r p1 True by (auto simp: mode_of_streaks)
  next
    case False
    then have b: "pays_more (config p) l b" using snoc.prems(1) by (simp add: climbing_snoc)
    then have "Suc (unat (upgrade_streak p1)) < unat (cfg_upgrade_streak (config p1))"
      using snoc.prems(2) r(4) p1 by simp
    then show ?thesis
      using update_pays_more [of p1 l b] snoc_run r p1 False b by (auto simp: mode_of_streaks)
  qed
qed (use assms(2,3) in simp)

text \<open>
  C31: when the layer is raised, exactly. Take a pacer that forwards video on layer \<open>l\<close> with an empty suspend streak, and
  readings each of which either pays for a layer above \<open>l\<close> or is below the suspend threshold, the latter never
  \<open>suspend_streak\<close> times in a row. The pacer changes nothing until the paying readings, counted from the streak it starts
  with, number \<open>upgrade_streak\<close>; with that last one it goes to the layer this reading pays for. So the documented
  \<open>upgrade_streak\<close> consecutive ticks above the threshold of the new layer are not needed: the count survives readings too low for
  any video, and earlier readings need not have paid for the layer that is reached.
\<close>

theorem upgrade_streak_not_consecutive:
  assumes "pacer_inv p" "mode_of p = FullVideo l" "suspend_streak p = 0"
    and "climbing (config p) l bs" "pays_more (config p) l b"
    and "unat (upgrade_streak p) + length (filter (pays_more (config p) l) bs) + 1 = unat (cfg_upgrade_streak (config p))"
  shows "\<exists>p'. run p (bs @ [b]) = Some (p', replicate (length bs) NoChange @ [ChangeLayer (layer_of (config p) b)])
    \<and> mode_of p' = FullVideo (layer_of (config p) b) \<and> upgrade_streak p' = 0 \<and> suspend_streak p' = 0"
proof -
  obtain p1 where r: "run p bs = Some (p1, replicate (length bs) NoChange)" "mode_of p1 = FullVideo l"
    "unat (upgrade_streak p1) = unat (upgrade_streak p) + length (filter (pays_more (config p) l) bs)"
    using run_climb [OF assms(1-4)] assms(6) by auto
  have "update p1 b = Some (p1\<lparr>suspend_streak := 0, current_layer := layer_of (config p) b, upgrade_streak := 0\<rparr>,
      ChangeLayer (layer_of (config p) b))"
    using update_pays_more(1) [of p1 l b] run_config [OF assms(1) r(1)] r(2,3) assms(5,6) by simp
  then show ?thesis
    using r(1,2) by (auto simp: run_append mode_of_def split: if_splits)
qed

text \<open>
  With the default configuration 800k, 0, 400k, 0, 800k upgrade from LOW to HIGH, although two readings are below every threshold
  and one of the others pays only for MEDIUM.
\<close>

theorem upgrade_streak_not_consecutive_witness:
  "map_option snd (run default_pacer [800000, 0, 400000, 0, 800000])
     = Some [NoChange, NoChange, NoChange, NoChange, ChangeLayer HIGH]"
proof -
  have "mode_of default_pacer = FullVideo LOW" "suspend_streak default_pacer = 0"
    by (simp_all add: mode_of_def default_pacer_def)
  moreover have "climbing (config default_pacer) LOW [800000, 0, 400000, 0]" "pays_more (config default_pacer) LOW 800000"
    "unat (upgrade_streak default_pacer) + length (filter (pays_more (config default_pacer) LOW) [800000, 0, 400000, 0]) + 1
      = unat (cfg_upgrade_streak (config default_pacer))"
    by (simp_all add: climbing_def trailing_def dip_def pays_more_def layer_of_def default_defs rank_def)
  moreover have "layer_of (config default_pacer) 800000 = HIGH" by (simp add: layer_of_def default_defs)
  ultimately show ?thesis
    using upgrade_streak_not_consecutive [OF default_pacer_inv, of LOW "[800000, 0, 400000, 0]" 800000] by auto
qed

section \<open>Progress\<close>

text \<open>
  Downgrades are immediate. A pacer that forwards video on a layer above the one the reading
  pays for (the reading being above the audio-only threshold) changes to exactly that layer in
  this tick, with both streaks cleared.
\<close>

lemma downgrade_is_immediate:
  assumes "pacer_inv p" and "mode_of p = FullVideo l" and "audio_only_bps (config p) \<le> b"
    and "rank (layer_of (config p) b) < rank l"
  shows "update p b = Some (p\<lparr>current_layer := layer_of (config p) b, upgrade_streak := 0,
      suspend_streak := 0\<rparr>, ChangeLayer (layer_of (config p) b))"
proof -
  have "\<not> suspended p" "\<not> audio_only p" "current_layer p = l"
    using assms(2) by (auto simp: mode_of_def split: if_splits)
  moreover have "\<not> b < suspend_video_bps (config p)"
    using assms(1,3) by (auto simp: pacer_inv_def config_ok_iff)
  ultimately show ?thesis
    using assms by (simp add: update_video pacer_inv_def layer_for_bps_layer_of not_less Let_def)
qed

text \<open>A potential that each tick on a certain kind of reading lowers by one.\<close>

lemma run_potential:
  fixes f :: "SubscriberPacer \<Rightarrow> nat"
  assumes "\<And>q b q' a. pacer_inv q \<Longrightarrow> config q = config p \<Longrightarrow> P b \<Longrightarrow> update q b = Some (q', a) \<Longrightarrow>
      f q' = f q - 1"
    and "pacer_inv p" and "run p bs = Some (p', as)" and "\<forall>b \<in> set bs. P b"
  shows "f p' = f p - length bs"
  using assms(3,4)
proof (induction bs arbitrary: p' as rule: rev_induct)
  case (snoc b bs)
  obtain p1 as1 a where r: "run p bs = Some (p1, as1)" "update p1 b = Some (p', a)"
    "pacer_inv p1" "config p1 = config p"
    using run_snocE [OF assms(2) snoc.prems(1)] by metis
  then show ?case
    using snoc.IH [OF r(1)] assms(1) [OF r(3,4) _ r(2)] snoc.prems(2) by simp
qed simp

definition ticks_to_suspend :: "SubscriberPacer \<Rightarrow> nat" where
  "ticks_to_suspend p =
     (if suspended p then 0 else unat (cfg_suspend_streak (config p)) - unat (suspend_streak p))"

definition ticks_to_high :: "SubscriberPacer \<Rightarrow> nat" where
  "ticks_to_high p =
     (let u = unat (cfg_upgrade_streak (config p))
      in if suspended p then 2 + u else if audio_only p then 1 + u
         else if current_layer p = HIGH then 0 else u - unat (upgrade_streak p))"

lemma unat_saturating_Suc_less:
  "a < b \<Longrightarrow> unat (saturating_add a 1) = Suc (unat a)" for a b :: u8
  using unsigned_less [where 'a = nat and w = b] by (simp add: unat_saturating_add word_less_nat_alt)

lemma ticks_to_suspend_step:
  assumes "pacer_inv p" and "update p b = Some (p', a)" and "b < suspend_video_bps (config p)"
  shows "ticks_to_suspend p' = ticks_to_suspend p - 1"
proof -
  have "b < audio_only_bps (config p)"
    using assms(1,3) by (auto simp: pacer_inv_def config_ok_iff)
  moreover have "unat (saturating_add (suspend_streak p) 1) = Suc (unat (suspend_streak p))"
    using assms(1) by (intro unat_saturating_Suc_less) (auto simp: pacer_inv_def)
  ultimately show ?thesis
    using assms
    by (auto simp: update_def Let_def ticks_to_suspend_def word_le_nat_alt pacer_inv_def
        word_less_nat_alt split: if_splits)
qed

lemma high_reading:
  assumes "pacer_inv p" and "high_min_bps (config p) \<le> b"
  shows "layer_of (config p) b = HIGH" and "low_min_bps (config p) \<le> b"
    and "audio_only_bps (config p) \<le> b" and "suspend_video_bps (config p) \<le> b"
  using assms by (auto simp: pacer_inv_def config_ok_iff layer_of_def)

lemma ticks_to_high_step:
  assumes "pacer_inv p" and "update p b = Some (p', a)" and "high_min_bps (config p) \<le> b"
  shows "ticks_to_high p' = ticks_to_high p - 1"
proof (cases "suspended p \<or> audio_only p")
  case True
  with assms high_reading [OF assms(1,3)] show ?thesis
    by (auto simp: update_def Let_def ticks_to_high_def not_less pacer_inv_def split: if_splits)
next
  case False
  have l: "current_layer p = HIGH \<or> rank (current_layer p) < 2" "current_layer p \<in> ladder"
    using assms(1) by (auto simp: pacer_inv_def ladder_def)
  have "unat (saturating_add (upgrade_streak p) 1) = Suc (unat (upgrade_streak p))"
    using assms(1) by (intro unat_saturating_Suc_less) (auto simp: pacer_inv_def)
  with False l assms high_reading [OF assms(1,3)] show ?thesis
    by (auto simp: update_video Let_def ticks_to_high_def not_less layer_for_bps_layer_of
        word_le_nat_alt split: if_splits)
qed

text \<open>
  Congestion always suspends. From any well-formed state, \<open>suspend_streak\<close> (or more) readings
  below the suspend threshold leave the pacer suspended.
\<close>

lemma suspend_is_reached:
  assumes "pacer_inv p" and "\<forall>b \<in> set bs. b < suspend_video_bps (config p)"
    and "unat (cfg_suspend_streak (config p)) \<le> length bs"
  shows "\<exists>p' as. run p bs = Some (p', as) \<and> mode_of p' = Suspended"
proof -
  obtain p' as where r: "run p bs = Some (p', as)" "pacer_inv p'"
    using run_inv [OF assms(1)] by blast
  have "ticks_to_suspend p' = ticks_to_suspend p - length bs"
    using ticks_to_suspend_step by (intro run_potential [OF _ assms(1) r(1) assms(2)]) metis
  also have "\<dots> = 0"
    using assms(3) by (auto simp: ticks_to_suspend_def)
  finally have "suspended p'"
    using r(2) by (auto simp: ticks_to_suspend_def pacer_inv_def word_less_nat_alt split: if_splits)
  with r(1) show ?thesis by (simp add: mode_of_def)
qed

text \<open>
  C30: bandwidth is always used. From any well-formed state, suspended included,
  \<open>upgrade_streak + 2\<close> readings (or more) that pay for HIGH leave the pacer forwarding HIGH.
\<close>

theorem high_is_reached:
  assumes "pacer_inv p" and "\<forall>b \<in> set bs. high_min_bps (config p) \<le> b"
    and "unat (cfg_upgrade_streak (config p)) + 2 \<le> length bs"
  shows "\<exists>p' as. run p bs = Some (p', as) \<and> mode_of p' = FullVideo HIGH"
proof -
  obtain p' as where r: "run p bs = Some (p', as)" "pacer_inv p'"
    using run_inv [OF assms(1)] by blast
  have "ticks_to_high p' = ticks_to_high p - length bs"
    using ticks_to_high_step by (intro run_potential [OF _ assms(1) r(1) assms(2)]) metis
  also have "\<dots> = 0"
    using assms(3) by (auto simp: ticks_to_high_def Let_def)
  finally show ?thesis
    using r by (auto simp: ticks_to_high_def Let_def pacer_inv_def word_less_nat_alt mode_of_def
        split: if_splits)
qed

theorem high_is_reached_witness:
  "\<exists>p' as. run (default_pacer\<lparr>audio_only := True, suspended := True\<rparr>)
      [700000, 700000, 700000, 700000, 700000] = Some (p', as) \<and> mode_of p' = FullVideo HIGH"
proof -
  have "pacer_inv (default_pacer\<lparr>audio_only := True, suspended := True\<rparr>)"
    using default_pacer_inv by (simp add: pacer_inv_def default_pacer_def)
  then show ?thesis
    by (rule high_is_reached) (simp_all add: default_defs)
qed

end
