(* ===== verification/Googcc.thy ===== *)
theory Googcc
  imports Float64
begin

text \<open>
  The GoogCC estimator of \<^verbatim>\<open>src/bwe/googcc\<close>: the trendline delay detector, the AIMD controller and
  their combination. Bitrates are 64-bit words, so the additive increase wraps as in a release
  build; the invariant \<open>aimd_ok\<close> shows that it never does. A release build has no \<^verbatim>\<open>debug_assert!\<close>s and computes
  with NaN and infinite inputs too; in a build with debug assertions such inputs are a panic, and so is an addition
  that overflows: the functions that end in \<open>_debug\<close>, where \<open>None\<close> is the panic.
\<close>

section \<open>AIMD controller (googcc/aimd.rs)\<close>

definition AIMD_LOSS_LOW_THRESHOLD :: f32 where "AIMD_LOSS_LOW_THRESHOLD = rnd32 (5 / 1000)"
definition AIMD_LOSS_HIGH_THRESHOLD :: f32 where "AIMD_LOSS_HIGH_THRESHOLD = rnd32 (2 / 100)"
definition AI_FRACTION :: f64 where "AI_FRACTION = rnd64 (8 / 100)"
definition MD_FACTOR :: f64 where "MD_FACTOR = rnd64 (85 / 100)"

record AimdController =
  aimd_bitrate_bps :: u64
  min_bps :: u64
  max_bps :: u64

definition AimdController_new :: "u64 \<Rightarrow> u64 \<Rightarrow> u64 \<Rightarrow> AimdController" where
  "AimdController_new initial lo hi = \<lparr>aimd_bitrate_bps = initial, min_bps = lo, max_bps = hi\<rparr>"

definition on_overuse :: "AimdController \<Rightarrow> AimdController" where
  "on_overuse c =
     c\<lparr>aimd_bitrate_bps := max (f64_as_u64 (u64_as_f64 (aimd_bitrate_bps c) * MD_FACTOR)) (min_bps c)\<rparr>"

definition update_loss :: "AimdController \<Rightarrow> f32 \<Rightarrow> AimdController" where
  "update_loss c loss_fraction =
     (let loss = clamp (Fin 0) (Fin 1) loss_fraction
      in if loss < AIMD_LOSS_LOW_THRESHOLD then
           let increase = f64_as_u64 (u64_as_f64 (aimd_bitrate_bps c) * AI_FRACTION)
           in c\<lparr>aimd_bitrate_bps := min (aimd_bitrate_bps c + max increase 8000) (max_bps c)\<rparr>
         else if AIMD_LOSS_HIGH_THRESHOLD < loss then
           c\<lparr>aimd_bitrate_bps :=
               max (f64_as_u64 (u64_as_f64 (aimd_bitrate_bps c) * MD_FACTOR)) (min_bps c)\<rparr>
         else c)"

definition update_loss_debug :: "AimdController \<Rightarrow> f32 \<Rightarrow> AimdController option" where
  "update_loss_debug c loss_fraction =
     (if \<not> is_finite loss_fraction then None
      else let loss = clamp (Fin 0) (Fin 1) loss_fraction
           in if loss < AIMD_LOSS_LOW_THRESHOLD then
                let increase = f64_as_u64 (u64_as_f64 (aimd_bitrate_bps c) * AI_FRACTION)
                in if 2 ^ 64 \<le> unat (aimd_bitrate_bps c) + unat (max increase 8000) then None
                   else Some (c\<lparr>aimd_bitrate_bps := min (aimd_bitrate_bps c + max increase 8000) (max_bps c)\<rparr>)
              else if AIMD_LOSS_HIGH_THRESHOLD < loss then
                Some (c\<lparr>aimd_bitrate_bps :=
                          max (f64_as_u64 (u64_as_f64 (aimd_bitrate_bps c) * MD_FACTOR)) (min_bps c)\<rparr>)
              else Some c)"

definition aimd_current :: "AimdController \<Rightarrow> u64" where
  "aimd_current c = aimd_bitrate_bps c"

section \<open>Trendline detector (googcc/trendline.rs)\<close>

definition WINDOW :: nat where "WINDOW = 20"
definition OVERUSE_THRESHOLD :: f64 where "OVERUSE_THRESHOLD = Fin (25 / 2)"

datatype BandwidthState = Underuse | Normal | Overuse

record TrendlineDetector =
  deltas :: "(f64 \<times> f64) list"
  tl_state :: BandwidthState

definition TrendlineDetector_new :: TrendlineDetector where
  "TrendlineDetector_new = \<lparr>deltas = [], tl_state = Normal\<rparr>"

text \<open>The running sums of \<^verbatim>\<open>scan\<close>, then the two accumulators of the regression loop.\<close>

fun accumulate :: "f64 \<Rightarrow> (f64 \<times> f64) list \<Rightarrow> f64 list" where
  "accumulate acc [] = []"
| "accumulate acc ((a, s) # ds) = (let acc = acc + (a - s) in acc # accumulate acc ds)"

fun regression :: "f64 \<Rightarrow> f64 \<Rightarrow> nat \<Rightarrow> f64 list \<Rightarrow> f64 \<times> f64 \<Rightarrow> f64 \<times> f64" where
  "regression x_bar y_bar i [] nd = nd"
| "regression x_bar y_bar i (y # ys) (num, den) =
     (let x = usize_as_f64 i
      in regression x_bar y_bar (Suc i) ys
           (num + (x - x_bar) * (y - y_bar), den + (x - x_bar) * (x - x_bar)))"

definition trendline_slope :: "TrendlineDetector \<Rightarrow> f64" where
  "trendline_slope t =
     (let n = usize_as_f64 (length (deltas t));
          accumulated = accumulate (Fin 0) (deltas t);
          x_bar = (n - Fin 1) / Fin 2;
          y_bar = foldl (+) (Fin 0) accumulated / n;
          (num, den) = regression x_bar y_bar 0 accumulated (Fin 0, Fin 0)
      in if \<bar>den\<bar> < rnd64 (1 / 10000000000) then Fin 0 else num / den)"

definition trend_push :: "(f64 \<times> f64) list \<Rightarrow> f64 \<times> f64 \<Rightarrow> (f64 \<times> f64) list" where
  "trend_push w x = (if WINDOW \<le> length w then tl w else w) @ [x]"

definition TrendlineDetector_update :: "TrendlineDetector \<Rightarrow> f64 \<Rightarrow> f64 \<Rightarrow> TrendlineDetector" where
  "TrendlineDetector_update t arrival_delta_ms send_delta_ms =
     (let t = t\<lparr>deltas := trend_push (deltas t) (arrival_delta_ms, send_delta_ms)\<rparr>
      in if length (deltas t) < 3 then t
         else let slope = trendline_slope t
              in t\<lparr>tl_state := if OVERUSE_THRESHOLD < slope then Overuse
                              else if slope < - OVERUSE_THRESHOLD then Underuse else Normal\<rparr>)"

definition overuse :: "TrendlineDetector \<Rightarrow> bool" where
  "overuse t \<longleftrightarrow> tl_state t = Overuse"

section \<open>The estimator (googcc/mod.rs)\<close>

definition GOOGCC_INITIAL_BPS :: u64 where "GOOGCC_INITIAL_BPS = 500000"
definition GOOGCC_MIN_BPS :: u64 where "GOOGCC_MIN_BPS = 100000"
definition GOOGCC_MAX_BPS :: u64 where "GOOGCC_MAX_BPS = 2500000"

record GoogCcEstimator =
  trendline :: TrendlineDetector
  aimd :: AimdController
  last_arrival_ms :: "f64 option"
  last_send_ms :: "f64 option"

definition GoogCc_with_bounds :: "u64 \<Rightarrow> u64 \<Rightarrow> u64 \<Rightarrow> GoogCcEstimator" where
  "GoogCc_with_bounds initial lo hi =
     \<lparr>trendline = TrendlineDetector_new, aimd = AimdController_new initial lo hi,
      last_arrival_ms = None, last_send_ms = None\<rparr>"

definition GoogCcEstimator_new :: GoogCcEstimator where
  "GoogCcEstimator_new = GoogCc_with_bounds GOOGCC_INITIAL_BPS GOOGCC_MIN_BPS GOOGCC_MAX_BPS"

definition on_receive :: "GoogCcEstimator \<Rightarrow> f64 \<Rightarrow> f64 \<Rightarrow> f32 \<Rightarrow> GoogCcEstimator \<times> u64" where
  "on_receive g arrival_ms send_ms loss_fraction =
     (let stamp = (\<lambda>g. g\<lparr>last_arrival_ms := Some arrival_ms, last_send_ms := Some send_ms\<rparr>);
          loss = (\<lambda>g. let g = stamp g; g = g\<lparr>aimd := update_loss (aimd g) loss_fraction\<rparr>
                     in (g, aimd_current (aimd g)))
      in case (last_arrival_ms g, last_send_ms g) of
           (Some la, Some ls) \<Rightarrow>
             (let g = g\<lparr>trendline := TrendlineDetector_update (trendline g) (arrival_ms - la) (send_ms - ls)\<rparr>
              in if overuse (trendline g) then
                   let g = stamp g; g = g\<lparr>aimd := on_overuse (aimd g)\<rparr>
                   in (g, aimd_current (aimd g))
                 else loss g)
         | _ \<Rightarrow> loss g)"

definition on_receive_debug :: "GoogCcEstimator \<Rightarrow> f64 \<Rightarrow> f64 \<Rightarrow> f32 \<Rightarrow> (GoogCcEstimator \<times> u64) option" where
  "on_receive_debug g arrival_ms send_ms loss_fraction =
     (let stamp = (\<lambda>g. g\<lparr>last_arrival_ms := Some arrival_ms, last_send_ms := Some send_ms\<rparr>);
          loss = (\<lambda>g. let g = stamp g
                     in map_option (\<lambda>c. (g\<lparr>aimd := c\<rparr>, aimd_current c)) (update_loss_debug (aimd g) loss_fraction))
      in if \<not> (is_finite arrival_ms \<and> is_finite send_ms) then None
         else if \<not> (is_finite loss_fraction \<and> Fin 0 \<le> loss_fraction \<and> loss_fraction \<le> Fin 1) then None
         else case (last_arrival_ms g, last_send_ms g) of
           (Some la, Some ls) \<Rightarrow>
             (let g = g\<lparr>trendline := TrendlineDetector_update (trendline g) (arrival_ms - la) (send_ms - ls)\<rparr>
              in if overuse (trendline g) then
                   let g = stamp g; g = g\<lparr>aimd := on_overuse (aimd g)\<rparr>
                   in Some (g, aimd_current (aimd g))
                 else loss g)
         | _ \<Rightarrow> loss g)"

definition googcc_current_bps :: "GoogCcEstimator \<Rightarrow> u64" where
  "googcc_current_bps g = aimd_current (aimd g)"

definition force_bps_for_tests :: "GoogCcEstimator \<Rightarrow> u64 \<Rightarrow> GoogCcEstimator" where
  "force_bps_for_tests g bps = g\<lparr>aimd := AimdController_new bps GOOGCC_MIN_BPS GOOGCC_MAX_BPS\<rparr>"

interpretation trend_win: sliding_window WINDOW trend_push
  by unfold_locales (auto simp: trend_push_def WINDOW_def)

section \<open>AIMD: bounds without wrap-around\<close>

definition aimd_ok :: "AimdController \<Rightarrow> bool" where
  "aimd_ok c \<longleftrightarrow> min_bps c \<le> aimd_bitrate_bps c \<and> aimd_bitrate_bps c \<le> max_bps c
     \<and> unat (max_bps c) \<le> 2 ^ 53"

text \<open>Scaling a bitrate by a factor in \<open>[0, 1]\<close> in double precision never exceeds it.\<close>

lemma scale_le:
  assumes "unat b \<le> 2 ^ 53" and "0 \<le> f" and "f \<le> 1"
  shows "f64_as_u64 (u64_as_f64 b * rnd64 f) \<le> b"
proof -
  obtain d where d: "rnd64 f = Fin d" "0 \<le> d" "d \<le> 1"
    using rnd64_between [of 0 f 1] assms(2,3) by auto
  have b: "(of_nat (unat b) :: rat) \<le> 2 ^ 1023" and r: "repr64 (of_nat (unat b))"
  proof -
    have "(of_nat (unat b) :: rat) \<le> of_nat (2 ^ 53)" using assms(1) by (simp only: of_nat_le_iff)
    also have "\<dots> \<le> 2 ^ 1023" by simp
    finally show "(of_nat (unat b) :: rat) \<le> 2 ^ 1023" .
    show "repr64 (of_nat (unat b))" using repr_int [of "int (unat b)" 53 "- 1074"] assms(1) by simp
  qed
  have "of_nat (unat b) * d \<le> (of_nat (unat b) :: rat)" using d by (simp add: mult_left_le)
  then have "rnd64 (of_nat (unat b) * d) \<le> Fin (of_nat (unat b))"
    using b r by (intro rnd64_le) simp_all
  then have "f64_as_u64 (u64_as_f64 b * rnd64 f) \<le> f64_as_u64 (Fin (of_nat (unat b)))"
    using d assms(1) by (intro f64_as_u64_mono) (simp add: u64_as_f64_exact)
  also have "\<dots> = b" using assms(1) by (subst f64_as_u64_of_nat) (simp_all add: of_nat_unat)
  finally show ?thesis .
qed

lemma bitrate_small: "aimd_ok c \<Longrightarrow> unat (aimd_bitrate_bps c) \<le> 2 ^ 53"
  by (auto simp: aimd_ok_def word_le_nat_alt)

lemma decreased_bitrate:
  assumes "aimd_ok c"
  shows "max (f64_as_u64 (u64_as_f64 (aimd_bitrate_bps c) * MD_FACTOR)) (min_bps c) \<le> aimd_bitrate_bps c"
  using scale_le [OF bitrate_small [OF assms], of "85 / 100"] assms
  by (simp add: MD_FACTOR_def aimd_ok_def)

text \<open>The increase does not wrap and is at least 8 kbit/s up to the ceiling.\<close>

lemma increased_bitrate:
  assumes "aimd_ok c"
  defines "b \<equiv> aimd_bitrate_bps c"
  shows "unat (b + max (f64_as_u64 (u64_as_f64 b * AI_FRACTION)) 8000)
    = unat b + unat (max (f64_as_u64 (u64_as_f64 b * AI_FRACTION)) 8000)"
proof -
  let ?i = "f64_as_u64 (u64_as_f64 b * AI_FRACTION)"
  have b: "unat b \<le> 2 ^ 53" using bitrate_small [OF assms(1)] by (simp add: b_def)
  have "?i \<le> b" using scale_le [OF b, of "8 / 100"] by (simp add: AI_FRACTION_def)
  then have "unat (max ?i 8000) \<le> 2 ^ 53" using b by (auto simp: word_le_nat_alt max_def)
  with b have "unat b + unat (max ?i 8000) < 2 ^ 64" by simp
  then show ?thesis by (simp add: unat_word_ariths)
qed

lemma increased_bitrate_ge:
  "aimd_ok c \<Longrightarrow> aimd_bitrate_bps c
     \<le> aimd_bitrate_bps c + max (f64_as_u64 (u64_as_f64 (aimd_bitrate_bps c) * AI_FRACTION)) 8000"
  by (simp add: word_le_nat_alt increased_bitrate)

lemma on_overuse_ok: "aimd_ok c \<Longrightarrow> aimd_ok (on_overuse c)"
  using decreased_bitrate [of c] by (auto simp: on_overuse_def aimd_ok_def)

lemma update_loss_ok: "aimd_ok c \<Longrightarrow> aimd_ok (update_loss c l)"
  using decreased_bitrate [of c] increased_bitrate_ge [of c]
  by (auto simp: update_loss_def aimd_ok_def Let_def)

lemma aimd_limits [simp]:
  "min_bps (on_overuse c) = min_bps c" "max_bps (on_overuse c) = max_bps c"
  "min_bps (update_loss c l) = min_bps c" "max_bps (update_loss c l) = max_bps c"
  by (simp_all add: on_overuse_def update_loss_def Let_def)

section \<open>The estimator keeps its bounds\<close>

lemma on_receive_aimd:
  "aimd (fst (on_receive g a s l)) \<in> {update_loss (aimd g) l, on_overuse (aimd g)}"
  "snd (on_receive g a s l) = googcc_current_bps (fst (on_receive g a s l))"
  by (auto simp: on_receive_def Let_def googcc_current_bps_def split: option.splits)

lemma on_receive_ok:
  assumes "aimd_ok (aimd g)"
  shows "aimd_ok (aimd (fst (on_receive g a s l)))"
    and "min_bps (aimd (fst (on_receive g a s l))) = min_bps (aimd g)"
    and "max_bps (aimd (fst (on_receive g a s l))) = max_bps (aimd g)"
  using on_receive_aimd(1) [of g a s l] assms by (auto simp: on_overuse_ok update_loss_ok)

text \<open>A sequence of packets: arrival time, send time, loss fraction.\<close>

definition receive_all :: "GoogCcEstimator \<Rightarrow> (f64 \<times> f64 \<times> f32) list \<Rightarrow> GoogCcEstimator" where
  "receive_all = foldl (\<lambda>g (a, s, l). fst (on_receive g a s l))"

lemma receive_all_ok:
  assumes "aimd_ok (aimd g)"
  shows "aimd_ok (aimd (receive_all g ps)) \<and> min_bps (aimd (receive_all g ps)) = min_bps (aimd g)
    \<and> max_bps (aimd (receive_all g ps)) = max_bps (aimd g)"
proof (induction ps rule: rev_induct)
  case (snoc x xs)
  then show ?case
    using on_receive_ok [of "receive_all g xs"]
    by (simp add: receive_all_def case_prod_unfold)
qed (simp add: receive_all_def assms)

text \<open>
  The build with debug assertions: on inputs that satisfy them it does what a release build does, since the increase
  never overflows; on any other input it panics.
\<close>

definition receive_ok :: "f64 \<times> f64 \<times> f32 \<Rightarrow> bool" where
  "receive_ok p \<longleftrightarrow> (case p of (a, s, l) \<Rightarrow>
     is_finite a \<and> is_finite s \<and> is_finite l \<and> Fin 0 \<le> l \<and> l \<le> Fin 1)"

fun receive_all_debug :: "GoogCcEstimator \<Rightarrow> (f64 \<times> f64 \<times> f32) list \<Rightarrow> GoogCcEstimator option" where
  "receive_all_debug g [] = Some g"
| "receive_all_debug g ((a, s, l) # ps) =
     (case on_receive_debug g a s l of None \<Rightarrow> None | Some (g, _) \<Rightarrow> receive_all_debug g ps)"

lemma no_overflow:
  assumes "aimd_ok c"
  shows "unat (aimd_bitrate_bps c) + unat (max (f64_as_u64 (u64_as_f64 (aimd_bitrate_bps c) * AI_FRACTION)) 8000) < 2 ^ 64"
  using increased_bitrate [OF assms]
    unsigned_less [of "aimd_bitrate_bps c + max (f64_as_u64 (u64_as_f64 (aimd_bitrate_bps c) * AI_FRACTION)) 8000", where 'a = nat]
  by simp

lemma update_loss_debug_eq: "aimd_ok c \<Longrightarrow> is_finite l \<Longrightarrow> update_loss_debug c l = Some (update_loss c l)"
  using no_overflow [of c] by (simp add: update_loss_debug_def update_loss_def Let_def not_le [symmetric])

lemma on_receive_debug_eq:
  assumes "aimd_ok (aimd g)"
  shows "on_receive_debug g a s l = (if receive_ok (a, s, l) then Some (on_receive g a s l) else None)"
proof (cases "receive_ok (a, s, l)")
  case True
  then have "is_finite l" by (simp add: receive_ok_def)
  with True assms show ?thesis
    by (auto simp: receive_ok_def on_receive_debug_def on_receive_def Let_def update_loss_debug_eq split: option.splits)
qed (auto simp: receive_ok_def on_receive_debug_def Let_def)

lemma receive_all_debug_eq:
  "aimd_ok (aimd g) \<Longrightarrow>
     receive_all_debug g ps = (if list_all receive_ok ps then Some (receive_all g ps) else None)"
proof (induction g ps rule: receive_all_debug.induct)
  case (2 g a s l ps)
  obtain g' b where g': "on_receive g a s l = (g', b)" by fastforce
  then have "aimd_ok (aimd g')" using on_receive_ok(1) [OF "2.prems", of a s l] by simp
  with 2 g' show ?case by (simp add: on_receive_debug_eq receive_all_def)
qed (simp add: receive_all_def)

text \<open>
  C32: the GoogCC target always lies between 100 kbit/s and 2.5 Mbit/s. In a release build, whatever timestamps and loss
  fractions a fresh estimator has been given (NaN and infinities included), the estimate is within its bounds and
  the next additive increase does not overflow 64 bits, so the arithmetic never wraps around. A build with
  debug assertions ends in the same state when all inputs were finite and all losses between 0 and 1, and
  panics otherwise, never because of an overflow.
\<close>

theorem googcc_bounded:
  "case receive_all GoogCcEstimator_new ps of g \<Rightarrow>
     100000 \<le> googcc_current_bps g \<and> googcc_current_bps g \<le> 2500000
     \<and> unat (googcc_current_bps g) + unat (max (f64_as_u64 (u64_as_f64 (googcc_current_bps g) * AI_FRACTION)) 8000) < 2 ^ 64
     \<and> receive_all_debug GoogCcEstimator_new ps
         = (if list_all (\<lambda>(a, s, l). is_finite a \<and> is_finite s \<and> is_finite l \<and> Fin 0 \<le> l \<and> l \<le> Fin 1) ps
            then Some g else None)"
proof -
  have new: "aimd_ok (aimd GoogCcEstimator_new)" "min_bps (aimd GoogCcEstimator_new) = 100000"
    "max_bps (aimd GoogCcEstimator_new) = 2500000"
    by (simp_all add: GoogCcEstimator_new_def GoogCc_with_bounds_def AimdController_new_def
        aimd_ok_def GOOGCC_INITIAL_BPS_def GOOGCC_MIN_BPS_def GOOGCC_MAX_BPS_def)
  have "receive_ok = (\<lambda>(a, s, l). is_finite a \<and> is_finite s \<and> is_finite l \<and> Fin 0 \<le> l \<and> l \<le> Fin 1)"
    by (simp add: receive_ok_def fun_eq_iff)
  with new receive_all_ok [OF new(1), of ps] no_overflow [of "aimd (receive_all GoogCcEstimator_new ps)"]
    receive_all_debug_eq [OF new(1), of ps] show ?thesis
    by (auto simp: aimd_ok_def googcc_current_bps_def aimd_current_def)
qed

section \<open>Recovery and back-off\<close>

text \<open>A loss report below 0.5 percent, as the controller compares it.\<close>

definition low_loss :: "f32 \<Rightarrow> bool" where
  "low_loss l \<longleftrightarrow> clamp (Fin 0) (Fin 1) l < AIMD_LOSS_LOW_THRESHOLD"

lemma update_loss_increase:
  assumes "aimd_ok c" and "low_loss l"
  shows "min (unat (aimd_bitrate_bps c) + 8000) (unat (max_bps c))
    \<le> unat (aimd_bitrate_bps (update_loss c l))"
proof -
  let ?i = "max (f64_as_u64 (u64_as_f64 (aimd_bitrate_bps c) * AI_FRACTION)) 8000"
  have "(8000 :: u64) \<le> ?i" by simp
  then have "unat (8000 :: u64) \<le> unat ?i" by (simp only: word_le_nat_alt)
  moreover have "update_loss c l = c\<lparr>aimd_bitrate_bps := min (aimd_bitrate_bps c + ?i) (max_bps c)\<rparr>"
    using assms(2) by (simp add: update_loss_def low_loss_def Let_def)
  ultimately show ?thesis
    using increased_bitrate [OF assms(1)] by (simp add: min_def word_le_nat_alt)
qed

text \<open>
  C33: a clean link recovers. Take a controller whose target lies between its floor and its ceiling, the ceiling
  being at most \<open>2^53\<close> (which every estimator keeps). After \<open>n\<close> loss reports below 0.5% the target has risen by
  at least \<open>8000 n\<close> bit/s or reached the ceiling; from the floor of 100 kbit/s, 300 reports always suffice
  for the 2.5 Mbit/s ceiling.
\<close>

theorem aimd_recovers:
  assumes "aimd_ok c" and "\<forall>l \<in> set ls. low_loss l"
  shows "min (unat (aimd_bitrate_bps c) + 8000 * length ls) (unat (max_bps c))
    \<le> unat (aimd_bitrate_bps (foldl update_loss c ls))"
proof -
  have "aimd_ok (foldl update_loss c ls) \<and> max_bps (foldl update_loss c ls) = max_bps c
    \<and> min (unat (aimd_bitrate_bps c) + 8000 * length ls) (unat (max_bps c))
      \<le> unat (aimd_bitrate_bps (foldl update_loss c ls))"
    using assms(2)
  proof (induction ls rule: rev_induct)
    case (snoc l ls)
    then show ?case
      using update_loss_increase [of "foldl update_loss c ls" l] update_loss_ok
      by (auto simp: min_def split: if_splits)
  qed (use assms(1) in auto)
  then show ?thesis by blast
qed

lemma low_loss_zero: "low_loss (Fin 0)"
proof -
  have "rnd32 (pow2 (- 8)) \<le> rnd32 (5 / 1000)" by (rule rnd_mono) (simp_all add: pow2_def)
  moreover have "rnd32 (pow2 (- 8)) = Fin (pow2 (- 8))"
    using rnd_Fin [of "pow2 (- 8)" 0 128 "- 149" 24] rq_exact [OF repr_pow2 [of "- 149" "- 8" 24]]
    by (simp add: pow2_def)
  ultimately show ?thesis
    by (cases "rnd32 (5 / 1000)")
       (auto simp: low_loss_def clamp_def AIMD_LOSS_LOW_THRESHOLD_def pow2_def split: if_splits)
qed

theorem aimd_recovers_witness:
  "2500000 \<le> unat (aimd_bitrate_bps (foldl update_loss (AimdController_new 100000 100000 2500000)
     (replicate 300 (Fin 0))))"
  using aimd_recovers [of "AimdController_new 100000 100000 2500000" "replicate 300 (Fin 0)"]
  by (simp add: AimdController_new_def aimd_ok_def low_loss_zero)

section \<open>A stable link is not congested\<close>

text \<open>Zero or NaN: what sums and products with zero can give.\<close>

definition nil :: "f64 \<Rightarrow> bool" where
  "nil x \<longleftrightarrow> x = Fin 0 \<or> x = NaN"

lemma nil_plus [intro]: "nil x \<Longrightarrow> nil y \<Longrightarrow> nil (x + y)"
  by (auto simp: nil_def)

lemma nil_minus [intro]: "nil x \<Longrightarrow> nil y \<Longrightarrow> nil (x - y)"
  by (auto simp: nil_def minus_flt_def)

lemma nil_times [intro]: "nil y \<Longrightarrow> nil (x * y)"
  by (cases x) (auto simp: nil_def)

lemma nil_divide [intro]: "nil x \<Longrightarrow> nil (x / y)"
  by (cases y) (auto simp: nil_def)

lemma nil_zero [intro, simp]: "nil (Fin 0)"
  by (simp add: nil_def)

lemma nil_self_minus: "is_finite x \<Longrightarrow> nil (x - x)"
  by (cases x) (auto simp: nil_def minus_flt_def is_finite_def)

lemma nil_not_beyond: "nil x \<Longrightarrow> \<not> OVERUSE_THRESHOLD < x \<and> \<not> x < - OVERUSE_THRESHOLD"
  by (auto simp: nil_def OVERUSE_THRESHOLD_def)

definition steady :: "f64 \<times> f64 \<Rightarrow> bool" where
  "steady d \<longleftrightarrow> fst d = snd d \<and> is_finite (fst d)"

lemma nil_steady: "steady (a, s) \<Longrightarrow> nil (a - s)"
  by (auto simp: steady_def intro: nil_self_minus)

lemma nil_accumulate: "nil acc \<Longrightarrow> \<forall>d \<in> set ds. steady d \<Longrightarrow> \<forall>y \<in> set (accumulate acc ds). nil y"
  by (induction acc ds rule: accumulate.induct)
     (simp_all add: Let_def nil_plus nil_steady)

lemma nil_sum: "nil acc \<Longrightarrow> \<forall>y \<in> set ys. nil y \<Longrightarrow> nil (foldl (+) acc ys)"
  by (induction ys arbitrary: acc) auto

lemma nil_regression:
  "\<forall>y \<in> set ys. nil y \<Longrightarrow> nil y_bar \<Longrightarrow> nil (fst nd) \<Longrightarrow> nil (fst (regression x_bar y_bar i ys nd))"
  by (induction x_bar y_bar i ys nd rule: regression.induct) (auto simp: Let_def)

lemma steady_slope: assumes "\<forall>d \<in> set (deltas t). steady d" shows "nil (trendline_slope t)"
proof -
  let ?acc = "accumulate (Fin 0) (deltas t)"
  have acc: "\<forall>y \<in> set ?acc. nil y" using nil_accumulate [OF nil_zero assms] .
  then have "nil (foldl (+) (Fin 0) ?acc)" by (intro nil_sum) simp
  with acc have "nil (fst (regression x_bar (foldl (+) (Fin 0) ?acc / n) 0 ?acc (Fin 0, Fin 0)))" for x_bar n
    by (intro nil_regression) auto
  then show ?thesis by (auto simp: trendline_slope_def Let_def case_prod_unfold)
qed

lemma steady_update:
  assumes "\<forall>d \<in> set (deltas t). steady d" and "tl_state t = Normal" and "steady (a, s)"
  shows "tl_state (TrendlineDetector_update t a s) = Normal
    \<and> (\<forall>d \<in> set (deltas (TrendlineDetector_update t a s)). steady d)"
proof -
  have w: "\<forall>e \<in> set (trend_push (deltas t) (a, s)). steady e"
    using assms by (auto simp: trend_push_def dest: in_set_tl)
  have "nil (trendline_slope (t\<lparr>deltas := trend_push (deltas t) (a, s)\<rparr>))"
    using w by (intro steady_slope) simp
  then show ?thesis
    using assms w nil_not_beyond by (simp add: TrendlineDetector_update_def Let_def)
qed

text \<open>
  C34: a stable link is never reported as congested or underused. As long as every packet's arrival
  spacing equals its send spacing (any finite values), the detector stays in \<open>Normal\<close>, so the
  estimator never backs off on delay.
\<close>

theorem steady_link_normal:
  assumes "\<forall>d \<in> set ds. steady d"
  shows "tl_state (foldl (\<lambda>t (a, s). TrendlineDetector_update t a s) TrendlineDetector_new ds) = Normal"
proof -
  let ?run = "foldl (\<lambda>t (a, s). TrendlineDetector_update t a s) TrendlineDetector_new"
  have "tl_state (?run ds) = Normal \<and> (\<forall>d \<in> set (deltas (?run ds)). steady d)"
    using assms
  proof (induction ds rule: rev_induct)
    case (snoc d ds)
    then show ?case
      using steady_update [of "?run ds" "fst d" "snd d"] by (simp add: case_prod_unfold)
  qed (simp add: TrendlineDetector_new_def)
  then show ?thesis by blast
qed

theorem steady_link_normal_witness:
  "tl_state (foldl (\<lambda>t (a, s). TrendlineDetector_update t a s) TrendlineDetector_new
     (replicate 25 (Fin 20, Fin 20))) = Normal"
  by (rule steady_link_normal) (simp add: steady_def is_finite_def)

end
