(* ===== verification/Bandwidth.thy ===== *)
theory Bandwidth
  imports Kalman Googcc Ids
begin

text \<open>
  The per-room bandwidth estimator: \<^verbatim>\<open>src/bwe/subscriber.rs\<close> (the state of one subscriber and the
  minimum over its ceilings), \<^verbatim>\<open>src/bwe/feedback.rs\<close> (TWCC batches) and \<^verbatim>\<open>src/bwe/estimator.rs\<close> (the
  map of subscribers). The locale \<open>keyed_store\<close> states the contract of that map; its projection
  lemma says that a subscriber's state depends on the operations on that subscriber only.
\<close>

section \<open>One subscriber (bwe/subscriber.rs)\<close>

definition INITIAL_BITRATE_BPS :: f64 where "INITIAL_BITRATE_BPS = Fin 300000"
definition CLIENT_HINT_MAX_AGE :: duration where "CLIENT_HINT_MAX_AGE = from_secs 5"

record ClientHint =
  hint_bps :: u64
  received_at :: instant

datatype BindingTerm = Delay | Loss | Native | GoogCc | ClientHintTerm

definition BindingTerm_ALL :: "BindingTerm list" where
  "BindingTerm_ALL = [Delay, Loss, Native, GoogCc, ClientHintTerm]"

fun BindingTerm_as_str :: "BindingTerm \<Rightarrow> string" where
  "BindingTerm_as_str Delay = ''delay''"
| "BindingTerm_as_str Loss = ''loss''"
| "BindingTerm_as_str Native = ''native''"
| "BindingTerm_as_str GoogCc = ''googcc''"
| "BindingTerm_as_str ClientHintTerm = ''client_hint''"

text \<open>The inner function \<^verbatim>\<open>min_update\<close>, on the pair of its two mutable references.\<close>

definition min_update :: "f64 \<times> BindingTerm \<Rightarrow> f64 \<Rightarrow> BindingTerm \<Rightarrow> f64 \<times> BindingTerm" where
  "min_update bt cand cand_term =
     (case bt of (best, t) \<Rightarrow> if is_nan best \<or> cand < best then (cand, cand_term) else (best, t))"

definition combine_terms ::
    "f64 \<Rightarrow> f64 \<Rightarrow> f64 option \<Rightarrow> f64 option \<Rightarrow> f64 option \<Rightarrow> f64 \<times> BindingTerm" where
  "combine_terms delay loss native googcc hint =
     (let bt = (delay, Delay);
          bt = min_update bt loss Loss;
          bt = (case native of Some n \<Rightarrow> min_update bt n Native | None \<Rightarrow> bt);
          bt = (case googcc of Some g \<Rightarrow> min_update bt g GoogCc | None \<Rightarrow> bt);
          bt = (case hint of Some h \<Rightarrow> min_update bt h ClientHintTerm | None \<Rightarrow> bt)
      in (fmax (fst bt) (Fin 0), snd bt))"

text \<open>The formula before the refactoring, which the unit tests keep as a reference.\<close>

definition old_min_chain :: "f64 \<Rightarrow> f64 \<Rightarrow> f64 option \<Rightarrow> f64 option \<Rightarrow> f64 option \<Rightarrow> f64" where
  "old_min_chain delay loss native googcc hint =
     (let base = fmin delay loss;
          after_native = (case native of Some n \<Rightarrow> fmin base n | None \<Rightarrow> base);
          after_gcc = (case googcc of Some g \<Rightarrow> fmin after_native g | None \<Rightarrow> after_native);
          after_hint = (case hint of Some h \<Rightarrow> fmin after_gcc h | None \<Rightarrow> after_gcc)
      in fmax after_hint (Fin 0))"

record PerSubscriber =
  send_times :: "(u64 \<times> instant) list"
  last_arrival :: "instant option"
  last_send_for_received :: "instant option"
  sub_delay :: DelayEstimator
  sub_loss :: LossEstimator
  sub_rtt :: "duration option"
  native_estimate_bps :: "f64 option"
  client_hint :: "ClientHint option"
  googcc :: "GoogCcEstimator option"

definition PerSubscriber_new :: PerSubscriber where
  "PerSubscriber_new =
     \<lparr>send_times = [], last_arrival = None, last_send_for_received = None,
      sub_delay = DelayEstimator_new INITIAL_BITRATE_BPS,
      sub_loss = LossEstimator_new INITIAL_BITRATE_BPS,
      sub_rtt = None, native_estimate_bps = None, client_hint = None, googcc = None\<rparr>"

definition googcc_active :: "PerSubscriber \<Rightarrow> bool" where
  "googcc_active s \<longleftrightarrow> googcc s \<noteq> None"

definition combined_bps_with_term :: "PerSubscriber \<Rightarrow> instant \<Rightarrow> f64 \<times> BindingTerm" where
  "combined_bps_with_term s now =
     (let gcc = map_option (\<lambda>g. u64_as_f64 (googcc_current_bps g)) (googcc s);
          hint = (case client_hint s of
                    Some h \<Rightarrow> if duration_since now (received_at h) < CLIENT_HINT_MAX_AGE
                             then Some (u64_as_f64 (hint_bps h)) else None
                  | None \<Rightarrow> None)
      in combine_terms (delay_bitrate_bps (sub_delay s)) (loss_bitrate_bps (sub_loss s))
           (native_estimate_bps s) gcc hint)"

definition combined_bps :: "PerSubscriber \<Rightarrow> instant \<Rightarrow> f64" where
  "combined_bps s now = fst (combined_bps_with_term s now)"

section \<open>TWCC feedback (bwe/feedback.rs)\<close>

record TwccSample =
  sample_seq :: u64
  sample_arrival :: "instant option"

type_synonym TwccFeedback = "TwccSample list"

text \<open>The body of the loop over the samples of a report.\<close>

definition ingest_sample :: "PerSubscriber \<Rightarrow> TwccSample \<Rightarrow> PerSubscriber" where
  "ingest_sample s sample =
     (let s = s\<lparr>sub_loss := loss_record (sub_loss s) (sample_arrival sample \<noteq> None)\<rparr>
      in case sample_arrival sample of
           None \<Rightarrow> s
         | Some arrival \<Rightarrow>
             (case map_of (send_times s) (sample_seq sample) of
                None \<Rightarrow> s
              | Some send_t \<Rightarrow>
                  let s = (case (last_arrival s, last_send_for_received s) of
                             (Some prev_arr, Some prev_send) \<Rightarrow>
                               let recv_delta_us = usize_as_f64 (as_micros (duration_since arrival prev_arr));
                                   send_delta_us = usize_as_f64 (as_micros (duration_since send_t prev_send));
                                   gradient_us = recv_delta_us - send_delta_us
                               in s\<lparr>sub_delay := update_kalman (sub_delay s) gradient_us\<rparr>
                           | _ \<Rightarrow> s)
                  in s\<lparr>last_arrival := Some arrival, last_send_for_received := Some send_t,
                       sub_rtt := Some (duration_since arrival send_t * 2)\<rparr>))"

definition ingest_twcc :: "PerSubscriber \<Rightarrow> TwccFeedback \<Rightarrow> instant \<Rightarrow> PerSubscriber" where
  "ingest_twcc s feedback now =
     (let s = foldl ingest_sample s feedback
      in s\<lparr>sub_delay := delay_apply_rate_control (sub_delay s) now,
           sub_loss := loss_apply_rate_control (sub_loss s) now\<rparr>)"

section \<open>The estimator (bwe/estimator.rs)\<close>

type_synonym BandwidthEstimator = "(client_id \<times> PerSubscriber) list"

definition BandwidthEstimator_new :: BandwidthEstimator where
  "BandwidthEstimator_new = []"

text \<open>
  \<^verbatim>\<open>get_or_insert\<close> returns a mutable reference; \<open>with_subscriber\<close> applies to it what the caller does
  through that reference.
\<close>

definition get_or_insert :: "BandwidthEstimator \<Rightarrow> client_id \<Rightarrow> PerSubscriber" where
  "get_or_insert e k = (case map_of e k of Some s \<Rightarrow> s | None \<Rightarrow> PerSubscriber_new)"

definition with_subscriber ::
    "BandwidthEstimator \<Rightarrow> client_id \<Rightarrow> (PerSubscriber \<Rightarrow> PerSubscriber) \<Rightarrow> BandwidthEstimator" where
  "with_subscriber e k f = AList.update k (f (get_or_insert e k)) e"

definition record_native_estimate :: "BandwidthEstimator \<Rightarrow> client_id \<Rightarrow> f64 \<Rightarrow> BandwidthEstimator" where
  "record_native_estimate e k bps = with_subscriber e k (\<lambda>s. s\<lparr>native_estimate_bps := Some bps\<rparr>)"

definition record_client_hint :: "BandwidthEstimator \<Rightarrow> client_id \<Rightarrow> u64 \<Rightarrow> instant \<Rightarrow> BandwidthEstimator" where
  "record_client_hint e k bps now =
     with_subscriber e k (\<lambda>s. s\<lparr>client_hint := Some \<lparr>hint_bps = bps, received_at = now\<rparr>\<rparr>)"

definition estimate_bps :: "BandwidthEstimator \<Rightarrow> client_id \<Rightarrow> instant \<Rightarrow> u64 option" where
  "estimate_bps e k now = map_option (\<lambda>s. f64_as_u64 (combined_bps s now)) (map_of e k)"

definition estimate_with_term :: "BandwidthEstimator \<Rightarrow> client_id \<Rightarrow> instant \<Rightarrow> (u64 \<times> BindingTerm) option" where
  "estimate_with_term e k now =
     map_option (\<lambda>s. case combined_bps_with_term s now of (bps, t) \<Rightarrow> (f64_as_u64 bps, t)) (map_of e k)"

definition est_reap_dead :: "BandwidthEstimator \<Rightarrow> client_id \<Rightarrow> BandwidthEstimator" where
  "est_reap_dead e k = AList.delete k e"

definition googcc_coverage :: "BandwidthEstimator \<Rightarrow> nat \<times> nat" where
  "googcc_coverage e = (length (filter (\<lambda>(_, s). googcc_active s) e), length e)"

definition force_high_estimate_for_tests :: "BandwidthEstimator \<Rightarrow> client_id \<Rightarrow> f64 \<Rightarrow> BandwidthEstimator" where
  "force_high_estimate_for_tests e k bps =
     with_subscriber e k (\<lambda>s. s\<lparr>sub_delay := DelayEstimator_new bps, sub_loss := LossEstimator_new bps,
        native_estimate_bps := None\<rparr>)"

definition enable_googcc_for_subscriber :: "BandwidthEstimator \<Rightarrow> client_id \<Rightarrow> BandwidthEstimator" where
  "enable_googcc_for_subscriber e k =
     with_subscriber e k (\<lambda>s. if googcc s = None then s\<lparr>googcc := Some GoogCcEstimator_new\<rparr> else s)"

text \<open>
  The mutable accessor, with what the caller does to the estimator it yields: nothing happens when
  the subscriber is unknown or has no GoogCC estimator.
\<close>

definition googcc_for_subscriber_mut ::
    "BandwidthEstimator \<Rightarrow> client_id \<Rightarrow> (GoogCcEstimator \<Rightarrow> GoogCcEstimator) \<Rightarrow> BandwidthEstimator" where
  "googcc_for_subscriber_mut e k f =
     (case map_of e k of
        None \<Rightarrow> e
      | Some s \<Rightarrow> (case googcc s of
                    None \<Rightarrow> e
                  | Some g \<Rightarrow> AList.update k (s\<lparr>googcc := Some (f g)\<rparr>) e))"

definition on_twcc_feedback :: "BandwidthEstimator \<Rightarrow> client_id \<Rightarrow> TwccFeedback \<Rightarrow> instant \<Rightarrow> BandwidthEstimator" where
  "on_twcc_feedback e k feedback now = with_subscriber e k (\<lambda>s. ingest_twcc s feedback now)"

definition MAX_SEND_TIMES :: nat where "MAX_SEND_TIMES = 512"

definition push_send_time :: "(u64 \<times> instant) list \<Rightarrow> u64 \<Rightarrow> instant \<Rightarrow> (u64 \<times> instant) list" where
  "push_send_time m seq sent_at =
     (let m = (if MAX_SEND_TIMES \<le> length m
               then (if m = [] then m else AList.delete (Min (set (map fst m))) m)
               else m)
      in AList.update seq sent_at m)"

definition record_send_time :: "BandwidthEstimator \<Rightarrow> client_id \<Rightarrow> u64 \<Rightarrow> instant \<Rightarrow> BandwidthEstimator" where
  "record_send_time e k seq sent_at =
     with_subscriber e k (\<lambda>s. s\<lparr>send_times := push_send_time (send_times s) seq sent_at\<rparr>)"

section \<open>The minimum over the ceilings\<close>

lemma fst_min_update [simp]: "fst (min_update (b, t) c ct) = fmin b c"
  by (cases b; cases c) (auto simp: min_update_def fmin_def is_nan_def)

lemma fst_min_update' [simp]: "fst (min_update bt c ct) = fmin (fst bt) c"
  by (cases bt) simp

lemma combine_terms_chain:
  "fst (combine_terms delay loss native gcc hint) = old_min_chain delay loss native gcc hint"
  "Fin 0 \<le> fst (combine_terms delay loss native gcc hint)"
  by (auto simp: combine_terms_def old_min_chain_def Let_def fmax_ge_right split: option.splits)

text \<open>The candidates in the order of application.\<close>

definition candidates ::
    "f64 \<Rightarrow> f64 \<Rightarrow> f64 option \<Rightarrow> f64 option \<Rightarrow> f64 option \<Rightarrow> (f64 \<times> BindingTerm) list" where
  "candidates delay loss native gcc hint =
     (delay, Delay) # (loss, Loss)
     # (case native of Some n \<Rightarrow> [(n, Native)] | None \<Rightarrow> [])
     @ (case gcc of Some g \<Rightarrow> [(g, GoogCc)] | None \<Rightarrow> [])
     @ (case hint of Some h \<Rightarrow> [(h, ClientHintTerm)] | None \<Rightarrow> [])"

fun term_order :: "BindingTerm \<Rightarrow> nat" where
  "term_order Delay = 0" | "term_order Loss = 1" | "term_order Native = 2"
| "term_order GoogCc = 3" | "term_order ClientHintTerm = 4"

lemma combine_terms_foldl:
  "combine_terms delay loss native gcc hint =
     (let bt = foldl (\<lambda>bt c. min_update bt (fst c) (snd c)) (delay, Delay)
                 (tl (candidates delay loss native gcc hint))
      in (fmax (fst bt) (Fin 0), snd bt))"
  by (simp add: combine_terms_def candidates_def Let_def split: option.splits)

text \<open>\<open>bt\<close> is the earliest least non-NaN candidate of \<open>cs\<close>.\<close>

definition binding :: "f64 \<times> BindingTerm \<Rightarrow> (f64 \<times> BindingTerm) list \<Rightarrow> bool" where
  "binding bt cs \<longleftrightarrow> bt \<in> set cs
     \<and> (\<forall>(y, u) \<in> set cs. y \<noteq> NaN \<longrightarrow> fst bt \<le> y \<and> (y \<le> fst bt \<longrightarrow> term_order (snd bt) \<le> term_order u))"

lemma binding_min_update:
  assumes "binding bt cs" and "\<forall>(y, u) \<in> set cs. term_order u < term_order ct"
  shows "binding (min_update bt c ct) (cs @ [(c, ct)])"
proof -
  obtain b t where bt: "bt = (b, t)" by (cases bt)
  have le: "term_order t \<le> term_order ct" using assms by (auto simp: binding_def bt)
  consider "b = NaN" | "c = NaN" "b \<noteq> NaN" | "b \<noteq> NaN" "c < b" | "b \<noteq> NaN" "c \<noteq> NaN" "b \<le> c"
    using flt_not_less [of c b] by blast
  then show ?thesis
  proof cases
    case 1
    then have "\<forall>(y, u) \<in> set cs. y = NaN"
      using assms(1) by (auto simp: binding_def bt dest: flt_le_not_NaN)
    then show ?thesis
      using 1 by (auto simp: binding_def bt min_update_def is_nan_def intro: flt_le_refl)
  next
    case 2
    then show ?thesis
      using assms(1) by (cases b) (auto simp: binding_def bt min_update_def is_nan_def)
  next
    case 3
    have "c \<le> y \<and> \<not> y \<le> c" if "(y, u) \<in> set cs" "y \<noteq> NaN" for y u
      using that assms(1) 3 by (cases c; cases b; cases y) (force simp: binding_def bt)+
    then show ?thesis
      using 3 by (auto simp: binding_def bt min_update_def is_nan_def
          dest: flt_less_not_NaN intro: flt_le_refl)
  next
    case 4
    then have "\<not> c < b" using flt_not_less by blast
    then show ?thesis
      using 4 assms(1) le by (auto simp: binding_def bt min_update_def is_nan_def)
  qed
qed

lemma binding_foldl:
  assumes "binding bt cs" and "sorted_wrt (<) (map (term_order \<circ> snd) (cs @ ds))"
  shows "binding (foldl (\<lambda>bt c. min_update bt (fst c) (snd c)) bt ds) (cs @ ds)"
  using assms
proof (induction ds arbitrary: bt cs)
  case (Cons d ds)
  have "binding (min_update bt (fst d) (snd d)) (cs @ [(fst d, snd d)])"
    using Cons.prems by (intro binding_min_update) (auto simp: sorted_wrt_append)
  then show ?case
    using Cons.IH [of _ "cs @ [d]"] Cons.prems(2) by simp
qed simp

lemma combine_binding:
  "\<exists>x. binding (x, snd (combine_terms delay loss native gcc hint)) (candidates delay loss native gcc hint)
     \<and> fst (combine_terms delay loss native gcc hint) = fmax x (Fin 0)"
proof -
  let ?cs = "candidates delay loss native gcc hint"
  let ?bt = "foldl (\<lambda>bt c. min_update bt (fst c) (snd c)) (delay, Delay) (tl ?cs)"
  have "?cs = [(delay, Delay)] @ tl ?cs" by (simp add: candidates_def)
  moreover have "sorted_wrt (<) (map (term_order \<circ> snd) ?cs)"
    by (auto simp: candidates_def split: option.splits)
  moreover have "binding (delay, Delay) [(delay, Delay)]"
    by (simp add: binding_def flt_le_refl)
  ultimately have "binding ?bt ?cs"
    using binding_foldl [of "(delay, Delay)" "[(delay, Delay)]" "tl ?cs"] by metis
  then show ?thesis
    by (intro exI [of _ "fst ?bt"]) (simp add: combine_terms_foldl Let_def)
qed

text \<open>
  C15: the refactored minimum chain equals the original one, and the binding term it reports is the
  right one. For all inputs, NaN and infinities included, the value \<open>combine_terms\<close> returns is the one of the
  hand-written chain of \<^verbatim>\<open>f64::min\<close>, never NaN or negative. The term returned is one of the candidates
  present, its value is at most every candidate that is a number, among equal minima it is the earliest in
  the order delay, loss, native, googcc, client hint, and the estimate is that value clamped at zero.
\<close>

theorem combine_terms_correct:
  "fst (combine_terms delay loss native gcc hint) = old_min_chain delay loss native gcc hint
   \<and> Fin 0 \<le> fst (combine_terms delay loss native gcc hint)
   \<and> (\<exists>x. binding (x, snd (combine_terms delay loss native gcc hint)) (candidates delay loss native gcc hint)
        \<and> fst (combine_terms delay loss native gcc hint) = fmax x (Fin 0))"
  using combine_terms_chain combine_binding by blast

lemma fmax_mono: "x \<le> y \<Longrightarrow> z \<noteq> NaN \<Longrightarrow> fmax x z \<le> fmax y z"
  by (cases x; cases y; cases z) (auto simp: fmax_def is_nan_def)

lemma combine_terms_le:
  assumes "(y, u) \<in> set (candidates delay loss native gcc hint)" and "y \<noteq> NaN"
  shows "fst (combine_terms delay loss native gcc hint) \<le> fmax y (Fin 0)"
  using combine_binding [of delay loss native gcc hint] assms
  by (fastforce simp: binding_def intro: fmax_mono)

section \<open>Feedback and loss\<close>

lemma ingest_sample_lost:
  "sample_arrival x = None \<Longrightarrow> ingest_sample s x = s\<lparr>sub_loss := loss_record (sub_loss s) False\<rparr>"
  by (simp add: ingest_sample_def)

text \<open>What the loss window holds does not influence the rest of the state.\<close>

lemma ingest_sample_loss_irrelevant:
  "ingest_sample (s\<lparr>sub_loss := l\<rparr>) x = (ingest_sample s x)\<lparr>sub_loss := loss_record l (sample_arrival x \<noteq> None)\<rparr>"
  by (simp add: ingest_sample_def Let_def split: option.splits)

lemma foldl_ingest_loss_irrelevant:
  "\<exists>l'. foldl ingest_sample (s\<lparr>sub_loss := l\<rparr>) xs = (foldl ingest_sample s xs)\<lparr>sub_loss := l'\<rparr>"
proof (induction xs arbitrary: s l)
  case (Cons x xs)
  then show ?case by (simp add: ingest_sample_loss_irrelevant)
qed auto

lemma foldl_ingest_drop_lost:
  "\<exists>l. foldl ingest_sample s xs
     = (foldl ingest_sample s (filter (\<lambda>x. sample_arrival x \<noteq> None) xs))\<lparr>sub_loss := l\<rparr>"
proof (induction xs arbitrary: s)
  case Nil
  show ?case by (intro exI [of _ "sub_loss s"]) simp
next
  case (Cons x xs)
  show ?case
  proof (cases "sample_arrival x")
    case None
    then obtain l where "foldl ingest_sample s (x # xs)
        = (foldl ingest_sample s xs)\<lparr>sub_loss := l\<rparr>"
      using foldl_ingest_loss_irrelevant by (fastforce simp: ingest_sample_lost)
    with None Cons.IH [of s] show ?thesis by auto
  next
    case (Some t)
    with Cons show ?thesis by simp
  qed
qed

text \<open>
  C18: a lost packet never shows up as delay. Ingesting a feedback report leaves the delay
  estimator, the remembered arrival and send times and the round-trip time exactly as ingesting
  the report without its lost packets does.
\<close>

theorem lost_packets_no_phantom_delay:
  "let received = filter (\<lambda>x. sample_arrival x \<noteq> None) feedback
   in sub_delay (ingest_twcc s feedback now) = sub_delay (ingest_twcc s received now)
      \<and> last_arrival (ingest_twcc s feedback now) = last_arrival (ingest_twcc s received now)
      \<and> last_send_for_received (ingest_twcc s feedback now)
          = last_send_for_received (ingest_twcc s received now)
      \<and> sub_rtt (ingest_twcc s feedback now) = sub_rtt (ingest_twcc s received now)"
proof -
  obtain l where "foldl ingest_sample s feedback
      = (foldl ingest_sample s (filter (\<lambda>x. sample_arrival x \<noteq> None) feedback))\<lparr>sub_loss := l\<rparr>"
    using foldl_ingest_drop_lost by blast
  then show ?thesis by (simp add: ingest_twcc_def Let_def)
qed

text \<open>A path with constant one-way delay \<open>D\<close>, as a state and a report see it.\<close>

definition constant_delay_state :: "duration \<Rightarrow> PerSubscriber \<Rightarrow> bool" where
  "constant_delay_state D s \<longleftrightarrow> kalman_in 0 0 (sub_delay s) \<and> delay_ok (sub_delay s)
     \<and> (\<forall>a t. last_arrival s = Some a \<longrightarrow> last_send_for_received s = Some t \<longrightarrow> a = t + D)"

definition constant_delay_report :: "duration \<Rightarrow> PerSubscriber \<Rightarrow> TwccFeedback \<Rightarrow> bool" where
  "constant_delay_report D s xs \<longleftrightarrow>
     (\<forall>x \<in> set xs. \<forall>a t. sample_arrival x = Some a \<longrightarrow> map_of (send_times s) (sample_seq x) = Some t
        \<longrightarrow> a = t + D \<and> instant_ok a)"

lemma ingest_sample_send_times [simp]: "send_times (ingest_sample s x) = send_times s"
  by (simp add: ingest_sample_def Let_def split: option.splits)

lemma flt_self_minus: "Fin q - Fin q = Fin 0"
  by (simp add: minus_flt_def)

lemma usize_minus_self: "n < 2 ^ 94 \<Longrightarrow> usize_as_f64 n - usize_as_f64 n = Fin 0"
proof -
  assume "n < 2 ^ 94"
  then have "(of_nat n :: rat) < of_nat (2 ^ 94)" by (simp only: of_nat_less_iff)
  also have "\<dots> \<le> 2 ^ 1023" by simp
  finally have "usize_as_f64 n = Fin (rq 53 (- 1074) (of_nat n))"
    unfolding usize_as_f64_def by (intro rnd64_Fin) simp
  then show ?thesis by (simp add: flt_self_minus)
qed

lemma ingest_sample_constant:
  assumes "constant_delay_state D s" and "constant_delay_report D s [x]"
  shows "constant_delay_state D (ingest_sample s x)
    \<and> delay_bitrate_bps (sub_delay (ingest_sample s x)) = delay_bitrate_bps (sub_delay s)"
proof (cases "\<exists>a t. sample_arrival x = Some a \<and> map_of (send_times s) (sample_seq x) = Some t")
  case False
  then show ?thesis
    using assms(1) by (auto simp: ingest_sample_def Let_def constant_delay_state_def split: option.splits)
next
  case True
  then obtain a t where x: "sample_arrival x = Some a" "map_of (send_times s) (sample_seq x) = Some t"
    by blast
  then have a: "a = t + D" "a < 2 ^ 94"
    using assms(2) by (simp_all add: constant_delay_report_def instant_ok_def)
  have g: "usize_as_f64 (as_micros (duration_since a pa)) - usize_as_f64 (as_micros (duration_since t pt)) = Fin 0"
    if "pa = pt + D" for pa pt
  proof -
    have "duration_since a pa = duration_since t pt" using that by (simp add: a duration_since_def)
    moreover have "as_micros (duration_since t pt) \<le> t" by (simp add: as_micros_def duration_since_def)
    moreover have "t < 2 ^ 94" using a by simp
    ultimately show ?thesis using usize_minus_self by simp
  qed
  show ?thesis
    using assms(1) update_kalman_in [of 0 0 "sub_delay s" 0] delay.observe_ok [of "sub_delay s"] g
    by (auto simp: ingest_sample_def x Let_def constant_delay_state_def a delay.observe_rate split: option.splits)
qed

lemma foldl_ingest_constant:
  assumes "constant_delay_state D s" and "constant_delay_report D s xs"
  shows "constant_delay_state D (foldl ingest_sample s xs)
    \<and> delay_bitrate_bps (sub_delay (foldl ingest_sample s xs)) = delay_bitrate_bps (sub_delay s)"
  using assms
proof (induction xs arbitrary: s)
  case (Cons x xs)
  then show ?case
    using ingest_sample_constant [of D s x] by (simp add: constant_delay_report_def)
qed simp

text \<open>
  C19: a path with constant delay causes no back-off. If every received packet of a report took the
  same one-way delay \<open>D\<close> as the packets before it, whatever packets were lost in between and
  whatever the send spacing, the filtered gradient is exactly 0 after the report and the
  delay-based estimate has not fallen.
\<close>

theorem constant_delay_no_backoff:
  assumes "constant_delay_state D s" and "constant_delay_report D s feedback"
  shows "gradient_us (sub_delay (ingest_twcc s feedback now)) = Fin 0
    \<and> \<not> delay_bitrate_bps (sub_delay (ingest_twcc s feedback now)) < delay_bitrate_bps (sub_delay s)"
proof -
  let ?s = "foldl ingest_sample s feedback"
  have s: "kalman_in 0 0 (sub_delay ?s)" "delay_ok (sub_delay ?s)"
    "delay_bitrate_bps (sub_delay ?s) = delay_bitrate_bps (sub_delay s)"
    using foldl_ingest_constant [OF assms] by (auto simp: constant_delay_state_def)
  then have "kalman_in 0 12500 (sub_delay ?s)" by (auto simp: kalman_in_def)
  with s have "\<not> delay_bitrate_bps (delay_apply_rate_control (sub_delay ?s) now) < delay_bitrate_bps (sub_delay s)"
    using no_decrease_in_range by metis
  moreover have "kalman_in 0 0 (delay_apply_rate_control (sub_delay ?s) now)"
    using s by (simp add: control_kalman_in)
  ultimately show ?thesis by (auto simp: ingest_twcc_def Let_def kalman_in_def)
qed

theorem constant_delay_no_backoff_witness:
  "gradient_us (sub_delay (ingest_twcc (PerSubscriber_new\<lparr>send_times := [(1, 0), (2, 10000000), (4, 30000000)]\<rparr>)
     [\<lparr>sample_seq = 1, sample_arrival = Some 5000000\<rparr>, \<lparr>sample_seq = 2, sample_arrival = Some 15000000\<rparr>,
      \<lparr>sample_seq = 3, sample_arrival = None\<rparr>, \<lparr>sample_seq = 4, sample_arrival = Some 35000000\<rparr>] 60000000)) = Fin 0"
proof -
  have "constant_delay_state 5000000 (PerSubscriber_new\<lparr>send_times := [(1, 0), (2, 10000000), (4, 30000000)]\<rparr>)"
    using DelayEstimator_new_ok [of "Fin 300000"]
    by (simp add: constant_delay_state_def PerSubscriber_new_def new_kalman_in INITIAL_BITRATE_BPS_def)
  then show ?thesis
    by (rule constant_delay_no_backoff [THEN conjunct1])
       (simp add: constant_delay_report_def instant_ok_def)
qed

section \<open>The estimator as a store of subscribers\<close>

text \<open>The operations of \<^verbatim>\<open>BandwidthEstimator\<close> that name a subscriber, and their effect on its entry.\<close>

datatype est_op =
    NativeEstimate f64
  | ClientHintOp u64 instant
  | Twcc TwccFeedback instant
  | SendTime u64 instant
  | EnableGoogcc
  | GoogccReceive f64 f64 f32
  | ReapDead

fun est_exec :: "BandwidthEstimator \<Rightarrow> client_id \<Rightarrow> est_op \<Rightarrow> BandwidthEstimator" where
  "est_exec e k (NativeEstimate bps) = record_native_estimate e k bps"
| "est_exec e k (ClientHintOp bps now) = record_client_hint e k bps now"
| "est_exec e k (Twcc fb now) = on_twcc_feedback e k fb now"
| "est_exec e k (SendTime seq t) = record_send_time e k seq t"
| "est_exec e k EnableGoogcc = enable_googcc_for_subscriber e k"
| "est_exec e k (GoogccReceive a s l) = googcc_for_subscriber_mut e k (\<lambda>g. fst (on_receive g a s l))"
| "est_exec e k ReapDead = est_reap_dead e k"

definition or_default :: "PerSubscriber option \<Rightarrow> PerSubscriber" where
  "or_default s = (case s of Some s \<Rightarrow> s | None \<Rightarrow> PerSubscriber_new)"

fun sub_exec :: "PerSubscriber option \<Rightarrow> est_op \<Rightarrow> PerSubscriber option" where
  "sub_exec s (NativeEstimate bps) = Some ((or_default s)\<lparr>native_estimate_bps := Some bps\<rparr>)"
| "sub_exec s (ClientHintOp bps now) =
     Some ((or_default s)\<lparr>client_hint := Some \<lparr>hint_bps = bps, received_at = now\<rparr>\<rparr>)"
| "sub_exec s (Twcc fb now) = Some (ingest_twcc (or_default s) fb now)"
| "sub_exec s (SendTime seq t) =
     Some ((or_default s)\<lparr>send_times := push_send_time (send_times (or_default s)) seq t\<rparr>)"
| "sub_exec s EnableGoogcc =
     Some (if googcc (or_default s) = None then (or_default s)\<lparr>googcc := Some GoogCcEstimator_new\<rparr>
           else or_default s)"
| "sub_exec s (GoogccReceive a t l) =
     map_option (\<lambda>s. s\<lparr>googcc := map_option (\<lambda>g. fst (on_receive g a t l)) (googcc s)\<rparr>) s"
| "sub_exec s ReapDead = None"

interpretation est: keyed_store map_of est_exec sub_exec
proof
  show "map_of (est_exec m k op) j = (if j = k then sub_exec (map_of m k) op else map_of m j)"
    for m k op j
    by (cases op)
       (auto simp: record_native_estimate_def record_client_hint_def on_twcc_feedback_def
         record_send_time_def enable_googcc_for_subscriber_def googcc_for_subscriber_mut_def
         est_reap_dead_def with_subscriber_def get_or_insert_def or_default_def
         split: option.splits)
qed

definition est_run :: "BandwidthEstimator \<Rightarrow> (client_id \<times> est_op) list \<Rightarrow> BandwidthEstimator" where
  "est_run = foldl (\<lambda>m (k, op). est_exec m k op)"

text \<open>
  C17: subscribers do not influence each other. After any interleaving of feedback, hints, native
  estimates, send-time records, GoogCC updates and disconnects of any subscribers, the state of
  subscriber \<open>k\<close> (and so its estimate) is what \<open>k\<close>'s own operations alone produce.
\<close>

theorem estimator_isolation:
  "map_of (est_run BandwidthEstimator_new ops) k
     = foldl sub_exec None (map snd (filter (\<lambda>(j, _). j = k) ops))"
  using est.get_run [of BandwidthEstimator_new ops k]
  by (simp add: est_run_def BandwidthEstimator_new_def)

section \<open>The invariant of a subscriber\<close>

definition sub_ok :: "PerSubscriber \<Rightarrow> bool" where
  "sub_ok s \<longleftrightarrow> delay_ok (sub_delay s) \<and> loss_ok (sub_loss s)
     \<and> wf_map (send_times s) \<and> length (send_times s) \<le> MAX_SEND_TIMES
     \<and> (\<forall>g. googcc s = Some g \<longrightarrow> aimd_ok (aimd g) \<and> min_bps (aimd g) = GOOGCC_MIN_BPS
          \<and> max_bps (aimd g) = GOOGCC_MAX_BPS)"

lemma PerSubscriber_new_ok [simp]: "sub_ok PerSubscriber_new"
  using DelayEstimator_new_ok [of "Fin 300000"] LossEstimator_new_ok [of "Fin 300000"]
  by (simp add: sub_ok_def PerSubscriber_new_def INITIAL_BITRATE_BPS_def)

lemma GoogCcEstimator_new_ok:
  "aimd_ok (aimd GoogCcEstimator_new)" "min_bps (aimd GoogCcEstimator_new) = GOOGCC_MIN_BPS"
  "max_bps (aimd GoogCcEstimator_new) = GOOGCC_MAX_BPS"
  by (simp_all add: GoogCcEstimator_new_def GoogCc_with_bounds_def AimdController_new_def
      aimd_ok_def GOOGCC_INITIAL_BPS_def GOOGCC_MIN_BPS_def GOOGCC_MAX_BPS_def)

lemma push_send_time_ok:
  assumes "wf_map m" and "length m \<le> MAX_SEND_TIMES"
  shows "wf_map (push_send_time m seq t)" and "length (push_send_time m seq t) \<le> MAX_SEND_TIMES"
proof -
  show "wf_map (push_send_time m seq t)"
    using assms by (simp add: push_send_time_def Let_def del: set_map)
  show "length (push_send_time m seq t) \<le> MAX_SEND_TIMES"
  proof (cases "MAX_SEND_TIMES \<le> length m")
    case False
    then show ?thesis
      using length_update_le [of seq t m] by (simp add: push_send_time_def)
  next
    case True
    then have ne: "m \<noteq> []" by (auto simp: MAX_SEND_TIMES_def)
    let ?k = "Min (fst ` set m)"
    have "?k \<in> fst ` set m" using ne by (intro Min_in) auto
    from length_delete_present [OF assms(1) this] True assms(2)
    have "Suc (length (AList.delete ?k m)) = MAX_SEND_TIMES" by simp
    with length_update_le [of seq t "AList.delete ?k m"] show ?thesis
      using True ne by (simp add: push_send_time_def)
  qed
qed

lemma ingest_sample_ok: "sub_ok s \<Longrightarrow> sub_ok (ingest_sample s x)"
  using delay.observe_ok [of "sub_delay s"] loss.observe_ok [of "sub_loss s"]
  by (auto simp: ingest_sample_def Let_def sub_ok_def split: option.splits)

lemma ingest_twcc_ok: "sub_ok s \<Longrightarrow> sub_ok (ingest_twcc s fb now)"
proof -
  assume "sub_ok s"
  then have "sub_ok (foldl ingest_sample s fb)"
    by (induction fb arbitrary: s) (simp_all add: ingest_sample_ok)
  then show ?thesis
    using delay.control_ok loss.control_ok by (simp add: ingest_twcc_def Let_def sub_ok_def)
qed

lemma or_default_ok: "s = None \<or> (\<exists>x. s = Some x \<and> sub_ok x) \<Longrightarrow> sub_ok (or_default s)"
  by (auto simp: or_default_def)

lemma sub_exec_ok:
  assumes "s = None \<or> (\<exists>x. s = Some x \<and> sub_ok x)"
  shows "sub_exec s op = None \<or> (\<exists>x. sub_exec s op = Some x \<and> sub_ok x)"
proof (cases op)
  case (Twcc fb now)
  then show ?thesis using or_default_ok [OF assms] ingest_twcc_ok by simp
next
  case (SendTime seq t)
  then show ?thesis using or_default_ok [OF assms] by (simp add: sub_ok_def push_send_time_ok)
next
  case (GoogccReceive a t l)
  then show ?thesis using assms on_receive_ok by (auto simp: sub_ok_def)
qed (use or_default_ok [OF assms] GoogCcEstimator_new_ok in \<open>auto simp: sub_ok_def\<close>)

lemma est_run_ok:
  "map_of (est_run BandwidthEstimator_new ops) k = Some s \<Longrightarrow> sub_ok s"
  using est.get_run_inv [of sub_ok BandwidthEstimator_new ops k s] sub_exec_ok
  by (auto simp: est_run_def BandwidthEstimator_new_def)

lemma est_run_wf: "wf_map (est_run BandwidthEstimator_new ops)"
proof -
  have "wf_map e \<Longrightarrow> wf_map (est_exec e k op)" for e k op
    by (cases op)
       (auto simp: record_native_estimate_def record_client_hint_def on_twcc_feedback_def
         record_send_time_def enable_googcc_for_subscriber_def googcc_for_subscriber_mut_def
         est_reap_dead_def with_subscriber_def split: option.splits)
  then have "wf_map e \<Longrightarrow> wf_map (est_run e ops)" for e
    unfolding est_run_def by (induction ops arbitrary: e) auto
  then show ?thesis by (simp add: BandwidthEstimator_new_def)
qed

definition fresh_hint :: "PerSubscriber \<Rightarrow> instant \<Rightarrow> u64 option" where
  "fresh_hint s now = (case client_hint s of
     Some h \<Rightarrow> if duration_since now (received_at h) < CLIENT_HINT_MAX_AGE then Some (hint_bps h) else None
   | None \<Rightarrow> None)"

lemma combined_bps_combine:
  "combined_bps s now = fst (combine_terms (delay_bitrate_bps (sub_delay s)) (loss_bitrate_bps (sub_loss s))
     (native_estimate_bps s) (map_option (\<lambda>g. u64_as_f64 (googcc_current_bps g)) (googcc s))
     (map_option u64_as_f64 (fresh_hint s now)))"
  by (simp add: combined_bps_def combined_bps_with_term_def fresh_hint_def Let_def split: option.splits)

text \<open>
  C16: the estimate respects every ceiling. For a subscriber reached by any history of operations,
  the combined estimate is a finite number in \<open>[0, 50 Mbit/s]\<close>, at most the delay-based and the
  loss-based rate, at most the native estimate when one is recorded (0 when that is negative), at
  most the GoogCC target when GoogCC is enabled, and at most a client hint younger than 5 s; its
  send-time map never exceeds 512 entries.
\<close>

theorem estimate_respects_ceilings:
  assumes "map_of (est_run BandwidthEstimator_new ops) k = Some s"
  shows "(\<exists>q. combined_bps s now = Fin q \<and> 0 \<le> q \<and> q \<le> 50000000)
    \<and> combined_bps s now \<le> delay_bitrate_bps (sub_delay s)
    \<and> combined_bps s now \<le> loss_bitrate_bps (sub_loss s)
    \<and> (\<forall>n. native_estimate_bps s = Some (Fin n) \<longrightarrow> combined_bps s now \<le> Fin (max n 0))
    \<and> (\<forall>g. googcc s = Some g \<longrightarrow> combined_bps s now \<le> u64_as_f64 (googcc_current_bps g))
    \<and> (\<forall>h. fresh_hint s now = Some h \<longrightarrow> combined_bps s now \<le> u64_as_f64 h)
    \<and> length (send_times s) \<le> 512"
proof -
  have ok: "sub_ok s" using est_run_ok [OF assms] .
  let ?cs = "candidates (delay_bitrate_bps (sub_delay s)) (loss_bitrate_bps (sub_loss s))
     (native_estimate_bps s) (map_option (\<lambda>g. u64_as_f64 (googcc_current_bps g)) (googcc s))
     (map_option u64_as_f64 (fresh_hint s now))"
  have le: "combined_bps s now \<le> fmax y (Fin 0)" if "(y, u) \<in> set ?cs" "y \<noteq> NaN" for y u
    unfolding combined_bps_combine using that by (rule combine_terms_le)
  have u64: "u64_as_f64 b \<noteq> NaN" "fmax (u64_as_f64 b) (Fin 0) = u64_as_f64 b" for b
  proof -
    show "u64_as_f64 b \<noteq> NaN" by (simp add: u64_as_f64_def)
    have "Fin 0 \<le> u64_as_f64 b" unfolding u64_as_f64_def by (rule rnd64_ge) simp_all
    then show "fmax (u64_as_f64 b) (Fin 0) = u64_as_f64 b"
      by (cases "u64_as_f64 b") (auto simp: fmax_def is_nan_def)
  qed
  obtain d l where d: "delay_bitrate_bps (sub_delay s) = Fin d" "30000 \<le> d" "d \<le> 50000000"
    and l: "loss_bitrate_bps (sub_loss s) = Fin l" "30000 \<le> l"
    using ok by (metis sub_ok_def delay_ok_def loss_ok_def bitrate_okE)
  have cd: "combined_bps s now \<le> Fin d" and cl: "combined_bps s now \<le> Fin l"
    using le [of "Fin d" Delay] le [of "Fin l" Loss] d l
    by (simp_all add: candidates_def fmax_def is_nan_def)
  have "Fin 0 \<le> combined_bps s now"
    by (simp add: combined_bps_combine combine_terms_def Let_def fmax_ge_right)
  from flt_between_Fin [OF this cd] d(3)
  have "\<exists>q. combined_bps s now = Fin q \<and> 0 \<le> q \<and> q \<le> 50000000" by auto
  moreover have "combined_bps s now \<le> Fin (max n 0)" if "native_estimate_bps s = Some (Fin n)" for n
    using le [of "Fin n" Native] that by (auto simp: candidates_def fmax_def is_nan_def max_def split: if_splits)
  moreover have "combined_bps s now \<le> u64_as_f64 (googcc_current_bps g)" if "googcc s = Some g" for g
    using le [of _ GoogCc] that u64 by (fastforce simp: candidates_def)
  moreover have "combined_bps s now \<le> u64_as_f64 h" if "fresh_hint s now = Some h" for h
    using le [of _ ClientHintTerm] that u64 by (fastforce simp: candidates_def)
  ultimately show ?thesis
    using cd cl d l ok by (simp add: sub_ok_def MAX_SEND_TIMES_def)
qed

theorem estimate_respects_ceilings_witness:
  "combined_bps (PerSubscriber_new\<lparr>native_estimate_bps := Some (Fin 200000)\<rparr>) 0 \<le> Fin 200000"
proof -
  have "map_of (est_run BandwidthEstimator_new [(7, NativeEstimate (Fin 200000))]) 7
      = Some (PerSubscriber_new\<lparr>native_estimate_bps := Some (Fin 200000)\<rparr>)"
    by (simp add: est_run_def BandwidthEstimator_new_def record_native_estimate_def
        with_subscriber_def get_or_insert_def)
  from estimate_respects_ceilings [OF this, of 0] show ?thesis by simp
qed

end
