(* ===== verification/Metrics.thy ===== *)
theory Metrics
  imports Bandwidth
begin

text \<open>
  The Prometheus-backed metrics of \<^verbatim>\<open>src/metrics/prom.rs\<close>. Prometheus itself is not part of the
  repository: a metrics operation is the list of calls it makes on the Prometheus handles, and what
  the calls do to the set of exposed series is a parameter with the documented behaviour as its
  contract (\<open>prom_contract\<close>). \<open>SfuMetrics_new\<close> registers the declared metrics; help texts are left
  out.
\<close>

section \<open>Handles and calls\<close>

datatype metric =
    active_participants | forwarded_packets_total | layer_selection_total
  | dominant_speaker_changes_total | client_connect_total | client_disconnect_total
  | peer_loss_fraction | peer_jitter_ms | peer_rtt_ms | bandwidth_estimate_bps
  | combined_bps_binding_term | speaker_immediate | speaker_medium | speaker_long
  | pacer_suspend_video_total | pacer_tick_throttled_total | video_frames_dropped_total
  | forward_latency_seconds | track_bytes_total | rtcp_pli_total

datatype prom_action = Inc | IncBy u64 | Dec | SetTo f64 | ObserveValue f64 | Resolve

text \<open>
  \<open>WithLabels\<close> is \<^verbatim>\<open>with_label_values\<close> followed by an operation (\<open>Resolve\<close> keeps the handle),
  \<open>Handle\<close> an operation through a handle kept earlier, \<open>Remove\<close> is \<^verbatim>\<open>remove_label_values\<close>.
\<close>

datatype prom_call =
    Direct metric prom_action
  | WithLabels metric "string list" prom_action
  | Handle metric "string list" prom_action
  | Remove metric "string list"

section \<open>Decimal labels\<close>

text \<open>\<^verbatim>\<open>u64::to_string\<close>.\<close>

fun nat_to_string :: "nat \<Rightarrow> string" where
  "nat_to_string n = (if n < 10 then [char_of (48 + n)] else nat_to_string (n div 10) @ [char_of (48 + n mod 10)])"

declare nat_to_string.simps [simp del]

definition peer_label :: "u64 \<Rightarrow> string" where
  "peer_label n = nat_to_string (unat n)"

fun string_to_nat :: "string \<Rightarrow> nat" where
  "string_to_nat s = foldl (\<lambda>n c. 10 * n + (of_char c - 48)) 0 s"

lemma string_to_nat_inverse: "string_to_nat (nat_to_string n) = n"
proof (induction n rule: nat_to_string.induct)
  case (1 n)
  have [simp]: "of_char (char_of (48 + d) :: char) = 48 + d" if "d < 10" for d :: nat
    using that by (simp add: of_char_mod_256)
  show ?case
  proof (cases "n < 10")
    case True
    then show ?thesis by (subst nat_to_string.simps) simp
  next
    case False
    with 1 show ?thesis by (subst nat_to_string.simps) simp
  qed
qed

lemma peer_label_inj: "peer_label a = peer_label b \<longleftrightarrow> a = b"
  unfolding peer_label_def using string_to_nat_inverse by (metis word_eq_iff_unsigned)

section \<open>Construction\<close>

datatype metric_kind = IntGauge | IntCounter | IntCounterVec | GaugeVec | HistogramVec "f64 list"

record metric_opts =
  opt_metric :: metric
  opt_name :: string
  opt_kind :: metric_kind
  opt_labels :: "string list"

definition schema :: "metric_opts list" where
  "schema =
    [\<lparr>opt_metric = active_participants, opt_name = ''active_participants'', opt_kind = IntGauge, opt_labels = []\<rparr>,
     \<lparr>opt_metric = forwarded_packets_total, opt_name = ''forwarded_packets_total'', opt_kind = IntCounterVec, opt_labels = [''kind'']\<rparr>,
     \<lparr>opt_metric = layer_selection_total, opt_name = ''layer_selection_total'', opt_kind = IntCounterVec, opt_labels = [''layer'']\<rparr>,
     \<lparr>opt_metric = dominant_speaker_changes_total, opt_name = ''dominant_speaker_changes_total'', opt_kind = IntCounter, opt_labels = []\<rparr>,
     \<lparr>opt_metric = client_connect_total, opt_name = ''client_connect_total'', opt_kind = IntCounter, opt_labels = []\<rparr>,
     \<lparr>opt_metric = client_disconnect_total, opt_name = ''client_disconnect_total'', opt_kind = IntCounter, opt_labels = []\<rparr>,
     \<lparr>opt_metric = peer_loss_fraction, opt_name = ''peer_loss_fraction'', opt_kind = GaugeVec, opt_labels = [''peer_id'']\<rparr>,
     \<lparr>opt_metric = peer_jitter_ms, opt_name = ''peer_jitter_ms'', opt_kind = GaugeVec, opt_labels = [''peer_id'']\<rparr>,
     \<lparr>opt_metric = peer_rtt_ms, opt_name = ''peer_rtt_ms'', opt_kind = GaugeVec, opt_labels = [''peer_id'']\<rparr>,
     \<lparr>opt_metric = bandwidth_estimate_bps, opt_name = ''bandwidth_estimate_bps'', opt_kind = GaugeVec, opt_labels = [''peer_id'']\<rparr>,
     \<lparr>opt_metric = combined_bps_binding_term, opt_name = ''combined_bps_binding_term'', opt_kind = IntCounterVec, opt_labels = [''peer_id'', ''term'']\<rparr>,
     \<lparr>opt_metric = speaker_immediate, opt_name = ''speaker_immediate_score'', opt_kind = GaugeVec, opt_labels = [''peer_id'']\<rparr>,
     \<lparr>opt_metric = speaker_medium, opt_name = ''speaker_medium_score'', opt_kind = GaugeVec, opt_labels = [''peer_id'']\<rparr>,
     \<lparr>opt_metric = speaker_long, opt_name = ''speaker_long_score'', opt_kind = GaugeVec, opt_labels = [''peer_id'']\<rparr>,
     \<lparr>opt_metric = pacer_suspend_video_total, opt_name = ''pacer_suspend_video_total'', opt_kind = IntCounterVec, opt_labels = [''direction'']\<rparr>,
     \<lparr>opt_metric = pacer_tick_throttled_total, opt_name = ''pacer_tick_throttled_total'', opt_kind = IntCounter, opt_labels = []\<rparr>,
     \<lparr>opt_metric = video_frames_dropped_total, opt_name = ''video_frames_dropped_total'', opt_kind = IntCounterVec, opt_labels = [''peer_id'']\<rparr>,
     \<lparr>opt_metric = forward_latency_seconds, opt_name = ''forward_latency_seconds'',
      opt_kind = HistogramVec [rnd64 (1 / 10000), rnd64 (5 / 10000), rnd64 (1 / 1000), rnd64 (5 / 1000), rnd64 (1 / 100), rnd64 (5 / 100), rnd64 (1 / 10)],
      opt_labels = [''media_kind'']\<rparr>,
     \<lparr>opt_metric = track_bytes_total, opt_name = ''track_bytes_total'', opt_kind = IntCounterVec, opt_labels = [''direction'', ''kind'']\<rparr>,
     \<lparr>opt_metric = rtcp_pli_total, opt_name = ''rtcp_pli_total'', opt_kind = IntCounterVec, opt_labels = [''direction'']\<rparr>]"

text \<open>
  \<^verbatim>\<open>SfuMetrics::new\<close>: create the registry, then create and register each metric; the error is the
  \<^verbatim>\<open>anyhow\<close> context of the first step that fails. \<open>create\<close> and \<open>register\<close> are Prometheus.
\<close>

fun register_all :: "(metric_opts \<Rightarrow> bool) \<Rightarrow> ('g \<Rightarrow> metric_opts \<Rightarrow> 'g option) \<Rightarrow> 'g \<Rightarrow> metric_opts list \<Rightarrow> string + 'g" where
  "register_all create register g [] = Inr g"
| "register_all create register g (opt # opts) =
     (if \<not> create opt then Inl (opt_name opt)
      else case register g opt of
             None \<Rightarrow> Inl ''metric registration''
           | Some g \<Rightarrow> register_all create register g opts)"

definition SfuMetrics_new ::
    "'g option \<Rightarrow> (metric_opts \<Rightarrow> bool) \<Rightarrow> ('g \<Rightarrow> metric_opts \<Rightarrow> 'g option) \<Rightarrow> string + 'g" where
  "SfuMetrics_new new_custom create register =
     (case new_custom of
        None \<Rightarrow> Inl ''create registry''
      | Some g \<Rightarrow> register_all create register g schema)"

section \<open>Operations\<close>

definition inc_forwarded_packets :: "string \<Rightarrow> prom_call list" where
  "inc_forwarded_packets kind = [WithLabels forwarded_packets_total [kind] Inc]"

definition observe_forward_latency :: "string \<Rightarrow> f64 \<Rightarrow> prom_call list" where
  "observe_forward_latency kind elapsed_secs =
     [WithLabels forward_latency_seconds [kind] (ObserveValue elapsed_secs)]"

definition inc_layer_selection :: "string \<Rightarrow> prom_call list" where
  "inc_layer_selection layer = [WithLabels layer_selection_total [layer] Inc]"

definition inc_suspend_video :: "string \<Rightarrow> prom_call list" where
  "inc_suspend_video direction = [WithLabels pacer_suspend_video_total [direction] Inc]"

definition inc_pacer_tick_throttled :: "prom_call list" where
  "inc_pacer_tick_throttled = [Direct pacer_tick_throttled_total Inc]"

definition peer_drop_counter :: "u64 \<Rightarrow> prom_call list" where
  "peer_drop_counter peer_id = [WithLabels video_frames_dropped_total [peer_label peer_id] Resolve]"

definition reap_video_frames_dropped :: "u64 \<Rightarrow> prom_call list" where
  "reap_video_frames_dropped peer_id = [Remove video_frames_dropped_total [peer_label peer_id]]"

definition inc_client_connect :: "prom_call list" where
  "inc_client_connect = [Direct client_connect_total Inc]"

definition inc_client_disconnect :: "prom_call list" where
  "inc_client_disconnect = [Direct client_disconnect_total Inc]"

definition inc_active_participants :: "prom_call list" where
  "inc_active_participants = [Direct active_participants Inc]"

definition dec_active_participants :: "prom_call list" where
  "dec_active_participants = [Direct active_participants Dec]"

definition inc_dominant_speaker_changes :: "prom_call list" where
  "inc_dominant_speaker_changes = [Direct dominant_speaker_changes_total Inc]"

definition update_peer_rtcp :: "u64 \<Rightarrow> f32 \<Rightarrow> f64 \<Rightarrow> f64 \<Rightarrow> prom_call list" where
  "update_peer_rtcp peer_id loss rtt_ms jitter_ms =
     (let lv = [peer_label peer_id]
      in [WithLabels peer_loss_fraction lv (SetTo loss),
          WithLabels peer_rtt_ms lv (SetTo rtt_ms),
          WithLabels peer_jitter_ms lv (SetTo jitter_ms)])"

definition update_peer_bwe :: "u64 \<Rightarrow> u64 \<Rightarrow> prom_call list" where
  "update_peer_bwe peer_id bps =
     [WithLabels bandwidth_estimate_bps [peer_label peer_id] (SetTo (u64_as_f64 bps))]"

definition update_peer_binding_term :: "u64 \<Rightarrow> string \<Rightarrow> prom_call list" where
  "update_peer_binding_term peer_id t =
     [WithLabels combined_bps_binding_term [peer_label peer_id, t] Inc]"

definition update_peer_speaker_scores :: "u64 \<Rightarrow> f64 \<Rightarrow> f64 \<Rightarrow> f64 \<Rightarrow> prom_call list" where
  "update_peer_speaker_scores peer_id immediate medium long_score =
     (let lv = [peer_label peer_id]
      in [WithLabels speaker_immediate lv (SetTo immediate),
          WithLabels speaker_medium lv (SetTo medium),
          WithLabels speaker_long lv (SetTo long_score)])"

definition add_track_bytes_in :: "string \<Rightarrow> u64 \<Rightarrow> prom_call list" where
  "add_track_bytes_in kind n = [WithLabels track_bytes_total [''in'', kind] (IncBy n)]"

definition add_track_bytes_out :: "string \<Rightarrow> u64 \<Rightarrow> prom_call list" where
  "add_track_bytes_out kind n = [WithLabels track_bytes_total [''out'', kind] (IncBy n)]"

definition inc_rtcp_pli :: "string \<Rightarrow> prom_call list" where
  "inc_rtcp_pli direction = [WithLabels rtcp_pli_total [direction] Inc]"

definition reap_dead_peer :: "u64 \<Rightarrow> prom_call list" where
  "reap_dead_peer peer_id =
     (let lv = [peer_label peer_id]
      in [Remove peer_loss_fraction lv, Remove peer_rtt_ms lv, Remove peer_jitter_ms lv,
          Remove bandwidth_estimate_bps lv, Remove speaker_immediate lv, Remove speaker_medium lv,
          Remove speaker_long lv]
         @ map (\<lambda>t. Remove combined_bps_binding_term [peer_label peer_id, BindingTerm_as_str t]) BindingTerm_ALL
         @ reap_video_frames_dropped peer_id)"

lemmas metric_ops =
  inc_forwarded_packets_def observe_forward_latency_def inc_layer_selection_def
  inc_suspend_video_def inc_pacer_tick_throttled_def peer_drop_counter_def
  reap_video_frames_dropped_def inc_client_connect_def inc_client_disconnect_def
  inc_active_participants_def dec_active_participants_def inc_dominant_speaker_changes_def
  update_peer_rtcp_def update_peer_bwe_def update_peer_binding_term_def
  update_peer_speaker_scores_def add_track_bytes_in_def add_track_bytes_out_def inc_rtcp_pli_def
  reap_dead_peer_def

section \<open>Construction always succeeds\<close>

text \<open>What Prometheus accepts as a metric name, and what its registry does with an unused one.\<close>

definition name_char :: "char \<Rightarrow> bool" where
  "name_char c \<longleftrightarrow> (let n = of_char c :: nat in 97 \<le> n \<and> n \<le> 122 \<or> 65 \<le> n \<and> n \<le> 90 \<or> n = 95)"

definition registry_contract :: "('g \<Rightarrow> string set) \<Rightarrow> (metric_opts \<Rightarrow> bool) \<Rightarrow> ('g \<Rightarrow> metric_opts \<Rightarrow> 'g option) \<Rightarrow> bool" where
  "registry_contract names create register \<longleftrightarrow>
     (\<forall>opt. list_all name_char (opt_name opt) \<and> list_all (list_all name_char) (opt_labels opt)
        \<and> distinct (opt_labels opt) \<longrightarrow> create opt)
     \<and> (\<forall>g opt. opt_name opt \<notin> names g \<longrightarrow>
          (\<exists>g'. register g opt = Some g' \<and> names g' = insert (opt_name opt) (names g)))"

lemma schema_valid:
  "list_all (\<lambda>opt. list_all name_char (opt_name opt) \<and> list_all (list_all name_char) (opt_labels opt)
     \<and> distinct (opt_labels opt)) schema"
  by (simp add: schema_def name_char_def Let_def)

lemma schema_names_distinct: "distinct (map opt_name schema)"
  by (simp add: schema_def)

lemma register_all_ok:
  assumes "registry_contract names create register"
    and "list_all (\<lambda>opt. list_all name_char (opt_name opt) \<and> list_all (list_all name_char) (opt_labels opt)
      \<and> distinct (opt_labels opt)) opts"
    and "distinct (map opt_name opts)" and "names g \<inter> opt_name ` set opts = {}"
  shows "\<exists>g'. register_all create register g opts = Inr g' \<and> names g' = names g \<union> opt_name ` set opts"
  using assms(2-4)
proof (induction opts arbitrary: g)
  case (Cons opt opts)
  then have "create opt" "opt_name opt \<notin> names g"
    using assms(1) by (auto simp: registry_contract_def)
  then obtain g1 where g1: "register g opt = Some g1" "names g1 = insert (opt_name opt) (names g)"
    using assms(1) unfolding registry_contract_def by blast
  then have "names g1 \<inter> opt_name ` set opts = {}" using Cons.prems by auto
  with Cons.IH [of g1] Cons.prems g1 \<open>create opt\<close> show ?case by auto
qed simp

text \<open>
  Constructing the metrics never fails: given a registry that accepts well-formed metrics whose
  name is not taken, \<^verbatim>\<open>SfuMetrics::new\<close> returns a registry holding exactly its twenty metrics, since all
  names and label names are valid and no name is registered twice.
\<close>

lemma SfuMetrics_new_ok:
  assumes "registry_contract names create register" and "names g = {}"
  shows "\<exists>g'. SfuMetrics_new (Some g) create register = Inr g' \<and> names g' = opt_name ` set schema
    \<and> card (names g') = 20"
proof -
  have "card (opt_name ` set schema) = length (map opt_name schema)"
    using distinct_card [OF schema_names_distinct] by simp
  also have "\<dots> = 20" by (simp add: schema_def)
  finally show ?thesis
    using register_all_ok [OF assms(1) schema_valid schema_names_distinct, of g] assms(2)
    by (auto simp: SfuMetrics_new_def)
qed

section \<open>Label arity and reaping\<close>

definition arity :: "metric \<Rightarrow> nat" where
  "arity m = (case map_of (map (\<lambda>opt. (opt_metric opt, length (opt_labels opt))) schema) m of
                Some n \<Rightarrow> n | None \<Rightarrow> 0)"

definition per_peer :: "metric \<Rightarrow> bool" where
  "per_peer m \<longleftrightarrow> list_ex (\<lambda>opt. opt_metric opt = m \<and> opt_labels opt \<noteq> [] \<and> hd (opt_labels opt) = ''peer_id'') schema"

text \<open>The operations that each kind of metric has; a vector yields a handle of the scalar kind.\<close>

fun has_action :: "metric_kind \<Rightarrow> prom_action \<Rightarrow> bool" where
  "has_action IntGauge a \<longleftrightarrow> a = Inc \<or> a = Dec"
| "has_action IntCounter a \<longleftrightarrow> a = Inc \<or> (\<exists>n. a = IncBy n)"
| "has_action IntCounterVec a \<longleftrightarrow> a = Inc \<or> (\<exists>n. a = IncBy n) \<or> a = Resolve"
| "has_action GaugeVec a \<longleftrightarrow> a = Inc \<or> a = Dec \<or> (\<exists>x. a = SetTo x) \<or> a = Resolve"
| "has_action (HistogramVec buckets) a \<longleftrightarrow> (\<exists>x. a = ObserveValue x) \<or> a = Resolve"

definition action_ok :: "metric \<Rightarrow> prom_action \<Rightarrow> bool" where
  "action_ok m a \<longleftrightarrow> (case map_of (map (\<lambda>opt. (opt_metric opt, opt_kind opt)) schema) m of
                        Some k \<Rightarrow> has_action k a | None \<Rightarrow> False)"

text \<open>
  A call fits the registered schema: the metric has the operation, and \<^verbatim>\<open>with_label_values\<close>, which
  panics otherwise, is given one value per label name; binding terms come from
  \<^verbatim>\<open>BindingTerm::as_str\<close>.
\<close>

fun call_ok :: "prom_call \<Rightarrow> bool" where
  "call_ok (Direct m a) \<longleftrightarrow> arity m = 0 \<and> action_ok m a"
| "call_ok (WithLabels m ls a) \<longleftrightarrow> 0 < arity m \<and> length ls = arity m \<and> action_ok m a
     \<and> (m = combined_bps_binding_term \<longrightarrow> ls ! 1 \<in> set (map BindingTerm_as_str BindingTerm_ALL))"
| "call_ok (Handle m ls a) \<longleftrightarrow> length ls = arity m \<and> action_ok m a"
| "call_ok (Remove m ls) \<longleftrightarrow> 0 < arity m \<and> length ls = arity m"

lemma arity_simps [simp]:
  "arity active_participants = 0" "arity forwarded_packets_total = 1" "arity layer_selection_total = 1"
  "arity dominant_speaker_changes_total = 0" "arity client_connect_total = 0"
  "arity client_disconnect_total = 0" "arity peer_loss_fraction = 1" "arity peer_jitter_ms = 1"
  "arity peer_rtt_ms = 1" "arity bandwidth_estimate_bps = 1" "arity combined_bps_binding_term = 2"
  "arity speaker_immediate = 1" "arity speaker_medium = 1" "arity speaker_long = 1"
  "arity pacer_suspend_video_total = 1" "arity pacer_tick_throttled_total = 0"
  "arity video_frames_dropped_total = 1" "arity forward_latency_seconds = 1"
  "arity track_bytes_total = 2" "arity rtcp_pli_total = 1"
  by (simp_all add: arity_def schema_def)

lemma action_ok_simps [simp]:
  "action_ok active_participants a \<longleftrightarrow> a = Inc \<or> a = Dec"
  "action_ok forwarded_packets_total Inc" "action_ok layer_selection_total Inc"
  "action_ok dominant_speaker_changes_total Inc" "action_ok client_connect_total Inc"
  "action_ok client_disconnect_total Inc" "action_ok peer_loss_fraction (SetTo x)"
  "action_ok peer_jitter_ms (SetTo x)" "action_ok peer_rtt_ms (SetTo x)"
  "action_ok bandwidth_estimate_bps (SetTo x)" "action_ok combined_bps_binding_term Inc"
  "action_ok speaker_immediate (SetTo x)" "action_ok speaker_medium (SetTo x)"
  "action_ok speaker_long (SetTo x)" "action_ok pacer_suspend_video_total Inc"
  "action_ok pacer_tick_throttled_total Inc" "action_ok video_frames_dropped_total Inc"
  "action_ok video_frames_dropped_total Resolve" "action_ok forward_latency_seconds (ObserveValue x)"
  "action_ok track_bytes_total (IncBy n)" "action_ok rtcp_pli_total Inc"
  by (simp_all add: action_ok_def schema_def)

lemma per_peer_iff:
  "per_peer m \<longleftrightarrow> m \<in> {peer_loss_fraction, peer_jitter_ms, peer_rtt_ms, bandwidth_estimate_bps,
     combined_bps_binding_term, speaker_immediate, speaker_medium, speaker_long, video_frames_dropped_total}"
  by (cases m) (simp_all add: per_peer_def schema_def)

lemma binding_term_known: "BindingTerm_as_str t \<in> BindingTerm_as_str ` set BindingTerm_ALL"
  by (cases t) (simp_all add: BindingTerm_ALL_def)

lemma metric_ops_ok:
  "list_all call_ok (inc_forwarded_packets k)" "list_all call_ok (observe_forward_latency k x)"
  "list_all call_ok (inc_layer_selection k)" "list_all call_ok (inc_suspend_video k)"
  "list_all call_ok inc_pacer_tick_throttled" "list_all call_ok (peer_drop_counter p)"
  "list_all call_ok (reap_video_frames_dropped p)" "list_all call_ok inc_client_connect"
  "list_all call_ok inc_client_disconnect" "list_all call_ok inc_active_participants"
  "list_all call_ok dec_active_participants" "list_all call_ok inc_dominant_speaker_changes"
  "list_all call_ok (update_peer_rtcp p l r j)" "list_all call_ok (update_peer_bwe p bps)"
  "list_all call_ok (update_peer_binding_term p (BindingTerm_as_str t))"
  "list_all call_ok (update_peer_speaker_scores p a b c)" "list_all call_ok (add_track_bytes_in k n)"
  "list_all call_ok (add_track_bytes_out k n)" "list_all call_ok (inc_rtcp_pli k)"
  "list_all call_ok (reap_dead_peer p)"
  by (simp_all add: metric_ops Let_def list_all_iff binding_term_known)

text \<open>The documented effect of the calls on the exposed series.\<close>

definition prom_contract :: "(prom_call list \<Rightarrow> (metric \<times> string list) set) \<Rightarrow> bool" where
  "prom_contract live \<longleftrightarrow>
     (\<forall>t m a. live (t @ [Direct m a]) = live t) \<and> (\<forall>t m ls a. live (t @ [Handle m ls a]) = live t)
     \<and> (\<forall>t m ls a. live (t @ [WithLabels m ls a]) = insert (m, ls) (live t))
     \<and> (\<forall>t m ls. live (t @ [Remove m ls]) = live t - {(m, ls)}) \<and> live [] = {}"

lemma live_arity:
  assumes "prom_contract live" and "list_all call_ok t" and "(m, ls) \<in> live t"
  shows "length ls = arity m
    \<and> (m = combined_bps_binding_term \<longrightarrow> ls ! 1 \<in> set (map BindingTerm_as_str BindingTerm_ALL))"
  using assms(2,3)
proof (induction t rule: rev_induct)
  case Nil
  then show ?case using assms(1) by (simp add: prom_contract_def)
next
  case (snoc c t)
  then show ?case using assms(1) by (cases c) (auto simp: prom_contract_def)
qed

lemma live_removes:
  assumes "prom_contract live" and "list_all (\<lambda>c. \<exists>m ls. c = Remove m ls) rs"
  shows "live (t @ rs) = live t - {(m, ls). Remove m ls \<in> set rs}"
  using assms(2)
proof (induction rs rule: rev_induct)
  case (snoc c rs)
  then obtain m ls where c: "c = Remove m ls" by auto
  have "live ((t @ rs) @ [Remove m ls]) = live (t @ rs) - {(m, ls)}"
    using assms(1) unfolding prom_contract_def by blast
  with snoc show ?case by (auto simp: c)
qed simp

text \<open>
  Reaping a peer removes exactly its series: every series of a per-peer metric (loss, jitter, RTT,
  bandwidth, binding term, speaker scores, dropped frames) labelled with \<open>p\<close>.
\<close>

lemma live_reap_dead_peer:
  assumes "prom_contract live" and "list_all call_ok t"
  shows "live (t @ reap_dead_peer p)
    = {(m, ls) \<in> live t. \<not> (per_peer m \<and> hd ls = peer_label p)}"
proof -
  have "live (t @ reap_dead_peer p) = live t - {(m, ls). Remove m ls \<in> set (reap_dead_peer p)}"
    by (rule live_removes [OF assms(1)]) (auto simp: metric_ops list_all_iff Let_def)
  moreover have "Remove m ls \<in> set (reap_dead_peer p) \<longleftrightarrow> per_peer m \<and> hd ls = peer_label p"
    if "(m, ls) \<in> live t" for m ls
  proof -
    have l: "length ls = arity m"
        "m = combined_bps_binding_term \<longrightarrow> ls ! 1 \<in> set (map BindingTerm_as_str BindingTerm_ALL)"
      using live_arity [OF assms that] by auto
    then show ?thesis
      by (cases m) (auto simp: metric_ops Let_def per_peer_iff length_Suc_conv numeral_2_eq_2)
  qed
  ultimately show ?thesis by auto
qed

text \<open>A set of series that behaves as documented, computed from the calls.\<close>

fun live_call :: "(metric \<times> string list) set \<Rightarrow> prom_call \<Rightarrow> (metric \<times> string list) set" where
  "live_call S (WithLabels m ls a) = insert (m, ls) S"
| "live_call S (Remove m ls) = S - {(m, ls)}"
| "live_call S _ = S"

lemma live_call_contract: "prom_contract (foldl live_call {})"
  by (simp add: prom_contract_def)

end
