(* ===== verification/Header_Ext.thy ===== *)
theory Header_Ext
  imports Prelude
begin

unbundle bit_operations_syntax

text \<open>
  RTP header extensions: the AV1 dependency descriptor (\<^verbatim>\<open>src/av1/dependency_descriptor.rs\<close>), video
  frame marking (\<^verbatim>\<open>src/vfm/frame_marking.rs\<close>) and the SFrame key epoch (\<^verbatim>\<open>src/sframe.rs\<close>). The
  encoders of the first two are those of the unit tests. \<open>wire_format\<close> states what an encoder and a
  parser promise each other; all three interpret it.
\<close>

section \<open>The contract of a wire format\<close>

locale wire_format =
  fixes encode :: "'a \<Rightarrow> u8 list option"
    and decode :: "u8 list \<Rightarrow> 'a option"
  assumes decode_encode: "encode x = Some bs \<Longrightarrow> decode bs = Some x"
begin

lemma encode_inj: "encode x = Some bs \<Longrightarrow> encode y = Some bs \<Longrightarrow> x = y"
  using decode_encode [of x bs] decode_encode [of y bs] by simp

lemma encode_nonambiguous: "encode x = Some bs \<Longrightarrow> decode bs = Some y \<Longrightarrow> y = x"
  using decode_encode [of x bs] by simp

end

section \<open>AV1 dependency descriptor (av1/dependency\_descriptor.rs)\<close>

record Av1DdInfo =
  spatial_id :: u8
  av1_temporal_id :: u8
  av1_start_of_frame :: bool
  av1_end_of_frame :: bool

definition av1_parse :: "u8 list \<Rightarrow> Av1DdInfo option" where
  "av1_parse bytes =
     (case bytes of
        [] \<Rightarrow> None
      | first # _ \<Rightarrow>
          let start_of_frame = (drop_bit 7 first AND 1 = 1);
              end_of_frame = (drop_bit 6 first AND 1 = 1);
              template_id = first AND 0x3F;
              (s, t) = (if template_id < 9 then (template_id div 3, template_id mod 3) else (0, 0))
          in Some \<lparr>spatial_id = s, av1_temporal_id = t, av1_start_of_frame = start_of_frame,
                   av1_end_of_frame = end_of_frame\<rparr>)"

definition av1_make_byte :: "bool \<Rightarrow> bool \<Rightarrow> u8 \<Rightarrow> u8" where
  "av1_make_byte sof eof template_id =
     (if sof then push_bit 7 1 else 0) OR (if eof then push_bit 6 1 else 0) OR (template_id AND 0x3F)"

text \<open>The descriptor of a layer of the 3x3 grid: template \<open>3 * spatial + temporal\<close>.\<close>

definition av1_encode :: "Av1DdInfo \<Rightarrow> u8 list option" where
  "av1_encode i =
     (if spatial_id i < 3 \<and> av1_temporal_id i < 3
      then Some [av1_make_byte (av1_start_of_frame i) (av1_end_of_frame i) (3 * spatial_id i + av1_temporal_id i)]
      else None)"

section \<open>Video frame marking (vfm/frame\_marking.rs)\<close>

record FrameMarkingInfo =
  vfm_start_of_frame :: bool
  vfm_end_of_frame :: bool
  independent :: bool
  discardable :: bool
  base_layer_sync :: bool
  vfm_temporal_id :: u8

definition vfm_parse :: "u8 list \<Rightarrow> FrameMarkingInfo option" where
  "vfm_parse bytes =
     (case bytes of
        [] \<Rightarrow> None
      | b # _ \<Rightarrow> Some \<lparr>vfm_start_of_frame = (drop_bit 7 b AND 1 = 1), vfm_end_of_frame = (drop_bit 6 b AND 1 = 1),
                       independent = (drop_bit 5 b AND 1 = 1), discardable = (drop_bit 4 b AND 1 = 1),
                       base_layer_sync = (drop_bit 3 b AND 1 = 1), vfm_temporal_id = b AND 0x07\<rparr>)"

definition vfm_make_byte :: "bool \<Rightarrow> bool \<Rightarrow> bool \<Rightarrow> bool \<Rightarrow> bool \<Rightarrow> u8 \<Rightarrow> u8" where
  "vfm_make_byte s e i d b tid =
     push_bit 7 (of_bool s) OR push_bit 6 (of_bool e) OR push_bit 5 (of_bool i)
     OR push_bit 4 (of_bool d) OR push_bit 3 (of_bool b) OR (tid AND 0x07)"

definition vfm_encode :: "FrameMarkingInfo \<Rightarrow> u8 list option" where
  "vfm_encode i =
     (if vfm_temporal_id i < 8
      then Some [vfm_make_byte (vfm_start_of_frame i) (vfm_end_of_frame i) (independent i)
                   (discardable i) (base_layer_sync i) (vfm_temporal_id i)]
      else None)"

section \<open>SFrame key epoch (sframe.rs)\<close>

datatype KeyEpoch = KeyEpoch u64

definition KeyEpoch_new :: "u64 \<Rightarrow> KeyEpoch" where
  "KeyEpoch_new kid = KeyEpoch kid"

fun KeyEpoch_as_u64 :: "KeyEpoch \<Rightarrow> u64" where
  "KeyEpoch_as_u64 (KeyEpoch kid) = kid"

definition SFRAME_KID_WIDTH :: nat where "SFRAME_KID_WIDTH = 4"

definition to_be_bytes :: "u32 \<Rightarrow> u8 list" where
  "to_be_bytes w = [ucast (drop_bit 24 w), ucast (drop_bit 16 w), ucast (drop_bit 8 w), ucast w]"

definition from_be_bytes :: "u8 \<Rightarrow> u8 \<Rightarrow> u8 \<Rightarrow> u8 \<Rightarrow> u32" where
  "from_be_bytes a b c d = push_bit 24 (ucast a) OR push_bit 16 (ucast b) OR push_bit 8 (ucast c) OR ucast d"

text \<open>
  Of the extension values of a packet only the slot of type \<^verbatim>\<open>KeyEpoch\<close> among the user values is
  read or written. \<open>kid_write_to\<close> returns the buffer and the number of bytes written.
\<close>

definition kid_write_to :: "u8 list \<Rightarrow> KeyEpoch option \<Rightarrow> u8 list \<times> nat" where
  "kid_write_to buf ev =
     (case ev of
        None \<Rightarrow> (buf, 0)
      | Some ke \<Rightarrow>
          if 2 ^ 32 \<le> unat (KeyEpoch_as_u64 ke) then (buf, 0)
          else if length buf < SFRAME_KID_WIDTH then (buf, 0)
          else (to_be_bytes (ucast (KeyEpoch_as_u64 ke)) @ drop SFRAME_KID_WIDTH buf, SFRAME_KID_WIDTH))"

definition kid_parse_value :: "u8 list \<Rightarrow> KeyEpoch option \<Rightarrow> KeyEpoch option \<times> bool" where
  "kid_parse_value buf ev =
     (case buf of
        [a, b, c, d] \<Rightarrow> (Some (KeyEpoch_new (ucast (from_be_bytes a b c d))), True)
      | _ \<Rightarrow> (ev, False))"

text \<open>
  What the kit hands to str0m to have the extension parsed and written: the serializer as the record of its
  methods, and \<^verbatim>\<open>Extension::with_serializer\<close> as the pair of URI and serializer.
\<close>

record ExtensionSerializer =
  ser_write_to :: "u8 list \<Rightarrow> KeyEpoch option \<Rightarrow> u8 list \<times> nat"
  ser_parse_value :: "u8 list \<Rightarrow> KeyEpoch option \<Rightarrow> KeyEpoch option \<times> bool"
  ser_is_video :: bool
  ser_is_audio :: bool

record Extension =
  ext_uri :: string
  ext_serializer :: ExtensionSerializer

definition KeyEpochSerializer :: ExtensionSerializer where
  "KeyEpochSerializer = \<lparr>ser_write_to = kid_write_to, ser_parse_value = kid_parse_value,
     ser_is_video = True, ser_is_audio = True\<rparr>"

definition sframe_key_id_extension :: "string \<Rightarrow> Extension" where
  "sframe_key_id_extension uri = \<lparr>ext_uri = uri, ext_serializer = KeyEpochSerializer\<rparr>"

section \<open>Single bits\<close>

lemma flag_bit: "drop_bit n b AND 1 = 1 \<longleftrightarrow> bit b n" for b :: "'a::len word"
  by (simp add: and_one_eq bit_iff_odd_drop_bit mod_2_eq_odd)

lemma vfm_parse_cons:
  "vfm_parse (b # bs) = Some \<lparr>vfm_start_of_frame = bit b 7, vfm_end_of_frame = bit b 6,
     independent = bit b 5, discardable = bit b 4, base_layer_sync = bit b 3, vfm_temporal_id = b AND 0x07\<rparr>"
  by (simp add: vfm_parse_def flag_bit)

lemma mask3: "(7 :: u8) = mask 3" and mask6: "(0x3F :: u8) = mask 6"
  by (simp_all add: mask_eq_exp_minus_1)

lemma bit_flag: "bit (push_bit k (of_bool p) :: u8) n \<longleftrightarrow> p \<and> n = k" if "k < 8"
  using that by (auto simp: bit_push_bit_iff bit_simps)

lemma bit_flags:
  "bit (push_bit 7 (of_bool p) :: u8) n \<longleftrightarrow> p \<and> n = 7" "bit (push_bit 6 (of_bool p) :: u8) n \<longleftrightarrow> p \<and> n = 6"
  "bit (push_bit 5 (of_bool p) :: u8) n \<longleftrightarrow> p \<and> n = 5" "bit (push_bit 4 (of_bool p) :: u8) n \<longleftrightarrow> p \<and> n = 4"
  "bit (push_bit 3 (of_bool p) :: u8) n \<longleftrightarrow> p \<and> n = 3"
  by (rule bit_flag; simp)+

lemma bit_low_mask: "bit (t AND mask k) n \<longleftrightarrow> n < k \<and> bit t n" for t :: u8
  by (auto simp: bit_and_iff bit_mask_iff dest: bit_imp_possible_bit)

lemma bit_vfm_make_byte:
  "bit (vfm_make_byte s e i d b t) n \<longleftrightarrow>
     s \<and> n = 7 \<or> e \<and> n = 6 \<or> i \<and> n = 5 \<or> d \<and> n = 4 \<or> b \<and> n = 3 \<or> n < 3 \<and> bit t n"
  unfolding vfm_make_byte_def mask3 bit_or_iff bit_flags bit_low_mask by blast

lemma vfm_make_tid: "vfm_make_byte s e i d b t AND 0x07 = t AND 0x07"
  unfolding mask3 by (rule bit_word_eqI) (auto simp only: bit_low_mask bit_vfm_make_byte)

lemma low_bits: fixes t :: "'a::len word" assumes "unat t < 2 ^ n" shows "t AND mask n = t"
proof -
  have "unat (take_bit n t) = unat t" using assms by (simp add: unsigned_take_bit_eq take_bit_nat_eq_self)
  then show ?thesis by (simp add: unsigned_word_eqI flip: take_bit_eq_mask)
qed

lemma low_bits_less: "unat (t AND mask n) < 2 ^ n" for t :: "'a::len word"
  by (simp add: unsigned_take_bit_eq flip: take_bit_eq_mask)

lemma vfm_byte_bits: "vfm_make_byte (bit b 7) (bit b 6) (bit b 5) (bit b 4) (bit b 3) (b AND 0x07) = b"
proof (rule bit_word_eqI)
  fix n assume "n < LENGTH(8)"
  then have "n = 7 \<or> n = 6 \<or> n = 5 \<or> n = 4 \<or> n = 3 \<or> n < 3" by auto
  then show "bit (vfm_make_byte (bit b 7) (bit b 6) (bit b 5) (bit b 4) (bit b 3) (b AND 0x07)) n = bit b n"
    unfolding mask3 bit_vfm_make_byte bit_low_mask by auto
qed

interpretation vfm: wire_format vfm_encode vfm_parse
proof
  fix i bs assume "vfm_encode i = Some bs"
  then show "vfm_parse bs = Some i"
    using low_bits [of "vfm_temporal_id i" 3]
    by (auto simp: vfm_encode_def vfm_parse_cons bit_vfm_make_byte vfm_make_tid word_less_nat_alt
        simp flip: mask3 split: if_splits)
qed

text \<open>
  Every extension value with a first byte is parsed, and encoding the result gives back exactly that
  byte; conversely every marking whose temporal id has 3 bits is parsed back from its encoding.
\<close>

lemma vfm_exact:
  "vfm_parse [] = None
   \<and> (\<exists>i. vfm_parse (b # bs) = Some i \<and> vfm_encode i = Some [b])
   \<and> (vfm_temporal_id i < 8 \<longrightarrow> Option.bind (vfm_encode i) vfm_parse = Some i)"
proof (intro conjI impI)
  show "vfm_parse [] = None" by (simp add: vfm_parse_def)
  have "b AND 0x07 < 8" using low_bits_less [of b 3] by (simp add: mask3 word_less_nat_alt)
  then show "\<exists>i. vfm_parse (b # bs) = Some i \<and> vfm_encode i = Some [b]"
    by (simp add: vfm_parse_cons vfm_encode_def vfm_byte_bits)
  show "Option.bind (vfm_encode i) vfm_parse = Some i" if "vfm_temporal_id i < 8"
    using that vfm.decode_encode [of i] by (simp add: vfm_encode_def)
qed

section \<open>AV1\<close>

lemma av1_parse_cons:
  "av1_parse (b # bs) = Some \<lparr>spatial_id = (if b AND 0x3F < 9 then (b AND 0x3F) div 3 else 0),
     av1_temporal_id = (if b AND 0x3F < 9 then (b AND 0x3F) mod 3 else 0),
     av1_start_of_frame = bit b 7, av1_end_of_frame = bit b 6\<rparr>"
  by (simp add: av1_parse_def flag_bit Let_def)

lemma bit_av1_make_byte:
  "bit (av1_make_byte s e t) n \<longleftrightarrow> s \<and> n = 7 \<or> e \<and> n = 6 \<or> n < 6 \<and> bit t n"
proof -
  have "av1_make_byte s e t = push_bit 7 (of_bool s) OR push_bit 6 (of_bool e) OR (t AND mask 6)"
    by (simp add: av1_make_byte_def mask6)
  then show ?thesis
    by (simp only: bit_or_iff bit_flags bit_low_mask)
qed

lemma av1_make_template: "av1_make_byte s e t AND 0x3F = t AND 0x3F"
  unfolding mask6 by (rule bit_word_eqI) (auto simp only: bit_low_mask bit_av1_make_byte)

lemma less_3_cases: assumes "(x :: u8) < 3" shows "x = 0 \<or> x = 1 \<or> x = 2"
proof -
  have "unat x = 0 \<or> unat x = 1 \<or> unat x = 2" using assms by (auto simp: word_less_nat_alt)
  then have "word_of_nat (unat x) = (0 :: u8) \<or> word_of_nat (unat x) = (1 :: u8)
      \<or> word_of_nat (unat x) = (2 :: u8)" by auto
  then show ?thesis by (simp add: of_nat_unat)
qed

interpretation av1: wire_format av1_encode av1_parse
proof
  fix i bs assume i: "av1_encode i = Some bs"
  then have "spatial_id i < 3" "av1_temporal_id i < 3" by (auto simp: av1_encode_def split: if_splits)
  then have "spatial_id i \<in> {0, 1, 2}" "av1_temporal_id i \<in> {0, 1, 2}"
    using less_3_cases by blast+
  with i show "av1_parse bs = Some i"
    by (cases i) (auto simp: av1_encode_def av1_parse_cons bit_av1_make_byte av1_make_template)
qed

text \<open>
  A descriptor of each of the nine layers of the L3T3 grid is parsed back exactly, whatever bytes
  follow the first; every other template id is treated as the base layer.
\<close>

lemma av1_exact:
  "(spatial_id i < 3 \<and> av1_temporal_id i < 3 \<longrightarrow> Option.bind (av1_encode i) av1_parse = Some i)
   \<and> av1_parse [] = None
   \<and> av1_parse (b # bs) = av1_parse [b]
   \<and> (\<exists>j. av1_parse [b] = Some j \<and> spatial_id j < 3 \<and> av1_temporal_id j < 3
        \<and> (9 \<le> b AND 0x3F \<longrightarrow> spatial_id j = 0 \<and> av1_temporal_id j = 0))"
proof -
  have "Option.bind (av1_encode i) av1_parse = Some i" if "spatial_id i < 3" "av1_temporal_id i < 3"
    using that av1.decode_encode [of i] by (simp add: av1_encode_def)
  moreover have "t div 3 < 3" "t mod 3 < 3" if "t < 9" for t :: u8
    using that by (simp_all add: word_less_nat_alt unat_div_distrib unat_mod_distrib)
  ultimately show ?thesis
    by (auto simp: av1_parse_cons av1_parse_def [of "[]"] not_less [symmetric])
qed

text \<open>
  C37: the two frame descriptors are parsed correctly. Frame marking is a lossless one-byte format:
  every value with a first byte is parsed, encoding the result gives back exactly that byte, and
  every marking whose temporal id has 3 bits is parsed back from its encoding. The AV1 descriptor
  parser is correct on the L3T3 grid and safe outside it: each of the nine layers is parsed back
  exactly, whatever bytes follow the first; every other template id is treated as the base layer;
  parsed ids are always below 3, so they never select a layer that does not exist. Both reject only
  the empty value.
\<close>

theorem descriptors_parse_correctly:
  "vfm_parse [] = None \<and> av1_parse [] = None
   \<and> (\<exists>m. vfm_parse (b # bs) = Some m \<and> vfm_encode m = Some [b])
   \<and> (vfm_temporal_id m < 8 \<longrightarrow> Option.bind (vfm_encode m) vfm_parse = Some m)
   \<and> (spatial_id i < 3 \<and> av1_temporal_id i < 3 \<longrightarrow> Option.bind (av1_encode i) av1_parse = Some i)
   \<and> av1_parse (b # bs) = av1_parse [b]
   \<and> (\<exists>j. av1_parse [b] = Some j \<and> spatial_id j < 3 \<and> av1_temporal_id j < 3
        \<and> (9 \<le> b AND 0x3F \<longrightarrow> spatial_id j = 0 \<and> av1_temporal_id j = 0))"
  using vfm_exact [of b bs m] av1_exact [of i b bs] by blast

section \<open>Key epochs\<close>

lemma be_bytes_inverse:
  "from_be_bytes (ucast (drop_bit 24 w)) (ucast (drop_bit 16 w)) (ucast (drop_bit 8 w)) (ucast w) = w"
  for w :: u32
proof (rule bit_word_eqI)
  fix n assume n: "n < LENGTH(32)"
  have "n < 8 \<or> (8 \<le> n \<and> n < 16) \<or> (16 \<le> n \<and> n < 24) \<or> (24 \<le> n \<and> n < 32)" using n by auto
  then show "bit (from_be_bytes (ucast (drop_bit 24 w)) (ucast (drop_bit 16 w)) (ucast (drop_bit 8 w)) (ucast w)) n
      = bit w n"
    using n by (auto simp: from_be_bytes_def bit_or_iff bit_push_bit_iff bit_ucast_iff bit_drop_bit_eq)
qed

lemma ucast_u32_u64: "unat k < 2 ^ 32 \<Longrightarrow> ucast (ucast k :: u32) = k" for k :: u64
  by (rule unsigned_word_eqI) (use low_bits [of k 32] in \<open>simp add: unsigned_ucast_eq flip: take_bit_eq_mask\<close>)

definition kid_encode :: "KeyEpoch \<Rightarrow> u8 list option" where
  "kid_encode ke = (case kid_write_to (replicate SFRAME_KID_WIDTH 0) (Some ke) of
     (buf, n) \<Rightarrow> if n = 0 then None else Some (take n buf))"

definition kid_decode :: "u8 list \<Rightarrow> KeyEpoch option" where
  "kid_decode buf = fst (kid_parse_value buf None)"

interpretation kid: wire_format kid_encode kid_decode
proof
  fix ke bs assume e: "kid_encode ke = Some bs"
  obtain k where k: "ke = KeyEpoch k" by (cases ke)
  from e have "unat k < 2 ^ 32" "bs = to_be_bytes (ucast k)"
    by (auto simp: kid_encode_def kid_write_to_def k SFRAME_KID_WIDTH_def to_be_bytes_def split: if_splits)
  then show "kid_decode bs = Some ke"
    using be_bytes_inverse [of "ucast k"] ucast_u32_u64 [of k]
    by (simp add: kid_decode_def kid_parse_value_def to_be_bytes_def KeyEpoch_new_def k)
qed

text \<open>
  Two peers that register the extension under one URI, for either kind of media, agree: what one writes the other reads.
\<close>

lemma registered_extensions_agree:
  assumes "kid_encode ke = Some bs"
  shows "ser_parse_value (ext_serializer (sframe_key_id_extension uri)) bs None = (Some ke, True)"
proof -
  have d: "kid_decode bs = Some ke" by (rule kid.decode_encode [OF assms])
  then have "snd (kid_parse_value bs None)"
    by (auto simp: kid_decode_def kid_parse_value_def split: list.splits)
  with d show ?thesis
    by (simp add: sframe_key_id_extension_def KeyEpochSerializer_def kid_decode_def prod_eq_iff)
qed

text \<open>
  C36: key epochs survive the wire or are left out, never altered. Into any buffer of at least four
  bytes an epoch below \<open>2^32\<close> is written as exactly four bytes, the rest of the buffer untouched, and
  those four bytes are parsed back to the same epoch; an epoch that does not fit, a short buffer or
  a missing epoch writes nothing; a value of any other width is rejected without changing what was
  parsed before.
\<close>

theorem key_epoch_roundtrip:
  "(case kid_write_to buf (Some ke) of
      (buf', n) \<Rightarrow>
        length buf' = length buf
        \<and> (if unat (KeyEpoch_as_u64 ke) < 2 ^ 32 \<and> 4 \<le> length buf
            then n = 4 \<and> drop 4 buf' = drop 4 buf \<and> kid_parse_value (take 4 buf') ev = (Some ke, True)
            else n = 0 \<and> buf' = buf))
   \<and> kid_write_to buf None = (buf, 0)
   \<and> (length value \<noteq> 4 \<longrightarrow> kid_parse_value value ev = (ev, False))"
proof -
  obtain k where k: "ke = KeyEpoch k" by (cases ke)
  have "kid_parse_value (to_be_bytes (ucast k)) ev = (Some ke, True)" if "unat k < 2 ^ 32"
    using be_bytes_inverse [of "ucast k"] ucast_u32_u64 [OF that]
    by (simp add: kid_parse_value_def to_be_bytes_def KeyEpoch_new_def k)
  moreover have "length (to_be_bytes w) = 4" for w by (simp add: to_be_bytes_def)
  moreover have "kid_parse_value value ev = (ev, False)" if "length value \<noteq> 4"
    using that by (auto simp: kid_parse_value_def split: list.splits)
  ultimately show ?thesis
    by (auto simp: kid_write_to_def SFRAME_KID_WIDTH_def k)
qed

theorem key_epoch_roundtrip_witness:
  "snd (kid_write_to [9, 9, 9, 9, 9, 9] (Some (KeyEpoch 258))) = 4
   \<and> kid_parse_value (take 4 (fst (kid_write_to [9, 9, 9, 9, 9, 9] (Some (KeyEpoch 258))))) None
       = (Some (KeyEpoch 258), True)
   \<and> kid_parse_value [1, 2, 3] None = (None, False)"
  using key_epoch_roundtrip [of "[9, 9, 9, 9, 9, 9]" "KeyEpoch 258" None "[1, 2, 3]"]
  by (simp add: case_prod_unfold)

theorem descriptors_parse_correctly_witness:
  "Option.bind (vfm_encode \<lparr>vfm_start_of_frame = True, vfm_end_of_frame = False, independent = True,
     discardable = False, base_layer_sync = False, vfm_temporal_id = 5\<rparr>) vfm_parse
   = Some \<lparr>vfm_start_of_frame = True, vfm_end_of_frame = False, independent = True,
     discardable = False, base_layer_sync = False, vfm_temporal_id = 5\<rparr>
   \<and> Option.bind (av1_encode \<lparr>spatial_id = 2, av1_temporal_id = 1, av1_start_of_frame = True,
      av1_end_of_frame = False\<rparr>) av1_parse
    = Some \<lparr>spatial_id = 2, av1_temporal_id = 1, av1_start_of_frame = True, av1_end_of_frame = False\<rparr>
   \<and> (\<exists>j. av1_parse [63] = Some j \<and> spatial_id j = 0)"
proof -
  let ?m = "\<lparr>vfm_start_of_frame = True, vfm_end_of_frame = False, independent = True,
     discardable = False, base_layer_sync = False, vfm_temporal_id = 5\<rparr>"
  let ?i = "\<lparr>spatial_id = 2, av1_temporal_id = 1, av1_start_of_frame = True, av1_end_of_frame = False\<rparr>"
  have "vfm_temporal_id ?m < 8" "spatial_id ?i < 3 \<and> av1_temporal_id ?i < 3" "9 \<le> (63 :: u8) AND 0x3F"
    by (simp_all add: word_less_nat_alt)
  with descriptors_parse_correctly [of 63 "[]" ?m ?i] show ?thesis by blast
qed

end
