(* ===== verification/Media.thy ===== *)
theory Media
  imports Pacer Metrics Header_Ext
begin

text \<open>
  What travels between clients: the media payload of \<^verbatim>\<open>src/media.rs\<close>, the events of
  \<^verbatim>\<open>src/propagate.rs\<close> with the estimates and statistics they carry (\<^verbatim>\<open>src/bandwidth.rs\<close>,
  \<^verbatim>\<open>src/rtcp_stats.rs\<close>, \<^verbatim>\<open>src/client/stats.rs\<close>), and the data-channel descriptors of \<^verbatim>\<open>src/dc.rs\<close>.

  str0m's \<^verbatim>\<open>PayloadParams\<close> and \<^verbatim>\<open>MediaTime\<close> are the type parameters \<open>'p\<close> and \<open>'t\<close>. A \<^verbatim>\<open>Weak<TrackIn>\<close> is
  the address of the allocation it refers to.
\<close>

section \<open>Bandwidth estimates and statistics\<close>

record BandwidthEstimate =
  be_bps :: u64

definition BandwidthEstimate_zero :: BandwidthEstimate where
  "BandwidthEstimate_zero = \<lparr>be_bps = 0\<rparr>"

record PeerRtcpStats =
  fraction_lost :: f32
  stats_rtt :: duration
  stats_jitter :: duration

definition PeerRtcpStats_zero :: PeerRtcpStats where
  "PeerRtcpStats_zero = \<lparr>fraction_lost = Fin 0, stats_rtt = 0, stats_jitter = 0\<rparr>"

section \<open>Media payloads (media.rs)\<close>

text \<open>str0m's \<^verbatim>\<open>MediaData\<close>, with the extension values the kit reads.\<close>

record ('p, 't) MediaData =
  md_mid :: Mid
  md_pt :: Pt
  md_rid :: "Rid option"
  md_params :: 'p
  md_time :: 't
  md_network_time :: instant
  md_data :: "u8 list"
  md_contiguous :: bool
  md_audio_level :: "int option"
  md_key_epoch :: "KeyEpoch option"

record ('p, 't) SfuMediaPayload =
  mp_mid :: SfuMid
  mp_pt :: SfuPt
  mp_rid :: "SfuRid option"
  mp_data :: "u8 list"
  mp_network_time :: instant
  mp_contiguous :: bool
  mp_time :: 't
  mp_params :: 'p
  mp_av1_dd :: "Av1DdInfo option"
  mp_vfm_fm :: "FrameMarkingInfo option"
  mp_audio_level :: "int option"
  mp_key_epoch :: "KeyEpoch option"

definition SfuMediaPayload_from_str0m :: "('p, 't) MediaData \<Rightarrow> ('p, 't) SfuMediaPayload" where
  "SfuMediaPayload_from_str0m d =
     \<lparr>mp_mid = SfuMid_from_str0m (md_mid d), mp_pt = SfuPt_from_str0m (md_pt d),
      mp_rid = map_option SfuRid_from_str0m (md_rid d), mp_data = md_data d,
      mp_network_time = md_network_time d, mp_contiguous = md_contiguous d,
      mp_time = md_time d, mp_params = md_params d, mp_av1_dd = None, mp_vfm_fm = None,
      mp_audio_level = md_audio_level d, mp_key_epoch = md_key_epoch d\<rparr>"

definition write_parts :: "('p, 't) SfuMediaPayload \<Rightarrow> Pt \<times> instant \<times> 't \<times> Rid option \<times> u8 list \<times> 'p" where
  "write_parts d =
     (SfuPt_to_str0m (mp_pt d), mp_network_time d, mp_time d,
      map_option SfuRid_to_str0m (mp_rid d), mp_data d, mp_params d)"

text \<open>\<^verbatim>\<open>is_video\<close> asks str0m for the codec's kind, \<^verbatim>\<open>rtp_send_ms\<close> for the media time in seconds.\<close>

definition payload_is_video :: "('p \<Rightarrow> bool) \<Rightarrow> ('p, 't) SfuMediaPayload \<Rightarrow> bool" where
  "payload_is_video codec_is_video d = codec_is_video (mp_params d)"

definition rtp_send_ms :: "('t \<Rightarrow> f64) \<Rightarrow> ('p, 't) SfuMediaPayload \<Rightarrow> f64" where
  "rtp_send_ms as_seconds d = as_seconds (mp_time d) * Fin 1000"

section \<open>Propagated events (propagate.rs)\<close>

type_synonym arc = nat

datatype ('p, 't) Propagated =
    Noop
  | Timeout instant
  | TrackOpen client_id arc
  | MediaDataEv client_id "('p, 't) SfuMediaPayload"
  | KeyframeRequestEv client_id SfuKeyframeRequest client_id SfuMid
  | UpstreamKeyframeRequest client_id SfuKeyframeRequest SfuMid
  | ActiveSpeakerChanged u64 f64
  | BandwidthEstimateEv client_id BandwidthEstimate
  | ClientBudgetHint client_id u64
  | RtcpStats client_id PeerRtcpStats
  | AudioOnlyMode client_id bool
  | SuspendVideoEv client_id bool
  | PublisherLayerHint client_id SfuRid
  | PublisherLayerHintForUpstream client_id SfuRid
  | AudioCodecHint client_id bool bool

fun propagated_client_id :: "('p, 't) Propagated \<Rightarrow> client_id option" where
  "propagated_client_id (TrackOpen c _) = Some c"
| "propagated_client_id (MediaDataEv c _) = Some c"
| "propagated_client_id (KeyframeRequestEv c _ _ _) = Some c"
| "propagated_client_id Noop = None"
| "propagated_client_id (Timeout _) = None"
| "propagated_client_id (ActiveSpeakerChanged _ _) = None"
| "propagated_client_id (ClientBudgetHint c _) = Some c"
| "propagated_client_id (BandwidthEstimateEv p _) = Some p"
| "propagated_client_id (RtcpStats p _) = Some p"
| "propagated_client_id (AudioOnlyMode p _) = Some p"
| "propagated_client_id (SuspendVideoEv p _) = Some p"
| "propagated_client_id (PublisherLayerHint p _) = Some p"
| "propagated_client_id (PublisherLayerHintForUpstream p _) = Some p"
| "propagated_client_id (AudioCodecHint p _ _) = Some p"
| "propagated_client_id (UpstreamKeyframeRequest p _ _) = Some p"

section \<open>Statistics events (client/stats.rs)\<close>

datatype BweKind = TwccBwe u64 | RembBwe Mid u64 | OtherBwe

definition propagate_bwe :: "client_id \<Rightarrow> BweKind \<Rightarrow> ('p, 't) Propagated" where
  "propagate_bwe peer_id bwe =
     (let bps = (case bwe of TwccBwe b \<Rightarrow> b | RembBwe _ b \<Rightarrow> b | OtherBwe \<Rightarrow> 0)
      in BandwidthEstimateEv peer_id \<lparr>be_bps = bps\<rparr>)"

record PeerStats =
  egress_loss_fraction :: "f32 option"
  ps_rtt :: "duration option"

definition propagate_peer_stats :: "client_id \<Rightarrow> PeerStats \<Rightarrow> ('p, 't) Propagated" where
  "propagate_peer_stats peer_id s =
     RtcpStats peer_id
       \<lparr>fraction_lost = (case egress_loss_fraction s of Some l \<Rightarrow> l | None \<Rightarrow> Fin 0),
        stats_rtt = (case ps_rtt s of Some r \<Rightarrow> r | None \<Rightarrow> 0), stats_jitter = 0\<rparr>"

section \<open>Data channels (dc.rs)\<close>

record ChannelConfig =
  dc_id :: u16
  dc_label :: string
  dc_ordered :: bool
  max_packet_lifetime_ms :: "u32 option"
  max_retransmits :: "u16 option"

definition reliable_ordered :: ChannelConfig where
  "reliable_ordered = \<lparr>dc_id = 0, dc_label = '''', dc_ordered = True,
     max_packet_lifetime_ms = None, max_retransmits = None\<rparr>"

definition unreliable_max_retransmits :: "u16 \<Rightarrow> ChannelConfig" where
  "unreliable_max_retransmits n = \<lparr>dc_id = 0, dc_label = '''', dc_ordered = False,
     max_packet_lifetime_ms = None, max_retransmits = Some n\<rparr>"

definition unreliable_max_lifetime :: "u32 \<Rightarrow> ChannelConfig" where
  "unreliable_max_lifetime ms = \<lparr>dc_id = 0, dc_label = '''', dc_ordered = False,
     max_packet_lifetime_ms = Some ms, max_retransmits = None\<rparr>"

text \<open>The invariant of the type's documentation, ids of a client's channels being unique.\<close>

definition channel_ok :: "ChannelConfig \<Rightarrow> bool" where
  "channel_ok c \<longleftrightarrow> max_packet_lifetime_ms c = None \<or> max_retransmits c = None"

lemma constructors_channel_ok:
  "channel_ok reliable_ordered" "channel_ok (unreliable_max_retransmits n)"
  "channel_ok (unreliable_max_lifetime ms)"
  by (simp_all add: channel_ok_def reliable_ordered_def unreliable_max_retransmits_def
      unreliable_max_lifetime_def)

lemma from_str0m_mid_rid:
  "SfuMid_to_str0m (mp_mid (SfuMediaPayload_from_str0m d)) = md_mid d"
  "map_option SfuRid_to_str0m (mp_rid (SfuMediaPayload_from_str0m d)) = md_rid d"
  by (simp_all add: SfuMediaPayload_from_str0m_def rid_wrapper.map_option_to_from)

end
