(* ===== verification/Client.thy ===== *)
theory Client
  imports Media
begin

text \<open>
  One peer: \<^verbatim>\<open>src/client/*.rs\<close>. The state of a client is the record \<open>Client\<close>; what its methods share
  with the rest of the process is the record \<open>world\<close>: the live \<^verbatim>\<open>Arc<TrackIn>\<close> allocations, the
  calls made on the Prometheus handles, the clock and the client-id counter.

  str0m is a parameter: \<open>'r\<close> is its \<^verbatim>\<open>Rtc\<close>, and the record \<open>env\<close> holds the operations the kit calls,
  next to those of the dominant-speaker detector (\<open>'d\<close>) and the iteration orders of the hash
  collections. Log messages are left out.
\<close>

section \<open>What is outside the repository\<close>

text \<open>str0m's inputs, outputs and events, as far as the kit distinguishes them.\<close>

datatype rtc_input = Receive instant Protocol socket_addr socket_addr "u8 list" | TimeoutInput instant

datatype ('p, 't) event =
    IceDisconnected
  | MediaAdded Mid MediaKind
  | MediaDataEvent "('p, 't) MediaData"
  | KeyframeRequestEvent KeyframeRequest
  | EgressBitrateEstimate BweKind
  | PeerStatsEvent PeerStats
  | OtherEvent

datatype ('p, 't) rtc_output = OutTransmit Transmit | OutTimeout instant | OutEvent "('p, 't) event"

text \<open>
  Operations that can fail return the new state and whether they succeeded. A writer is used right
  after it is obtained, so its methods take the \<^verbatim>\<open>Rtc\<close> and the \<^verbatim>\<open>Mid\<close> it was obtained for.
\<close>

record ('r, 'd, 'p, 't) env =
  rtc_is_alive :: "'r \<Rightarrow> bool"
  rtc_disconnect :: "'r \<Rightarrow> 'r"
  rtc_handle_input :: "'r \<Rightarrow> rtc_input \<Rightarrow> 'r \<times> bool"
  rtc_accepts :: "'r \<Rightarrow> rtc_input \<Rightarrow> bool"
  rtc_poll_output :: "'r \<Rightarrow> 'r \<times> ('p, 't) rtc_output option"
  rtc_writer :: "'r \<Rightarrow> Mid \<Rightarrow> bool"
  writer_match_params :: "'r \<Rightarrow> Mid \<Rightarrow> 'p \<Rightarrow> Pt option"
  writer_write :: "'r \<Rightarrow> Mid \<Rightarrow> KeyEpoch option \<Rightarrow> Pt \<Rightarrow> instant \<Rightarrow> 't \<Rightarrow> u8 list \<Rightarrow> 'r \<times> bool"
  writer_request_keyframe :: "'r \<Rightarrow> Mid \<Rightarrow> Rid option \<Rightarrow> KeyframeRequestKind \<Rightarrow> 'r \<times> bool"
  datagram_parses :: "u8 list \<Rightarrow> bool"
  codec_is_video :: "'p \<Rightarrow> bool"
  media_time_as_seconds :: "'t \<Rightarrow> f64"
  det_new :: 'd
  det_add_peer :: "'d \<Rightarrow> u64 \<Rightarrow> u64 \<Rightarrow> 'd"
  det_remove_peer :: "'d \<Rightarrow> u64 \<Rightarrow> 'd"
  det_record_level :: "'d \<Rightarrow> u64 \<Rightarrow> u8 \<Rightarrow> u64 \<Rightarrow> 'd"
  det_tick :: "'d \<Rightarrow> u64 \<Rightarrow> 'd \<times> (u64 \<times> f64) option"
  det_peer_scores :: "'d \<Rightarrow> (u64 \<times> f64 \<times> f64 \<times> f64) list"
  rid_hash_order :: "SfuRid list \<Rightarrow> SfuRid list"
  id_hash_order :: "(client_id \<times> SfuRid) list \<Rightarrow> (client_id \<times> SfuRid) list"

section \<open>Tracks (client/tracks.rs)\<close>

record TrackIn =
  ti_origin :: client_id
  ti_mid :: Mid
  ti_kind :: MediaKind
  ti_relay_source :: bool

record TrackInEntry =
  te_id :: arc
  last_keyframe_request :: "instant option"

datatype TrackOutState = ToOpen | Negotiating Mid | Open Mid

record TrackOut =
  to_track_in :: arc
  to_state :: TrackOutState

definition TrackOut_mid :: "TrackOut \<Rightarrow> Mid option" where
  "TrackOut_mid t = (case to_state t of ToOpen \<Rightarrow> None | Negotiating m \<Rightarrow> Some m | Open m \<Rightarrow> Some m)"

section \<open>The process\<close>

record world =
  arcs :: "(arc \<times> TrackIn) list"
  next_arc :: arc
  prom :: "(nat \<times> prom_call) list"
  clock :: "nat \<Rightarrow> instant"
  clock_reads :: nat
  id_counter :: u64

text \<open>Allocation, \<^verbatim>\<open>Weak::upgrade\<close>, dropping strong references, \<^verbatim>\<open>Instant::now\<close>, and the metrics calls
  on instance \<open>m\<close>.\<close>

definition arc_new :: "TrackIn \<Rightarrow> world \<Rightarrow> arc \<times> world" where
  "arc_new t w = (next_arc w, w\<lparr>arcs := (next_arc w, t) # arcs w, next_arc := Suc (next_arc w)\<rparr>)"

definition upgrade :: "world \<Rightarrow> arc \<Rightarrow> TrackIn option" where
  "upgrade w a = map_of (arcs w) a"

definition arc_drop :: "arc list \<Rightarrow> world \<Rightarrow> world" where
  "arc_drop as w = w\<lparr>arcs := filter (\<lambda>(a, _). a \<notin> set as) (arcs w)\<rparr>"

definition instant_now :: "world \<Rightarrow> instant \<times> world" where
  "instant_now w = (clock w (clock_reads w), w\<lparr>clock_reads := Suc (clock_reads w)\<rparr>)"

definition emit :: "nat \<Rightarrow> prom_call list \<Rightarrow> world \<Rightarrow> world" where
  "emit m calls w = w\<lparr>prom := prom w @ map (Pair m) calls\<rparr>"

section \<open>The client (client/mod.rs, client/construct.rs)\<close>

record 'r Client =
  c_id :: client_id
  c_origin :: ClientOrigin
  c_in_speaker_detector :: bool
  c_rtc :: 'r
  c_tracks_in :: "TrackInEntry list"
  c_tracks_out :: "TrackOut list"
  c_chosen_rid :: "Rid option"
  c_desired_layer :: SfuRid
  c_active_rids :: "SfuRid list"
  c_mid_to_kind :: "(Mid \<times> MediaKind) list"
  c_pending_out :: "Transmit list"
  c_metrics :: nat
  c_delivered_media :: u64
  c_delivered_active_speaker :: u64
  c_video_frames_dropped :: "nat \<times> u64"
  c_pacer :: SubscriberPacer
  c_suspended :: bool
  c_last_pacer_drive :: "instant option"
  c_max_temporal_layer :: u8
  c_max_vfm_temporal_layer :: u8
  c_extra_dcs :: "ChannelConfig list"

definition next_client_id :: "world \<Rightarrow> client_id \<times> world" where
  "next_client_id w = (id_counter w, w\<lparr>id_counter := id_counter w + 1\<rparr>)"

text \<open>\<^verbatim>\<open>Client::new\<close>; \<open>None\<close> if \<^verbatim>\<open>SubscriberPacer::new\<close> panics (it does not, see \<open>Client_new_total\<close>).\<close>

definition Client_new :: "'r \<Rightarrow> nat \<Rightarrow> world \<Rightarrow> ('r Client \<times> world) option" where
  "Client_new rtc metrics w =
     (let (i, w) = next_client_id w;
          w = emit metrics (peer_drop_counter i) w
      in map_option (\<lambda>pacer.
           (\<lparr>c_id = i, c_origin = Local, c_in_speaker_detector = False, c_rtc = rtc,
             c_tracks_in = [], c_tracks_out = [], c_chosen_rid = None, c_desired_layer = LOW,
             c_active_rids = [], c_mid_to_kind = [], c_pending_out = [], c_metrics = metrics,
             c_delivered_media = 0, c_delivered_active_speaker = 0,
             c_video_frames_dropped = (metrics, i), c_pacer = pacer, c_suspended = False,
             c_last_pacer_drive = None, c_max_temporal_layer = - 1,
             c_max_vfm_temporal_layer = - 1, c_extra_dcs = []\<rparr>, w)) SubscriberPacer_new)"

section \<open>Accessors and builders (client/accessors.rs, client/dc\_builder.rs)\<close>

definition is_relay :: "'r Client \<Rightarrow> bool" where
  "is_relay c = (case c_origin c of RelayFromSfu _ \<Rightarrow> True | Local \<Rightarrow> False)"

definition set_origin :: "'r Client \<Rightarrow> ClientOrigin \<Rightarrow> 'r Client" where
  "set_origin c origin = c\<lparr>c_origin := origin\<rparr>"

definition set_desired_layer :: "'r Client \<Rightarrow> SfuRid \<Rightarrow> 'r Client" where
  "set_desired_layer c rid = c\<lparr>c_desired_layer := rid, c_chosen_rid := None\<rparr>"

definition set_suspended :: "'r Client \<Rightarrow> bool \<Rightarrow> 'r Client" where
  "set_suspended c s = c\<lparr>c_suspended := s\<rparr>"

definition set_max_temporal_layer :: "'r Client \<Rightarrow> u8 \<Rightarrow> 'r Client" where
  "set_max_temporal_layer c m = c\<lparr>c_max_temporal_layer := m\<rparr>"

definition set_max_vfm_temporal_layer :: "'r Client \<Rightarrow> u8 \<Rightarrow> 'r Client" where
  "set_max_vfm_temporal_layer c m = c\<lparr>c_max_vfm_temporal_layer := m\<rparr>"

definition active_rids :: "('r, 'd, 'p, 't) env \<Rightarrow> 'r Client \<Rightarrow> SfuRid list" where
  "active_rids E c = rid_hash_order E (c_active_rids c)"

definition client_is_alive :: "('r, 'd, 'p, 't) env \<Rightarrow> 'r Client \<Rightarrow> bool" where
  "client_is_alive E c = rtc_is_alive E (c_rtc c)"

definition datagram_input :: "IncomingDatagram \<Rightarrow> rtc_input" where
  "datagram_input d =
     Receive (in_received_at d) (SfuProtocol_to_str0m (in_proto d)) (in_source d) (in_destination d) (in_contents d)"

definition accepts :: "('r, 'd, 'p, 't) env \<Rightarrow> 'r Client \<Rightarrow> IncomingDatagram \<Rightarrow> bool" where
  "accepts E c d =
     (if \<not> datagram_parses E (in_contents d) then False else rtc_accepts E (c_rtc c) (datagram_input d))"

definition drive_pacer :: "'r Client \<Rightarrow> u64 \<Rightarrow> ('r Client \<times> PacerAction) option" where
  "drive_pacer c bps =
     map_option (\<lambda>(p, action).
       let c = c\<lparr>c_pacer := p\<rparr>
       in (case action of ChangeLayer rid \<Rightarrow> set_desired_layer c rid | _ \<Rightarrow> c, action))
     (update (c_pacer c) bps)"

definition pacer_tick_ready :: "'r Client \<Rightarrow> instant \<Rightarrow> duration \<Rightarrow> 'r Client \<times> bool" where
  "pacer_tick_ready c now min_interval =
     (let throttled = (case c_last_pacer_drive c of
                         Some l \<Rightarrow> duration_since now l < min_interval
                       | None \<Rightarrow> False)
      in if throttled then (c, False) else (c\<lparr>c_last_pacer_drive := Some now\<rparr>, True))"

text \<open>
  Registering data channels. The two \<^verbatim>\<open>debug_assert!\<close>s are checked in builds with debug assertions
  (\<open>debug\<close>), where a failure is a panic, the value \<open>None\<close>.
\<close>

definition with_extra_dc :: "bool \<Rightarrow> 'r Client \<Rightarrow> string \<Rightarrow> u16 \<Rightarrow> ChannelConfig \<Rightarrow> 'r Client option" where
  "with_extra_dc debug c label i cfg =
     (if debug \<and> list_ex (\<lambda>dc. dc_id dc = i) (c_extra_dcs c) then None
      else if debug \<and> \<not> (max_packet_lifetime_ms cfg = None \<or> max_retransmits cfg = None) then None
      else Some (c\<lparr>c_extra_dcs := c_extra_dcs c @ [cfg\<lparr>dc_id := i, dc_label := label\<rparr>]\<rparr>))"

definition with_chat_dcs :: "bool \<Rightarrow> 'r Client \<Rightarrow> 'r Client option" where
  "with_chat_dcs debug c =
     (case with_extra_dc debug c ''chat-data'' 4 reliable_ordered of
        None \<Rightarrow> None
      | Some c \<Rightarrow> with_extra_dc debug c ''chat-ctrl'' 5 (unreliable_max_retransmits 0))"

definition with_voice_dc :: "bool \<Rightarrow> 'r Client \<Rightarrow> u32 \<Rightarrow> 'r Client option" where
  "with_voice_dc debug c ms = with_extra_dc debug c ''voice'' 6 (unreliable_max_lifetime ms)"

definition dc_config_for :: "'r Client \<Rightarrow> string \<Rightarrow> ChannelConfig option" where
  "dc_config_for c label = find (\<lambda>dc. dc_label dc = label) (c_extra_dcs c)"

definition dc_count :: "'r Client \<Rightarrow> nat" where
  "dc_count c = length (c_extra_dcs c)"

section \<open>Keyframe requests (client/keyframe.rs)\<close>

definition KEYFRAME_REQUEST_MIN_GAP :: duration where "KEYFRAME_REQUEST_MIN_GAP = from_secs 1"

text \<open>\<^verbatim>\<open>iter().find\<close> and \<^verbatim>\<open>iter_mut().find\<close>: the first match, and replacing it.\<close>

definition entry_has_mid :: "world \<Rightarrow> Mid \<Rightarrow> TrackInEntry \<Rightarrow> bool" where
  "entry_has_mid w mid t = (case upgrade w (te_id t) of Some i \<Rightarrow> ti_mid i = mid | None \<Rightarrow> False)"

fun update_first :: "('a \<Rightarrow> bool) \<Rightarrow> ('a \<Rightarrow> 'a) \<Rightarrow> 'a list \<Rightarrow> 'a list" where
  "update_first P f [] = []"
| "update_first P f (x # xs) = (if P x then f x # xs else x # update_first P f xs)"

definition request_keyframe_throttled ::
    "('r, 'd, 'p, 't) env \<Rightarrow> 'r Client \<Rightarrow> Mid \<Rightarrow> Rid option \<Rightarrow> KeyframeRequestKind \<Rightarrow> world \<Rightarrow> 'r Client \<times> world" where
  "request_keyframe_throttled E c mid rid kind w =
     (if \<not> rtc_writer E (c_rtc c) mid then (c, w)
      else case find (entry_has_mid w mid) (c_tracks_in c) of
             None \<Rightarrow> (c, w)
           | Some entry \<Rightarrow>
               let (throttled, w) = (case last_keyframe_request entry of
                                       None \<Rightarrow> (False, w)
                                     | Some t \<Rightarrow> let (now, w) = instant_now w
                                                in (duration_since now t < KEYFRAME_REQUEST_MIN_GAP, w))
               in if throttled then (c, w)
                  else let rtc = fst (writer_request_keyframe E (c_rtc c) mid rid kind);
                           (now, w) = instant_now w;
                           c = c\<lparr>c_rtc := rtc,
                                 c_tracks_in := update_first (entry_has_mid w mid)
                                   (\<lambda>e. e\<lparr>last_keyframe_request := Some now\<rparr>) (c_tracks_in c)\<rparr>;
                           w = (if kind = Pli then emit (c_metrics c) (inc_rtcp_pli ''out'') w else w)
                       in (c, w))"

definition incoming_keyframe_req ::
    "'r Client \<Rightarrow> KeyframeRequest \<Rightarrow> world \<Rightarrow> ('p, 't) Propagated \<times> world" where
  "incoming_keyframe_req c req w =
     (case find (\<lambda>t. TrackOut_mid t = Some (kr_mid req)) (c_tracks_out c) of
        None \<Rightarrow> (Noop, w)
      | Some track_out \<Rightarrow>
          (case upgrade w (to_track_in track_out) of
             None \<Rightarrow> (Noop, w)
           | Some track_in \<Rightarrow>
               let req = req\<lparr>kr_rid := c_chosen_rid c\<rparr>;
                   w = (if kr_kind req = Pli then emit (c_metrics c) (inc_rtcp_pli ''in'') w else w)
               in if ti_relay_source track_in
                  then (UpstreamKeyframeRequest (ti_origin track_in) (SfuKeyframeRequest_from_str0m req)
                          (SfuMid_from_str0m (ti_mid track_in)), w)
                  else (KeyframeRequestEv (c_id c) (SfuKeyframeRequest_from_str0m req) (ti_origin track_in)
                          (SfuMid_from_str0m (ti_mid track_in)), w)))"

definition handle_keyframe_request ::
    "('r, 'd, 'p, 't) env \<Rightarrow> 'r Client \<Rightarrow> SfuKeyframeRequest \<Rightarrow> SfuMid \<Rightarrow> world \<Rightarrow> 'r Client" where
  "handle_keyframe_request E c req mid_in w =
     (let mid_in = SfuMid_to_str0m mid_in
      in if \<not> list_ex (entry_has_mid w mid_in) (c_tracks_in c) then c
         else if \<not> rtc_writer E (c_rtc c) mid_in then c
         else let rid = map_option SfuRid_to_str0m (skr_rid req);
                  kind = SfuKeyframeKind_to_str0m (skr_kind req)
              in c\<lparr>c_rtc := fst (writer_request_keyframe E (c_rtc c) mid_in rid kind)\<rparr>)"

section \<open>Driving str0m (client/mod.rs)\<close>

definition Client_handle_input :: "('r, 'd, 'p, 't) env \<Rightarrow> 'r Client \<Rightarrow> IncomingDatagram \<Rightarrow> 'r Client" where
  "Client_handle_input E c d =
     (if \<not> rtc_is_alive E (c_rtc c) then c
      else if \<not> datagram_parses E (in_contents d) then c
      else let (rtc, success) = rtc_handle_input E (c_rtc c) (datagram_input d)
           in c\<lparr>c_rtc := if success then rtc else rtc_disconnect E rtc\<rparr>)"

definition Client_handle_timeout :: "('r, 'd, 'p, 't) env \<Rightarrow> 'r Client \<Rightarrow> instant \<Rightarrow> 'r Client" where
  "Client_handle_timeout E c now =
     (if \<not> rtc_is_alive E (c_rtc c) then c
      else let (rtc, success) = rtc_handle_input E (c_rtc c) (TimeoutInput now)
           in c\<lparr>c_rtc := if success then rtc else rtc_disconnect E rtc\<rparr>)"

definition track_in_added :: "'r Client \<Rightarrow> Mid \<Rightarrow> MediaKind \<Rightarrow> world \<Rightarrow> 'r Client \<times> ('p, 't) Propagated \<times> world" where
  "track_in_added c mid kind w =
     (let c = c\<lparr>c_mid_to_kind := AList.update mid kind (c_mid_to_kind c)\<rparr>;
          (a, w) = arc_new \<lparr>ti_origin = c_id c, ti_mid = mid, ti_kind = kind, ti_relay_source = is_relay c\<rparr> w;
          entry = \<lparr>te_id = a, last_keyframe_request = None\<rparr>
      in (c\<lparr>c_tracks_in := c_tracks_in c @ [entry]\<rparr>, TrackOpen (c_id c) a, w))"

fun kind_str :: "MediaKind \<Rightarrow> string" where
  "kind_str Audio = ''audio''"
| "kind_str Video = ''video''"

definition track_in_media ::
    "('r, 'd, 'p, 't) env \<Rightarrow> 'r Client \<Rightarrow> ('p, 't) MediaData \<Rightarrow> world \<Rightarrow> 'r Client \<times> ('p, 't) Propagated \<times> world" where
  "track_in_media E c d w =
     (let (c, w) = (if \<not> md_contiguous d then request_keyframe_throttled E c (md_mid d) (md_rid d) Fir w else (c, w));
          c = (case md_rid d of
                 Some rid \<Rightarrow> c\<lparr>c_active_rids := List.insert (SfuRid_from_str0m rid) (c_active_rids c)\<rparr>
               | None \<Rightarrow> c);
          kind_label = (case map_of (c_mid_to_kind c) (md_mid d) of Some k \<Rightarrow> kind_str k | None \<Rightarrow> ''video'');
          w = emit (c_metrics c) (add_track_bytes_in kind_label (word_of_nat (length (md_data d)))) w
      in (c, MediaDataEv (c_id c) (SfuMediaPayload_from_str0m d), w))"

fun handle_event ::
    "('r, 'd, 'p, 't) env \<Rightarrow> 'r Client \<Rightarrow> ('p, 't) event \<Rightarrow> world \<Rightarrow> 'r Client \<times> ('p, 't) Propagated \<times> world" where
  "handle_event E c IceDisconnected w = (c\<lparr>c_rtc := rtc_disconnect E (c_rtc c)\<rparr>, Noop, w)"
| "handle_event E c (MediaAdded mid kind) w = track_in_added c mid kind w"
| "handle_event E c (MediaDataEvent d) w = track_in_media E c d w"
| "handle_event E c (KeyframeRequestEvent req) w =
     (let (p, w) = incoming_keyframe_req c req w in (c, p, w))"
| "handle_event E c (EgressBitrateEstimate bwe) w = (c, propagate_bwe (c_id c) bwe, w)"
| "handle_event E c (PeerStatsEvent s) w = (c, propagate_peer_stats (c_id c) s, w)"
| "handle_event E c OtherEvent w = (c, Noop, w)"

fun handle_output ::
    "('r, 'd, 'p, 't) env \<Rightarrow> 'r Client \<Rightarrow> ('p, 't) rtc_output \<Rightarrow> world \<Rightarrow> 'r Client \<times> ('p, 't) Propagated \<times> world" where
  "handle_output E c (OutTransmit t) w = (c\<lparr>c_pending_out := c_pending_out c @ [t]\<rparr>, Noop, w)"
| "handle_output E c (OutTimeout t) w = (c, Timeout t, w)"
| "handle_output E c (OutEvent e) w = handle_event E c e w"

definition poll_output ::
    "('r, 'd, 'p, 't) env \<Rightarrow> 'r Client \<Rightarrow> world \<Rightarrow> 'r Client \<times> ('p, 't) Propagated \<times> world" where
  "poll_output E c w =
     (if \<not> rtc_is_alive E (c_rtc c) then (c, Noop, w)
      else let (rtc, result) = rtc_poll_output E (c_rtc c); c = c\<lparr>c_rtc := rtc\<rparr>
           in case result of
                Some out \<Rightarrow> handle_output E c out w
              | None \<Rightarrow> (c\<lparr>c_rtc := rtc_disconnect E rtc\<rparr>, Noop, w))"

definition handle_track_open :: "'r Client \<Rightarrow> arc \<Rightarrow> 'r Client" where
  "handle_track_open c a = c\<lparr>c_tracks_out := c_tracks_out c @ [\<lparr>to_track_in = a, to_state = ToOpen\<rparr>]\<rparr>"

definition drain_pending_out :: "'r Client \<Rightarrow> 'r Client \<times> OutgoingDatagram list" where
  "drain_pending_out c = (c\<lparr>c_pending_out := []\<rparr>, map from_transmit (c_pending_out c))"

section \<open>Forwarding to a subscriber (client/fanout.rs)\<close>

definition rid_label :: "Rid \<Rightarrow> string" where
  "rid_label rid = (if rid = SfuRid_to_str0m LOW then ''q'' else if rid = SfuRid_to_str0m MEDIUM then ''h''
                    else if rid = SfuRid_to_str0m HIGH then ''f'' else ''other'')"

definition track_matches :: "world \<Rightarrow> client_id \<Rightarrow> Mid \<Rightarrow> TrackOut \<Rightarrow> bool" where
  "track_matches w origin mid t =
     (case upgrade w (to_track_in t) of Some i \<Rightarrow> ti_origin i = origin \<and> ti_mid i = mid | None \<Rightarrow> False)"

text \<open>The kind of the forwarded track as the suspended filter sees it: unknown counts as video.\<close>

fun find_map :: "('a \<Rightarrow> 'b option) \<Rightarrow> 'a list \<Rightarrow> 'b option" where
  "find_map f [] = None"
| "find_map f (x # xs) = (case f x of Some y \<Rightarrow> Some y | None \<Rightarrow> find_map f xs)"

definition suspended_is_video :: "world \<Rightarrow> 'r Client \<Rightarrow> client_id \<Rightarrow> ('p, 't) SfuMediaPayload \<Rightarrow> bool" where
  "suspended_is_video w c origin d =
     (case find_map (\<lambda>trk. case upgrade w (to_track_in trk) of
                           None \<Rightarrow> None
                         | Some i \<Rightarrow> if ti_origin i = origin \<and> ti_mid i = SfuMid_to_str0m (mp_mid d)
                                     then Some (ti_kind i = Video) else None) (c_tracks_out c) of
        Some b \<Rightarrow> b | None \<Rightarrow> True)"

text \<open>The part after the filters: metrics, counters, then the writer.\<close>

definition forward_metrics :: "nat \<Rightarrow> string \<Rightarrow> ('p, 't) SfuMediaPayload \<Rightarrow> world \<Rightarrow> world" where
  "forward_metrics m kind_label d w =
     (let w = emit m (inc_forwarded_packets kind_label) w;
          w = (if kind_label \<noteq> ''other''
               then emit m (add_track_bytes_out kind_label (word_of_nat (length (mp_data d)))) w else w)
      in case mp_rid d of
           Some rid \<Rightarrow> emit m (inc_layer_selection (rid_label (SfuRid_to_str0m rid))) w
         | None \<Rightarrow> w)"

definition forward_to_writer ::
    "('r, 'd, 'p, 't) env \<Rightarrow> client_id \<Rightarrow> ('p, 't) SfuMediaPayload \<Rightarrow> 'r Client \<Rightarrow> world \<Rightarrow> 'r Client \<times> world" where
  "forward_to_writer E origin d c w =
     (let data_mid = SfuMid_to_str0m (mp_mid d);
          matched = find (track_matches w origin data_mid) (c_tracks_out c);
          kind_label = (case Option.bind matched (\<lambda>trk. upgrade w (to_track_in trk)) of
                          Some t \<Rightarrow> kind_str (ti_kind t) | None \<Rightarrow> ''other'');
          w = forward_metrics (c_metrics c) kind_label d w;
          c = c\<lparr>c_delivered_media := c_delivered_media c + 1\<rparr>
      in case Option.bind matched TrackOut_mid of
           None \<Rightarrow> (c, w)
         | Some mid \<Rightarrow>
             let data_rid = map_option SfuRid_to_str0m (mp_rid d);
                 c = (if data_rid \<noteq> None \<and> c_chosen_rid c \<noteq> data_rid then c\<lparr>c_chosen_rid := data_rid\<rparr> else c)
             in if \<not> rtc_writer E (c_rtc c) mid then (c, w)
                else case write_parts d of (pt_raw, network_time, rtp_time, rid, payload, params) \<Rightarrow>
                  (case writer_match_params E (c_rtc c) mid params of
                     None \<Rightarrow> (c, w)
                   | Some pt \<Rightarrow>
                       let (now, w) = instant_now w;
                           w = emit (c_metrics c) (observe_forward_latency kind_label (as_secs_f64 (duration_since now network_time))) w;
                           (rtc, success) = writer_write E (c_rtc c) mid (mp_key_epoch d) pt network_time rtp_time payload
                       in (c\<lparr>c_rtc := if success then rtc else rtc_disconnect E rtc\<rparr>, w)))"

definition handle_media_data_out ::
    "('r, 'd, 'p, 't) env \<Rightarrow> client_id \<Rightarrow> ('p, 't) SfuMediaPayload \<Rightarrow> 'r Client \<Rightarrow> world \<Rightarrow> 'r Client \<times> world" where
  "handle_media_data_out E origin d c w =
     (if c_suspended c \<and> suspended_is_video w c origin d
      then (c, emit (fst (c_video_frames_dropped c))
                 [Handle video_frames_dropped_total [peer_label (snd (c_video_frames_dropped c))] Inc] w)
      else let target = best_fit_select (c_desired_layer c) (active_rids E c)
           in if (case mp_rid d of None \<Rightarrow> False | Some rid \<Rightarrow> rid \<noteq> target) then (c, w)
              else if (case mp_av1_dd d of Some dd \<Rightarrow> c_max_temporal_layer c < av1_temporal_id dd | None \<Rightarrow> False) then (c, w)
              else if (case mp_vfm_fm d of Some fm \<Rightarrow> c_max_vfm_temporal_layer c < vfm_temporal_id fm | None \<Rightarrow> False) then (c, w)
              else forward_to_writer E origin d c w)"

definition handle_active_speaker_changed :: "'r Client \<Rightarrow> u64 \<Rightarrow> 'r Client" where
  "handle_active_speaker_changed c peer_id = c\<lparr>c_delivered_active_speaker := c_delivered_active_speaker c + 1\<rparr>"

section \<open>Data channels\<close>

text \<open>
  In a build with debug assertions the ids of a client's channels are distinct and no channel has both
  limits; the builders for chat and voice never trip an assertion on a fresh client and register the
  channels 4, 5 and 6.
\<close>

definition channels_ok :: "'r Client \<Rightarrow> bool" where
  "channels_ok c \<longleftrightarrow> distinct (map dc_id (c_extra_dcs c)) \<and> list_all channel_ok (c_extra_dcs c)"

lemma with_extra_dc_channels_ok:
  "channels_ok c \<Longrightarrow> with_extra_dc True c label i cfg = Some d \<Longrightarrow> channels_ok d"
  by (auto simp: with_extra_dc_def channels_ok_def channel_ok_def list_ex_iff split: if_splits)

lemma find_snoc: "find P (xs @ [x]) = (case find P xs of None \<Rightarrow> if P x then Some x else None | r \<Rightarrow> r)"
  by (induction xs) auto

lemma with_extra_dc_lookup:
  "dc_config_for c label = None \<Longrightarrow> with_extra_dc debug c label i cfg = Some d
     \<Longrightarrow> dc_config_for d label = Some (cfg\<lparr>dc_id := i, dc_label := label\<rparr>) \<and> dc_count d = dc_count c + 1"
  by (auto simp: with_extra_dc_def dc_config_for_def dc_count_def find_snoc split: if_splits)

lemma chat_voice_builders:
  assumes "c_extra_dcs c = []"
  shows "\<exists>d. Option.bind (with_chat_dcs debug c) (\<lambda>c. with_voice_dc debug c ms) = Some d
    \<and> map dc_id (c_extra_dcs d) = [4, 5, 6] \<and> channels_ok d"
  using assms constructors_channel_ok
  by (auto simp: with_chat_dcs_def with_voice_dc_def with_extra_dc_def channels_ok_def channel_ok_def)

section \<open>What the operations touch\<close>

text \<open>
  \<open>fixed\<close> collects the fields that polling and network input never write. \<open>quiet\<close> relates two
  worlds that differ only in the clock position and in metrics calls that leave the participants
  gauge alone.
\<close>

definition fixed :: "'r Client \<Rightarrow>
    (client_id \<times> ClientOrigin \<times> bool \<times> TrackOut list \<times> SfuRid)
    \<times> nat \<times> (nat \<times> u64) \<times> SubscriberPacer \<times> bool \<times> instant option" where
  "fixed c = ((c_id c, c_origin c, c_in_speaker_detector c, c_tracks_out c, c_desired_layer c),
              c_metrics c, c_video_frames_dropped c, c_pacer c, c_suspended c, c_last_pacer_drive c)"

lemma fixed_eq_iff:
  "fixed c' = fixed c \<longleftrightarrow>
     c_id c' = c_id c \<and> c_origin c' = c_origin c \<and> c_in_speaker_detector c' = c_in_speaker_detector c
     \<and> c_tracks_out c' = c_tracks_out c \<and> c_desired_layer c' = c_desired_layer c
     \<and> c_metrics c' = c_metrics c \<and> c_video_frames_dropped c' = c_video_frames_dropped c
     \<and> c_pacer c' = c_pacer c \<and> c_suspended c' = c_suspended c \<and> c_last_pacer_drive c' = c_last_pacer_drive c"
  by (auto simp: fixed_def)

definition arc_ids :: "'r Client \<Rightarrow> arc list" where
  "arc_ids c = map te_id (c_tracks_in c)"

fun gauge_delta :: "prom_call \<Rightarrow> int" where
  "gauge_delta (Direct active_participants Inc) = 1"
| "gauge_delta (Direct active_participants Dec) = - 1"
| "gauge_delta _ = 0"

definition participants :: "nat \<Rightarrow> world \<Rightarrow> int" where
  "participants m w = sum_list (map (\<lambda>(i, call). if i = m then gauge_delta call else 0) (prom w))"

definition quiet :: "world \<Rightarrow> world \<Rightarrow> bool" where
  "quiet w w' \<longleftrightarrow> arcs w' = arcs w \<and> next_arc w' = next_arc w \<and> clock w' = clock w
     \<and> id_counter w' = id_counter w \<and> clock_reads w \<le> clock_reads w'
     \<and> (\<forall>m. participants m w' = participants m w)"

lemma quiet_refl [simp]: "quiet w w"
  by (simp add: quiet_def)

lemma quiet_trans [trans]: "quiet w w' \<Longrightarrow> quiet w' w'' \<Longrightarrow> quiet w w''"
  by (auto simp: quiet_def)

lemma participants_emit:
  "participants m (emit m' calls w) = participants m w + (if m = m' then sum_list (map gauge_delta calls) else 0)"
  by (simp add: participants_def emit_def comp_def)

lemma emit_simps [simp]:
  "arcs (emit m calls w) = arcs w" "next_arc (emit m calls w) = next_arc w"
  "clock (emit m calls w) = clock w" "clock_reads (emit m calls w) = clock_reads w"
  "id_counter (emit m calls w) = id_counter w"
  by (simp_all add: emit_def)

lemma instant_now_simps [simp]:
  "fst (instant_now w) = clock w (clock_reads w)"
  "snd (instant_now w) = w\<lparr>clock_reads := Suc (clock_reads w)\<rparr>"
  by (simp_all add: instant_now_def)

lemma participants_clock [simp]: "participants m (w\<lparr>clock_reads := n\<rparr>) = participants m w"
  by (simp add: participants_def)

lemma quiet_emit: "sum_list (map gauge_delta calls) = 0 \<Longrightarrow> quiet w (emit m calls w)"
  by (simp add: quiet_def participants_emit)

lemma quiet_emit_right:
  "sum_list (map gauge_delta calls) = 0 \<Longrightarrow> quiet w w' \<Longrightarrow> quiet w (emit m calls w')"
  using quiet_emit quiet_trans by blast

lemma quiet_clock: "quiet w w' \<Longrightarrow> clock_reads w \<le> n \<Longrightarrow> quiet w (w'\<lparr>clock_reads := n\<rparr>)"
  by (simp add: quiet_def)

lemma quiet_reads: "quiet w w' \<Longrightarrow> clock_reads w \<le> clock_reads w'"
  by (simp add: quiet_def)

lemma quiet_upgrade: "quiet w w' \<Longrightarrow> upgrade w' = upgrade w"
  by (simp add: quiet_def upgrade_def fun_eq_iff)

text \<open>Only connecting and disconnecting touch the gauge.\<close>

lemma gauge_metric_ops [simp]:
  "sum_list (map gauge_delta (inc_forwarded_packets k)) = 0"
  "sum_list (map gauge_delta (observe_forward_latency k x)) = 0"
  "sum_list (map gauge_delta (inc_layer_selection k)) = 0"
  "sum_list (map gauge_delta (inc_suspend_video k)) = 0"
  "sum_list (map gauge_delta inc_pacer_tick_throttled) = 0"
  "sum_list (map gauge_delta (peer_drop_counter i)) = 0"
  "sum_list (map gauge_delta inc_client_connect) = 0"
  "sum_list (map gauge_delta inc_client_disconnect) = 0"
  "sum_list (map gauge_delta inc_active_participants) = 1"
  "sum_list (map gauge_delta dec_active_participants) = - 1"
  "sum_list (map gauge_delta inc_dominant_speaker_changes) = 0"
  "sum_list (map gauge_delta (update_peer_rtcp i l x y)) = 0"
  "sum_list (map gauge_delta (update_peer_bwe i b)) = 0"
  "sum_list (map gauge_delta (update_peer_binding_term i k)) = 0"
  "sum_list (map gauge_delta (update_peer_speaker_scores i x y z)) = 0"
  "sum_list (map gauge_delta (add_track_bytes_in k n)) = 0"
  "sum_list (map gauge_delta (add_track_bytes_out k n)) = 0"
  "sum_list (map gauge_delta (inc_rtcp_pli k)) = 0"
  "sum_list (map gauge_delta (reap_dead_peer i)) = 0"
  by (simp_all add: metric_ops BindingTerm_ALL_def Let_def)

lemmas quiet_intros = quiet_refl quiet_emit_right quiet_clock

text \<open>Keyframe requests and forwarding.\<close>

lemma map_update_first: "(\<And>x. g (f x) = g x) \<Longrightarrow> map g (update_first P f xs) = map g xs"
  by (induction xs) auto

lemma request_keyframe_frame:
  assumes "request_keyframe_throttled E c mid rid kind w = (c', w')"
  shows "fixed c' = fixed c" "arc_ids c' = arc_ids c" "quiet w w'"
  using assms
  by (auto simp: request_keyframe_throttled_def fixed_eq_iff arc_ids_def Let_def map_update_first split_beta
      intro!: quiet_intros split: if_splits option.splits)

lemma quiet_forward_metrics: "quiet w (forward_metrics m k d w)"
  by (auto simp: forward_metrics_def Let_def intro!: quiet_intros split: option.splits)

lemma forward_to_writer_frame:
  assumes "forward_to_writer E origin d c w = (c', w')"
  shows "fixed c' = fixed c" "c_tracks_in c' = c_tracks_in c" "quiet w w'"
proof -
  define k where "k = (case Option.bind (find (track_matches w origin (SfuMid_to_str0m (mp_mid d))) (c_tracks_out c))
                       (\<lambda>trk. upgrade w (to_track_in trk)) of Some t \<Rightarrow> kind_str (ti_kind t) | None \<Rightarrow> ''other'')"
  define v where "v = forward_metrics (c_metrics c) k d w"
  have v: "quiet w v" by (simp add: v_def quiet_forward_metrics)
  note assms = assms [unfolded forward_to_writer_def Let_def, folded k_def, folded v_def]
  show "fixed c' = fixed c" "c_tracks_in c' = c_tracks_in c"
    using assms by (auto simp: fixed_eq_iff write_parts_def split_beta split: if_splits option.splits)
  show "quiet w w'"
    using assms v by (auto simp: write_parts_def split_beta intro!: quiet_intros quiet_reads le_SucI
        split: if_splits option.splits)
qed

lemma forward_frame:
  assumes "handle_media_data_out E origin d c w = (c', w')"
  shows "fixed c' = fixed c" "c_tracks_in c' = c_tracks_in c" "quiet w w'"
  using assms
  by (auto simp: handle_media_data_out_def Let_def dest: forward_to_writer_frame
      intro!: quiet_intros split: if_splits option.splits)

lemma track_in_media_frame:
  assumes "track_in_media E c d w = (c', p, w')"
  shows "fixed c' = fixed c" "arc_ids c' = arc_ids c" "quiet w w'"
    "p = MediaDataEv (c_id c) (SfuMediaPayload_from_str0m d)"
proof -
  obtain c1 w1 where 1: "(if \<not> md_contiguous d then request_keyframe_throttled E c (md_mid d) (md_rid d) Fir w
      else (c, w)) = (c1, w1)" by (metis prod.exhaust)
  then have f: "fixed c1 = fixed c" "arc_ids c1 = arc_ids c" "quiet w w1"
    by (auto split: if_splits dest: request_keyframe_frame)
  from assms f show "fixed c' = fixed c" "arc_ids c' = arc_ids c" "quiet w w'"
    "p = MediaDataEv (c_id c) (SfuMediaPayload_from_str0m d)"
    unfolding track_in_media_def 1 Let_def
    by (auto simp: fixed_eq_iff arc_ids_def intro!: quiet_intros split: option.splits)
qed

text \<open>
  Polling. The world changes quietly, or one track allocation is made and announced.
\<close>

definition allocates :: "'r Client \<Rightarrow> world \<Rightarrow> 'r Client \<Rightarrow> ('p, 't) Propagated \<Rightarrow> world \<Rightarrow> bool" where
  "allocates c w c' p w' \<longleftrightarrow>
     (\<exists>t. ti_origin t = c_id c \<and> ti_relay_source t = is_relay c \<and> w' = snd (arc_new t w) \<and> p = TrackOpen (c_id c) (next_arc w)
        \<and> arc_ids c' = arc_ids c @ [next_arc w])"

fun polled_event :: "client_id \<Rightarrow> ('p, 't) Propagated \<Rightarrow> bool" where
  "polled_event i (MediaDataEv j d) \<longleftrightarrow> j = i"
| "polled_event i (BandwidthEstimateEv j e) \<longleftrightarrow> j = i"
| "polled_event i (RtcpStats j s) \<longleftrightarrow> j = i"
| "polled_event i (KeyframeRequestEv j r k m) \<longleftrightarrow> j = i"
| "polled_event i (TrackOpen j a) \<longleftrightarrow> j = i"
| "polled_event i (UpstreamKeyframeRequest j r m) \<longleftrightarrow> True"
| "polled_event i Noop \<longleftrightarrow> True"
| "polled_event i (Timeout t) \<longleftrightarrow> True"
| "polled_event i _ \<longleftrightarrow> False"

fun is_track_open :: "('p, 't) Propagated \<Rightarrow> bool" where
  "is_track_open (TrackOpen _ _) = True"
| "is_track_open _ = False"

definition polls :: "'r Client \<Rightarrow> world \<Rightarrow> 'r Client \<times> ('p, 't) Propagated \<times> world \<Rightarrow> bool" where
  "polls c w r \<longleftrightarrow> (case r of (c', p, w') \<Rightarrow>
     fixed c' = fixed c \<and> polled_event (c_id c) p
     \<and> (if is_track_open p then allocates c w c' p w' else arc_ids c' = arc_ids c \<and> quiet w w'))"

lemma incoming_keyframe_req_frame:
  "incoming_keyframe_req c req w = (p, w') \<Longrightarrow> polled_event (c_id c) p \<and> \<not> is_track_open p \<and> quiet w w'"
  by (auto simp: incoming_keyframe_req_def Let_def intro!: quiet_intros split: option.splits if_splits)

lemma polls_handle_event: "polls c w (handle_event E c e w)"
proof (cases e)
  case (MediaAdded mid kind)
  let ?t = "\<lparr>ti_origin = c_id c, ti_mid = mid, ti_kind = kind, ti_relay_source = is_relay c\<rparr>"
  have "is_relay (c\<lparr>c_mid_to_kind := m\<rparr>) = is_relay c" for m
    by (simp add: is_relay_def)
  with MediaAdded show ?thesis
    by (auto simp: polls_def allocates_def track_in_added_def arc_new_def Let_def fixed_eq_iff arc_ids_def
        intro!: exI [of _ ?t])
next
  case (MediaDataEvent d)
  then show ?thesis
    using track_in_media_frame [of E c d w] by (cases "track_in_media E c d w") (auto simp: polls_def)
next
  case (KeyframeRequestEvent req)
  then show ?thesis
    using incoming_keyframe_req_frame [of c req w]
    by (cases "incoming_keyframe_req c req w") (auto simp: polls_def)
qed (auto simp: polls_def fixed_eq_iff arc_ids_def propagate_bwe_def propagate_peer_stats_def Let_def)

lemma polls_rtc: "polls (c\<lparr>c_rtc := r\<rparr>) w x \<Longrightarrow> polls c w x"
  by (auto simp: polls_def fixed_eq_iff arc_ids_def allocates_def is_relay_def split: prod.splits if_splits)

lemma polls_handle_output: "polls c w (handle_output E c out w)"
proof (cases out)
  case (OutEvent e)
  then show ?thesis by (simp add: polls_handle_event)
qed (auto simp: polls_def fixed_eq_iff arc_ids_def)

lemma polls_noop [simp]: "polls c w (c, Noop, w)" "polls c w (c\<lparr>c_rtc := r\<rparr>, Noop, w)"
  by (simp_all add: polls_def fixed_eq_iff arc_ids_def)

lemma polls_poll_output: "polls c w (poll_output E c w)"
proof -
  obtain rtc result where 1: "rtc_poll_output E (c_rtc c) = (rtc, result)" by fastforce
  have "polls c w (case result of Some out \<Rightarrow> handle_output E (c\<lparr>c_rtc := rtc\<rparr>) out w
      | None \<Rightarrow> (c\<lparr>c_rtc := rtc_disconnect E rtc\<rparr>, Noop, w))"
    by (auto intro: polls_rtc [OF polls_handle_output] split: option.split)
  then show ?thesis by (simp add: poll_output_def 1 Let_def)
qed

lemma handle_input_frame [simp]:
  "fixed (Client_handle_input E c d) = fixed c" "arc_ids (Client_handle_input E c d) = arc_ids c"
  by (auto simp: Client_handle_input_def fixed_eq_iff arc_ids_def Let_def split: prod.splits)

lemma handle_timeout_frame [simp]:
  "fixed (Client_handle_timeout E c now) = fixed c" "arc_ids (Client_handle_timeout E c now) = arc_ids c"
  by (auto simp: Client_handle_timeout_def fixed_eq_iff arc_ids_def Let_def split: prod.splits)

lemma drain_frame [simp]:
  "fixed (fst (drain_pending_out c)) = fixed c" "arc_ids (fst (drain_pending_out c)) = arc_ids c"
  by (auto simp: drain_pending_out_def fixed_eq_iff arc_ids_def)

lemma handle_keyframe_request_frame [simp]:
  "fixed (handle_keyframe_request E c req mid_in w) = fixed c"
  "arc_ids (handle_keyframe_request E c req mid_in w) = arc_ids c"
  by (auto simp: handle_keyframe_request_def fixed_eq_iff arc_ids_def Let_def)

lemma Client_new_total: "\<exists>c w'. Client_new rtc m w = Some (c, w')"
  by (simp add: Client_new_def SubscriberPacer_new_def with_config_def try_with_config_default
      next_client_id_def)

end
