(* ===== verification/Registry.thy ===== *)
theory Registry
  imports Client
begin

text \<open>
  The room: \<^verbatim>\<open>src/registry/*.rs\<close> and \<^verbatim>\<open>src/fanout.rs\<close>. The record \<open>Registry\<close> holds the clients in the
  order of their insertion, the queue of events that wait for fan-out, the speaker detector and the
  bandwidth estimator. Operations thread the \<open>world\<close> of theory \<^verbatim>\<open>Client\<close>.

  \<open>poll_all\<close> polls each client until str0m has nothing more to say; that number of rounds is
  str0m's, so the loop has fuel and \<open>None\<close> stands for a loop that has not ended. The fan-out
  loop feeds its own queue and has a termination proof; its \<open>None\<close> is a panic of the pacer.
\<close>

section \<open>Fan-out of one event (fanout.rs)\<close>

text \<open>\<^verbatim>\<open>for client in clients.iter_mut()\<close>, threading the world.\<close>

fun for_clients ::
    "('r Client \<Rightarrow> world \<Rightarrow> 'r Client \<times> world) \<Rightarrow> 'r Client list \<Rightarrow> world \<Rightarrow> 'r Client list \<times> world" where
  "for_clients f [] w = ([], w)"
| "for_clients f (c # cs) w =
     (let (c, w) = f c w; (cs, w) = for_clients f cs w in (c # cs, w))"

definition fanout_client ::
    "('r, 'd, 'p, 't) env \<Rightarrow> ('p, 't) Propagated \<Rightarrow> client_id \<Rightarrow> 'r Client \<Rightarrow> world \<Rightarrow> 'r Client \<times> world" where
  "fanout_client E p origin c w =
     (if c_id c = origin then (c, w)
      else case p of
             TrackOpen _ track_in \<Rightarrow> (handle_track_open c track_in, w)
           | MediaDataEv _ d \<Rightarrow> handle_media_data_out E origin d c w
           | KeyframeRequestEv _ req source mid_in \<Rightarrow>
               (if source = c_id c then (handle_keyframe_request E c req mid_in w, w) else (c, w))
           | _ \<Rightarrow> (c, w))"

definition fanout ::
    "('r, 'd, 'p, 't) env \<Rightarrow> ('p, 't) Propagated \<Rightarrow> 'r Client list \<Rightarrow> world \<Rightarrow> 'r Client list \<times> world" where
  "fanout E p clients w =
     (case p of
        ActiveSpeakerChanged peer_id _ \<Rightarrow>
          (map (\<lambda>c. if c_id c = peer_id then c else handle_active_speaker_changed c peer_id) clients, w)
      | _ \<Rightarrow> (case propagated_client_id p of
                None \<Rightarrow> (clients, w)
              | Some origin \<Rightarrow> for_clients (fanout_client E p origin) clients w))"

section \<open>The registry (registry/mod.rs)\<close>

record ('r, 'd, 'p, 't) Registry =
  r_clients :: "'r Client list"
  r_to_propagate :: "('p, 't) Propagated list"
  r_metrics :: nat
  r_detector :: 'd
  r_detector_epoch :: instant
  r_bandwidth :: BandwidthEstimator
  r_bwe_epoch :: instant

definition Registry_new :: "('r, 'd, 'p, 't) env \<Rightarrow> nat \<Rightarrow> world \<Rightarrow> ('r, 'd, 'p, 't) Registry \<times> world" where
  "Registry_new E metrics w =
     (let (detector_epoch, w) = instant_now w; (bwe_epoch, w) = instant_now w
      in (\<lparr>r_clients = [], r_to_propagate = [], r_metrics = metrics, r_detector = det_new E,
           r_detector_epoch = detector_epoch, r_bandwidth = BandwidthEstimator_new,
           r_bwe_epoch = bwe_epoch\<rparr>, w))"

definition epoch_ms :: "instant \<Rightarrow> instant \<Rightarrow> u64" where
  "epoch_ms now epoch = word_of_nat (as_millis (duration_since now epoch))"

definition now_ms :: "('r, 'd, 'p, 't) Registry \<Rightarrow> world \<Rightarrow> u64 \<times> world" where
  "now_ms reg w = (let (now, w) = instant_now w in (epoch_ms now (r_detector_epoch reg), w))"

definition insert_client ::
    "('r, 'd, 'p, 't) env \<Rightarrow> ('r, 'd, 'p, 't) Registry \<Rightarrow> 'r Client \<Rightarrow> world \<Rightarrow> ('r, 'd, 'p, 't) Registry \<times> world" where
  "insert_client E reg client w =
     (let m = r_metrics reg;
          w = emit m (peer_drop_counter (c_id client)) w;
          client = client\<lparr>c_metrics := m, c_video_frames_dropped := (m, c_id client)\<rparr>;
          client = foldl (\<lambda>c entry. handle_track_open c (te_id entry)) client
                     (concat (map c_tracks_in (r_clients reg)));
          register = \<not> is_relay client;
          client = client\<lparr>c_in_speaker_detector := register\<rparr>;
          (reg, w) = (if register
                      then let (t, w) = now_ms reg w
                           in (reg\<lparr>r_detector := det_add_peer E (r_detector reg) (c_id client) t\<rparr>, w)
                      else (reg, w));
          w = emit m inc_client_connect w;
          w = emit m inc_active_participants w
      in (reg\<lparr>r_clients := r_clients reg @ [client]\<rparr>, w))"

definition handle_incoming ::
    "('r, 'd, 'p, 't) env \<Rightarrow> ('r, 'd, 'p, 't) Registry \<Rightarrow> socket_addr \<Rightarrow> socket_addr \<Rightarrow> u8 list \<Rightarrow> world
     \<Rightarrow> ('r, 'd, 'p, 't) Registry \<times> bool \<times> world" where
  "handle_incoming E reg source destination payload w =
     (let (now, w) = instant_now w;
          datagram = \<lparr>in_received_at = now, in_proto = SfuUdp, in_source = source,
                      in_destination = destination, in_contents = payload\<rparr>
      in case find (\<lambda>c. accepts E c datagram) (r_clients reg) of
           Some _ \<Rightarrow>
             (reg\<lparr>r_clients := update_first (\<lambda>c. accepts E c datagram)
                                (\<lambda>c. Client_handle_input E c datagram) (r_clients reg)\<rparr>, True, w)
         | None \<Rightarrow> (reg, False, w))"

definition record_audio_level ::
    "('r, 'd, 'p, 't) env \<Rightarrow> ('r, 'd, 'p, 't) Registry \<Rightarrow> u64 \<Rightarrow> u8 \<Rightarrow> instant \<Rightarrow> ('r, 'd, 'p, 't) Registry" where
  "record_audio_level E reg peer_id level_raw now =
     (if \<not> list_ex (\<lambda>c. c_id c = peer_id \<and> c_in_speaker_detector c) (r_clients reg) then reg
      else reg\<lparr>r_detector := det_record_level E (r_detector reg) peer_id level_raw
                              (epoch_ms now (r_detector_epoch reg))\<rparr>)"

definition peer_audio_scores ::
    "('r, 'd, 'p, 't) env \<Rightarrow> ('r, 'd, 'p, 't) Registry \<Rightarrow> (u64 \<times> f64 \<times> f64 \<times> f64) list" where
  "peer_audio_scores E reg = det_peer_scores E (r_detector reg)"

definition Registry_on_twcc_feedback ::
    "('r, 'd, 'p, 't) Registry \<Rightarrow> client_id \<Rightarrow> TwccFeedback \<Rightarrow> instant \<Rightarrow> ('r, 'd, 'p, 't) Registry" where
  "Registry_on_twcc_feedback reg subscriber feedback now =
     reg\<lparr>r_bandwidth := on_twcc_feedback (r_bandwidth reg) subscriber feedback now\<rparr>"

definition Registry_enable_googcc ::
    "('r, 'd, 'p, 't) Registry \<Rightarrow> client_id \<Rightarrow> ('r, 'd, 'p, 't) Registry" where
  "Registry_enable_googcc reg subscriber =
     reg\<lparr>r_bandwidth := enable_googcc_for_subscriber (r_bandwidth reg) subscriber\<rparr>"

definition googcc_ceiling_for_subscriber_mut ::
    "('r, 'd, 'p, 't) Registry \<Rightarrow> client_id \<Rightarrow> (GoogCcEstimator \<Rightarrow> GoogCcEstimator) \<Rightarrow> ('r, 'd, 'p, 't) Registry" where
  "googcc_ceiling_for_subscriber_mut reg subscriber f =
     reg\<lparr>r_bandwidth := googcc_for_subscriber_mut (r_bandwidth reg) subscriber f\<rparr>"

section \<open>Driving the room (registry/drive.rs)\<close>

fun apply_pacer_action ::
    "PacerAction \<Rightarrow> client_id \<Rightarrow> ('p, 't) Propagated option \<times> bool option" where
  "apply_pacer_action GoAudioOnly peer_id = (Some (AudioOnlyMode peer_id True), None)"
| "apply_pacer_action RestoreVideo peer_id = (Some (AudioOnlyMode peer_id False), None)"
| "apply_pacer_action SuspendVideo peer_id = (Some (SuspendVideoEv peer_id True), Some True)"
| "apply_pacer_action RestoreAudio peer_id = (Some (SuspendVideoEv peer_id False), Some False)"
| "apply_pacer_action (ChangeLayer _) peer_id = (None, None)"
| "apply_pacer_action NoChange peer_id = (None, None)"

text \<open>
  \<^verbatim>\<open>poll_all\<close>. While the clients are polled, \<open>reg\<close> carries the other fields (its list of clients is
  not looked at), next to the deadline and the timing of the last video packet.
\<close>

definition audio_level :: "int \<Rightarrow> u8" where
  "audio_level raw = word_of_int (max 0 (min 127 (- raw)))"

definition poll_media ::
    "('r, 'd, 'p, 't) env \<Rightarrow> instant \<Rightarrow> 'r Client \<Rightarrow> ('r, 'd, 'p, 't) Registry \<Rightarrow> (f64 \<times> f64) option \<Rightarrow> world
     \<Rightarrow> ('p, 't) Propagated \<Rightarrow> ('r, 'd, 'p, 't) Registry \<times> (f64 \<times> f64) option \<times> world" where
  "poll_media E now c reg timing w other =
     (case other of
        MediaDataEv origin d \<Rightarrow>
          let (reg, w) = (case mp_audio_level d of
                            Some raw \<Rightarrow>
                              if \<not> is_relay c
                              then let (t, w) = now_ms reg w
                                   in (reg\<lparr>r_detector := det_record_level E (r_detector reg) origin
                                             (audio_level raw) t\<rparr>, w)
                              else (reg, w)
                          | None \<Rightarrow> (reg, w));
              timing = (if payload_is_video (codec_is_video E) d
                        then Some (as_secs_f64 (duration_since now (r_bwe_epoch reg)) * Fin 1000,
                                   rtp_send_ms (media_time_as_seconds E) d)
                        else timing)
          in (reg, timing, w)
      | _ \<Rightarrow> (reg, timing, w))"

definition push_back ::
    "('p, 't) Propagated \<Rightarrow> ('r, 'd, 'p, 't) Registry \<Rightarrow> ('r, 'd, 'p, 't) Registry" where
  "push_back p reg = reg\<lparr>r_to_propagate := r_to_propagate reg @ [p]\<rparr>"

fun poll_client ::
    "('r, 'd, 'p, 't) env \<Rightarrow> nat \<Rightarrow> instant \<Rightarrow> 'r Client
     \<Rightarrow> ('r, 'd, 'p, 't) Registry \<times> instant \<times> (f64 \<times> f64) option \<times> world
     \<Rightarrow> ('r Client \<times> ('r, 'd, 'p, 't) Registry \<times> instant \<times> (f64 \<times> f64) option \<times> world) option" where
  "poll_client E 0 now c s = None"
| "poll_client E (Suc fuel) now c (reg, deadline, timing, w) =
     (if \<not> client_is_alive E c then Some (c, reg, deadline, timing, w)
      else case poll_output E c w of
             (c, Timeout t, w) \<Rightarrow> Some (c, reg, min deadline t, timing, w)
           | (c, Noop, w) \<Rightarrow> poll_client E fuel now c (reg, deadline, timing, w)
           | (c, BandwidthEstimateEv peer_id estimate, w) \<Rightarrow>
               let w = emit (r_metrics reg) (update_peer_bwe peer_id (be_bps estimate)) w;
                   reg = push_back (BandwidthEstimateEv peer_id estimate) reg;
                   reg = reg\<lparr>r_bandwidth := record_native_estimate (r_bandwidth reg) peer_id
                                              (u64_as_f64 (be_bps estimate))\<rparr>
               in poll_client E fuel now c (reg, deadline, timing, w)
           | (c, RtcpStats peer_id stats, w) \<Rightarrow>
               let w = emit (r_metrics reg) (update_peer_rtcp peer_id (fraction_lost stats)
                         (as_secs_f64 (stats_rtt stats) * Fin 1000)
                         (as_secs_f64 (stats_jitter stats) * Fin 1000)) w;
                   reg = push_back (RtcpStats peer_id stats) reg
               in poll_client E fuel now c (reg, deadline, timing, w)
           | (c, other, w) \<Rightarrow>
               let (reg, timing, w) = poll_media E now c reg timing w other
               in poll_client E fuel now c (push_back other reg, deadline, timing, w))"

fun poll_clients ::
    "('r, 'd, 'p, 't) env \<Rightarrow> nat \<Rightarrow> instant \<Rightarrow> 'r Client list
     \<Rightarrow> ('r, 'd, 'p, 't) Registry \<times> instant \<times> (f64 \<times> f64) option \<times> world
     \<Rightarrow> ('r Client list \<times> ('r, 'd, 'p, 't) Registry \<times> instant \<times> (f64 \<times> f64) option \<times> world) option" where
  "poll_clients E fuel now [] s = Some ([], s)"
| "poll_clients E fuel now (c # cs) s =
     (case poll_client E fuel now c s of
        None \<Rightarrow> None
      | Some (c, s) \<Rightarrow> (case poll_clients E fuel now cs s of
                          None \<Rightarrow> None
                        | Some (cs, s) \<Rightarrow> Some (c # cs, s)))"

definition feed_googcc :: "BandwidthEstimator \<Rightarrow> client_id list \<Rightarrow> f64 \<Rightarrow> f64 \<Rightarrow> BandwidthEstimator" where
  "feed_googcc e ids arrival_ms send_ms =
     foldl (\<lambda>e i. googcc_for_subscriber_mut e i (\<lambda>g. fst (on_receive g arrival_ms send_ms (Fin 0)))) e ids"

definition poll_all ::
    "('r, 'd, 'p, 't) env \<Rightarrow> nat \<Rightarrow> instant \<Rightarrow> ('r, 'd, 'p, 't) Registry \<Rightarrow> world
     \<Rightarrow> (('r, 'd, 'p, 't) Registry \<times> instant \<times> world) option" where
  "poll_all E fuel now reg w =
     (case poll_clients E fuel now (r_clients reg) (reg, now + from_millis 100, None, w) of
        None \<Rightarrow> None
      | Some (cs, reg, deadline, timing, w) \<Rightarrow>
          let reg = reg\<lparr>r_clients := cs\<rparr>;
              reg = (case timing of
                       Some (arrival_ms, send_ms) \<Rightarrow>
                         reg\<lparr>r_bandwidth := feed_googcc (r_bandwidth reg) (map c_id cs) arrival_ms send_ms\<rparr>
                     | None \<Rightarrow> reg)
          in Some (reg, deadline, w))"

definition tick_active_speaker ::
    "('r, 'd, 'p, 't) env \<Rightarrow> instant \<Rightarrow> ('r, 'd, 'p, 't) Registry \<Rightarrow> world \<Rightarrow> ('r, 'd, 'p, 't) Registry \<times> world" where
  "tick_active_speaker E now reg w =
     (let (d, change) = det_tick E (r_detector reg) (epoch_ms now (r_detector_epoch reg));
          reg = reg\<lparr>r_detector := d\<rparr>
      in case change of
           Some (peer_id, c2_margin) \<Rightarrow>
             (push_back (ActiveSpeakerChanged peer_id c2_margin) reg,
              emit (r_metrics reg) inc_dominant_speaker_changes w)
         | None \<Rightarrow> (reg, w))"

definition tick_speaker_scores ::
    "('r, 'd, 'p, 't) env \<Rightarrow> ('r, 'd, 'p, 't) Registry \<Rightarrow> world \<Rightarrow> world" where
  "tick_speaker_scores E reg w =
     foldl (\<lambda>w (peer_id, imm, med, lng). emit (r_metrics reg) (update_peer_speaker_scores peer_id imm med lng) w)
       w (peer_audio_scores E reg)"

definition tick :: "('r, 'd, 'p, 't) env \<Rightarrow> instant \<Rightarrow> ('r, 'd, 'p, 't) Registry \<Rightarrow> ('r, 'd, 'p, 't) Registry" where
  "tick E now reg = reg\<lparr>r_clients := map (\<lambda>c. Client_handle_timeout E c now) (r_clients reg)\<rparr>"

text \<open>
  \<^verbatim>\<open>update_pacer_layers\<close>. The slice of available layers it computes first is not used afterwards and
  is left out. One round of its loop yields the client, the event to queue and the new world.
\<close>

definition pacer_round ::
    "BandwidthEstimator \<Rightarrow> nat \<Rightarrow> client_id \<Rightarrow> instant \<Rightarrow> 'r Client \<Rightarrow> world
     \<Rightarrow> ('r Client \<times> ('p, 't) Propagated list \<times> world) option" where
  "pacer_round bw m origin now c w =
     (if c_id c = origin then Some (c, [], w)
      else case estimate_with_term bw (c_id c) now of
             None \<Rightarrow> Some (c, [], w)
           | Some (budget, bterm) \<Rightarrow>
               let (c, ready) = pacer_tick_ready c now PACER_MIN_TICK_INTERVAL
               in if \<not> ready then Some (c, [], emit m inc_pacer_tick_throttled w)
                  else let w = emit m (update_peer_bwe (c_id c) budget) w;
                           w = emit m (update_peer_binding_term (c_id c) (BindingTerm_as_str bterm)) w
                       in case drive_pacer c budget of
                            None \<Rightarrow> None
                          | Some (c, action) \<Rightarrow>
                              let (ev, suspend) = apply_pacer_action action (c_id c);
                                  (c, w) = (case suspend of
                                              Some s \<Rightarrow> (set_suspended c s,
                                                emit m (inc_suspend_video (if s then ''enter'' else ''exit'')) w)
                                            | None \<Rightarrow> (c, w))
                              in Some (c, case ev of Some ev \<Rightarrow> [ev] | None \<Rightarrow> [], w))"

fun pacer_rounds ::
    "BandwidthEstimator \<Rightarrow> nat \<Rightarrow> client_id \<Rightarrow> instant \<Rightarrow> 'r Client list \<Rightarrow> world
     \<Rightarrow> ('r Client list \<times> ('p, 't) Propagated list \<times> world) option" where
  "pacer_rounds bw m origin now [] w = Some ([], [], w)"
| "pacer_rounds bw m origin now (c # cs) w =
     (case pacer_round bw m origin now c w of
        None \<Rightarrow> None
      | Some (c, evs, w) \<Rightarrow> (case pacer_rounds bw m origin now cs w of
                               None \<Rightarrow> None
                             | Some (cs, evs', w) \<Rightarrow> Some (c # cs, evs @ evs', w)))"

definition update_pacer_layers ::
    "client_id \<Rightarrow> instant \<Rightarrow> ('r, 'd, 'p, 't) Registry \<Rightarrow> world \<Rightarrow> (('r, 'd, 'p, 't) Registry \<times> world) option" where
  "update_pacer_layers origin now reg w =
     (case pacer_rounds (r_bandwidth reg) (r_metrics reg) origin now (r_clients reg) w of
        None \<Rightarrow> None
      | Some (cs, evs, w) \<Rightarrow>
          Some (reg\<lparr>r_clients := cs, r_to_propagate := r_to_propagate reg @ evs\<rparr>, w))"

text \<open>One round of the loop of \<^verbatim>\<open>fanout_pending\<close>, on the event \<open>p\<close> just taken from the queue.\<close>

definition fanout_one ::
    "('r, 'd, 'p, 't) env \<Rightarrow> instant \<Rightarrow> ('p, 't) Propagated \<Rightarrow> ('r, 'd, 'p, 't) Registry \<Rightarrow> world
     \<Rightarrow> (('r, 'd, 'p, 't) Registry \<times> world) option" where
  "fanout_one E now p reg w =
     (let deliver = (\<lambda>reg w. let (cs, w) = fanout E p (r_clients reg) w in (reg\<lparr>r_clients := cs\<rparr>, w))
      in case p of
           ClientBudgetHint subscriber_id bps \<Rightarrow>
             Some (reg\<lparr>r_bandwidth := record_client_hint (r_bandwidth reg) subscriber_id bps now\<rparr>, w)
         | MediaDataEv origin d \<Rightarrow>
             map_option (\<lambda>(reg, w). deliver reg w) (update_pacer_layers origin now reg w)
         | _ \<Rightarrow> Some (deliver reg w))"

fun is_media :: "('p, 't) Propagated \<Rightarrow> bool" where
  "is_media (MediaDataEv _ _) = True"
| "is_media _ = False"

lemma apply_pacer_action_not_media: "apply_pacer_action a p = (Some ev, b) \<Longrightarrow> \<not> is_media ev"
  by (cases a) auto

lemma pacer_round_events:
  "pacer_round bw m origin now c w = Some (c', evs, w') \<Longrightarrow> \<forall>ev \<in> set evs. \<not> is_media ev"
  by (auto simp: pacer_round_def Let_def dest: apply_pacer_action_not_media
      split: if_splits option.splits prod.splits)

lemma pacer_rounds_events:
  "pacer_rounds bw m origin now cs w = Some (cs', evs, w') \<Longrightarrow> \<forall>ev \<in> set evs. \<not> is_media ev"
proof (induction cs arbitrary: w cs' evs w')
  case (Cons c cs)
  then show ?case
    using pacer_round_events by (fastforce split: option.splits prod.splits)
qed simp

lemma fanout_one_queue:
  assumes "fanout_one E now p reg w = Some (reg', w')"
  obtains evs where "r_to_propagate reg' = r_to_propagate reg @ evs" "\<forall>ev \<in> set evs. \<not> is_media ev"
    "is_media p \<or> evs = []"
proof (cases "is_media p")
  case True
  then obtain origin d where [simp]: "p = MediaDataEv origin d" by (cases p) auto
  show ?thesis
    using assms that
    by (auto simp: fanout_one_def update_pacer_layers_def dest: pacer_rounds_events
        split: option.splits prod.splits)
next
  case False
  then have "r_to_propagate reg' = r_to_propagate reg"
    using assms by (cases p) (auto simp: fanout_one_def split: prod.splits)
  then show ?thesis using that [of "[]"] by simp
qed

function fanout_loop ::
    "('r, 'd, 'p, 't) env \<Rightarrow> instant \<Rightarrow> ('r, 'd, 'p, 't) Registry \<Rightarrow> world
     \<Rightarrow> (('r, 'd, 'p, 't) Registry \<times> world) option" where
  "fanout_loop E now reg w =
     (case r_to_propagate reg of
        [] \<Rightarrow> Some (reg, w)
      | p # ps \<Rightarrow> (case fanout_one E now p (reg\<lparr>r_to_propagate := ps\<rparr>) w of
                    None \<Rightarrow> None
                  | Some (reg, w) \<Rightarrow> fanout_loop E now reg w))"
  by pat_completeness auto

termination fanout_loop
proof (relation "measures [\<lambda>(E, now, reg, w). length (filter is_media (r_to_propagate reg)),
                           \<lambda>(E, now, reg, w). length (r_to_propagate reg)]", goal_cases)
  case (2 E now reg w p ps s reg' w')
  then have "fanout_one E now p (reg\<lparr>r_to_propagate := ps\<rparr>) w = Some (reg', w')" by simp
  then obtain evs where "r_to_propagate reg' = ps @ evs" "\<forall>ev \<in> set evs. \<not> is_media ev"
    "is_media p \<or> evs = []"
    by (rule fanout_one_queue) simp
  moreover from this(2) have "filter is_media evs = []"
    by (simp add: filter_empty_conv)
  ultimately show ?case using \<open>r_to_propagate reg = p # ps\<close> by auto
qed simp

declare fanout_loop.simps [simp del]

definition fanout_pending ::
    "('r, 'd, 'p, 't) env \<Rightarrow> ('r, 'd, 'p, 't) Registry \<Rightarrow> world \<Rightarrow> (('r, 'd, 'p, 't) Registry \<times> world) option" where
  "fanout_pending E reg w = (let (now, w) = instant_now w in fanout_loop E now reg w)"

text \<open>\<^verbatim>\<open>emit_publisher_layer_hints\<close>: the highest desired layer per publisher with a live track.\<close>

definition raise_max :: "SfuRid \<Rightarrow> (client_id \<times> SfuRid) list \<Rightarrow> client_id \<Rightarrow> (client_id \<times> SfuRid) list" where
  "raise_max sub_desired m publisher_id =
     (let entry = (case map_of m publisher_id of Some r \<Rightarrow> r | None \<Rightarrow> LOW)
      in AList.update publisher_id (if rank entry < rank sub_desired then sub_desired else entry) m)"

definition live_origins :: "world \<Rightarrow> 'r Client \<Rightarrow> client_id list" where
  "live_origins w subscriber =
     map ti_origin (List.map_filter (\<lambda>t. upgrade w (to_track_in t)) (c_tracks_out subscriber))"

definition max_per_publisher :: "world \<Rightarrow> 'r Client list \<Rightarrow> (client_id \<times> SfuRid) list" where
  "max_per_publisher w clients =
     foldl (\<lambda>m subscriber. foldl (raise_max (c_desired_layer subscriber)) m (live_origins w subscriber)) [] clients"

definition layer_hint :: "'r Client list \<Rightarrow> client_id \<times> SfuRid \<Rightarrow> ('p, 't) Propagated" where
  "layer_hint clients h =
     (case h of (publisher_id, max_rid) \<Rightarrow>
        if list_ex (\<lambda>c. c_id c = publisher_id \<and> is_relay c) clients
        then PublisherLayerHintForUpstream publisher_id max_rid
        else PublisherLayerHint publisher_id max_rid)"

definition emit_publisher_layer_hints ::
    "('r, 'd, 'p, 't) env \<Rightarrow> ('r, 'd, 'p, 't) Registry \<Rightarrow> world \<Rightarrow> ('r, 'd, 'p, 't) Registry" where
  "emit_publisher_layer_hints E reg w =
     foldl (\<lambda>reg h. push_back (layer_hint (r_clients reg) h) reg) reg
       (id_hash_order E (max_per_publisher w (r_clients reg)))"

section \<open>Draining and reaping (registry/lifecycle.rs)\<close>

definition drain_transmits ::
    "('r, 'd, 'p, 't) Registry \<Rightarrow> ('r, 'd, 'p, 't) Registry \<times> OutgoingDatagram list" where
  "drain_transmits reg =
     (let drained = map drain_pending_out (r_clients reg)
      in (reg\<lparr>r_clients := map fst drained\<rparr>, concat (map snd drained)))"

definition reap_client ::
    "('r, 'd, 'p, 't) env \<Rightarrow> 'r Client \<Rightarrow> ('r, 'd, 'p, 't) Registry \<times> world \<Rightarrow> ('r, 'd, 'p, 't) Registry \<times> world" where
  "reap_client E c s =
     (case s of (reg, w) \<Rightarrow>
        let reg = (if c_in_speaker_detector c
                   then reg\<lparr>r_detector := det_remove_peer E (r_detector reg) (c_id c)\<rparr> else reg);
            reg = reg\<lparr>r_bandwidth := est_reap_dead (r_bandwidth reg) (c_id c)\<rparr>;
            w = emit (r_metrics reg) inc_client_disconnect w;
            w = emit (r_metrics reg) dec_active_participants w;
            w = emit (r_metrics reg) (reap_dead_peer (c_id c)) w
        in (reg, arc_drop (map te_id (c_tracks_in c)) w))"

definition reap_dead ::
    "('r, 'd, 'p, 't) env \<Rightarrow> ('r, 'd, 'p, 't) Registry \<Rightarrow> world \<Rightarrow> ('r, 'd, 'p, 't) Registry \<times> world" where
  "reap_dead E reg w =
     (let (reg, w) = foldl (\<lambda>s c. if \<not> client_is_alive E c then reap_client E c s else s) (reg, w) (r_clients reg)
      in (reg\<lparr>r_clients := filter (client_is_alive E) (r_clients reg)\<rparr>, w))"

end
