(* ===== verification/Room.thy ===== *)
theory Room
  imports Registry
begin

text \<open>
  The life of a room: a step relation over the operations of the registry that a host can call, and
  the invariant \<open>room_ok\<close> of every reachable room, by rule induction. The invariant says that ids
  are unique, that the pacer and the suspended flag of every client agree, that the live track
  allocations are exactly those of the clients present, that every client mirrors every other
  client's tracks (or the announcement is queued), that the participants gauge counts the clients,
  and that the speaker detector holds exactly the clients registered with it.
\<close>

section \<open>The invariant\<close>

definition client_ok :: "'r Client \<Rightarrow> bool" where
  "client_ok c \<longleftrightarrow> pacer_inv (c_pacer c) \<and> c_suspended c = suspended (c_pacer c)
     \<and> (\<forall>t \<in> set (c_tracks_out c). to_state t = ToOpen)"

text \<open>What the other parts of the invariant see of a client.\<close>

definition ident :: "'r Client \<Rightarrow> client_id \<times> bool \<times> bool \<times> arc set \<times> arc list" where
  "ident c = (c_id c, is_relay c, c_in_speaker_detector c, to_track_in ` set (c_tracks_out c), arc_ids c)"

definition owned :: "world \<Rightarrow> 'r Client list \<Rightarrow> bool" where
  "owned w cs \<longleftrightarrow> distinct (concat (map arc_ids cs))
     \<and> fst ` set (arcs w) = set (concat (map arc_ids cs))
     \<and> (\<forall>a \<in> set (concat (map arc_ids cs)). a < next_arc w)
     \<and> (\<forall>c \<in> set cs. \<forall>a \<in> set (arc_ids c). map_option ti_origin (upgrade w a) = Some (c_id c))"

definition mesh :: "'r Client list \<Rightarrow> ('p, 't) Propagated list \<Rightarrow> bool" where
  "mesh cs q \<longleftrightarrow> (\<forall>c \<in> set cs. \<forall>c' \<in> set cs. c_id c \<noteq> c_id c' \<longrightarrow>
     (\<forall>a \<in> set (arc_ids c'). a \<in> to_track_in ` set (c_tracks_out c) \<or> TrackOpen (c_id c') a \<in> set q))"

definition registered :: "'r Client list \<Rightarrow> u64 set" where
  "registered cs = c_id ` {c \<in> set cs. c_in_speaker_detector c}"

definition ids_ok :: "world \<Rightarrow> 'r Client list \<Rightarrow> bool" where
  "ids_ok w cs \<longleftrightarrow> distinct (map c_id cs) \<and> (\<forall>c \<in> set cs. c_id c < id_counter w)
     \<and> (\<forall>c \<in> set cs. c_in_speaker_detector c \<longleftrightarrow> \<not> is_relay c)"

definition room_ok ::
    "('d \<Rightarrow> u64 set) \<Rightarrow> 'r Client list \<Rightarrow> ('r, 'd, 'p, 't) Registry \<Rightarrow> world \<Rightarrow> bool" where
  "room_ok peers cs reg w \<longleftrightarrow> list_all client_ok cs \<and> ids_ok w cs \<and> owned w cs
     \<and> mesh cs (r_to_propagate reg) \<and> participants (r_metrics reg) w = int (length cs)
     \<and> peers (r_detector reg) = registered cs"

section \<open>Congruence\<close>

lemma fixed_ident: "fixed c' = fixed c \<Longrightarrow> arc_ids c' = arc_ids c \<Longrightarrow> ident c' = ident c"
  by (simp add: fixed_eq_iff ident_def is_relay_def)

lemma fixed_client_ok: "fixed c' = fixed c \<Longrightarrow> client_ok c' = client_ok c"
  by (simp add: fixed_eq_iff client_ok_def)

lemma map_ident_length: "map ident cs' = map ident cs \<Longrightarrow> length cs' = length cs"
  by (metis length_map)

lemma map_factor:
  fixes cs cs' :: "'r Client list"
  assumes "map ident cs' = map ident cs" and g: "\<And>c c'. ident c' = ident c \<Longrightarrow> g c' = g c"
  shows "map g cs' = map g cs"
  using assms(1) by (induction cs' cs rule: list_induct2') (auto intro: g)

lemma map_ident_cong:
  fixes cs cs' :: "'r Client list"
  assumes "map ident cs' = map ident cs"
  shows "map c_id cs' = map c_id cs" and "map arc_ids cs' = map arc_ids cs"
  by (rule map_factor [OF assms]; simp add: ident_def)+

lemma ball_ident_cong:
  fixes cs cs' :: "'r Client list"
  assumes "map ident cs' = map ident cs" and P: "\<And>c c'. ident c' = ident c \<Longrightarrow> P c' = P c"
  shows "(\<forall>c \<in> set cs'. P c) = (\<forall>c \<in> set cs. P c)"
proof -
  have *: "(\<forall>c \<in> set cs. P c) = (\<forall>b \<in> set (map P cs). b)" for cs by simp
  have "map P cs' = map P cs" by (rule map_factor [OF assms(1)]) (rule P)
  then show ?thesis by (simp only: *)
qed

lemma owned_cong:
  fixes cs cs' :: "'r Client list"
  assumes "map ident cs' = map ident cs" "quiet w w'" "owned w cs"
  shows "owned w' cs'"
proof -
  let ?P = "\<lambda>c. \<forall>a \<in> set (arc_ids c). map_option ti_origin (upgrade w a) = Some (c_id c)"
  have "(\<forall>c \<in> set cs'. ?P c) = (\<forall>c \<in> set cs. ?P c)"
    by (rule ball_ident_cong [OF assms(1)]) (simp add: ident_def)
  moreover have "arcs w' = arcs w" "next_arc w' = next_arc w"
    using assms(2) by (simp_all add: quiet_def)
  ultimately show ?thesis
    using assms(3) unfolding owned_def map_ident_cong(2) [OF assms(1)] quiet_upgrade [OF assms(2)]
    by metis
qed

lemma ids_ok_cong:
  fixes cs cs' :: "'r Client list"
  assumes "map ident cs' = map ident cs" "quiet w w'" "ids_ok w cs"
  shows "ids_ok w' cs'"
proof -
  let ?P = "\<lambda>c. c_id c < id_counter w \<and> (c_in_speaker_detector c \<longleftrightarrow> \<not> is_relay c)"
  have "(\<forall>c \<in> set cs'. ?P c) = (\<forall>c \<in> set cs. ?P c)"
    by (rule ball_ident_cong [OF assms(1)]) (simp add: ident_def)
  with assms(2,3) show ?thesis
    unfolding ids_ok_def map_ident_cong(1) [OF assms(1)] by (simp add: quiet_def ball_conj_distrib)
qed

lemma mesh_cong:
  fixes cs cs' :: "'r Client list"
  assumes "map ident cs' = map ident cs" "mesh cs q"
    "\<And>i a. TrackOpen i a \<in> set q \<Longrightarrow> TrackOpen i a \<in> set q'"
  shows "mesh cs' q'"
proof -
  have *: "\<exists>d \<in> set cs. c_id c = c_id d \<and> arc_ids c = arc_ids d
      \<and> to_track_in ` set (c_tracks_out c) = to_track_in ` set (c_tracks_out d)" if "c \<in> set cs'" for c
  proof -
    have "ident c \<in> set (map ident cs)" using that assms(1) by (metis imageI list.set_map)
    then show ?thesis by (auto simp: ident_def)
  qed
  show ?thesis unfolding mesh_def
  proof (intro ballI impI)
    fix c c' a assume "c \<in> set cs'" "c' \<in> set cs'" "c_id c \<noteq> c_id c'" "a \<in> set (arc_ids c')"
    then show "a \<in> to_track_in ` set (c_tracks_out c) \<or> TrackOpen (c_id c') a \<in> set q'"
      using assms(2,3) * [of c] * [of c'] unfolding mesh_def by metis
  qed
qed

lemma registered_simps [simp]:
  "registered [] = {}"
  "registered (c # cs) = (if c_in_speaker_detector c then insert (c_id c) (registered cs) else registered cs)"
  "registered (cs @ cs') = registered cs \<union> registered cs'"
  by (auto simp: registered_def)

lemma registered_cong:
  fixes cs cs' :: "'r Client list"
  assumes "map ident cs' = map ident cs"
  shows "registered cs' = registered cs"
proof -
  let ?g = "\<lambda>c. (c_id c, c_in_speaker_detector c)"
  have *: "registered cs = {i. (i, True) \<in> set (map ?g cs)}" for cs :: "'r Client list"
    by (auto simp: registered_def)
  have "map ?g cs' = map ?g cs"
    by (rule map_factor [OF assms]) (simp add: ident_def)
  then show ?thesis by (simp only: *)
qed

lemma room_ok_cong:
  fixes cs cs' :: "'r Client list"
  assumes "room_ok peers cs reg w" "map ident cs' = map ident cs" "list_all client_ok cs'" "quiet w w'"
    "r_metrics reg' = r_metrics reg" "peers (r_detector reg') = peers (r_detector reg)"
    "\<And>i a. TrackOpen i a \<in> set (r_to_propagate reg) \<Longrightarrow> TrackOpen i a \<in> set (r_to_propagate reg')"
  shows "room_ok peers cs' reg' w'"
proof -
  have "mesh cs' (r_to_propagate reg')"
    using assms(1,7) by (intro mesh_cong [OF assms(2), of "r_to_propagate reg"]) (auto simp: room_ok_def)
  then show ?thesis
    using assms(1,3-6) ids_ok_cong [OF assms(2,4)] owned_cong [OF assms(2,4)]
      registered_cong [OF assms(2)] map_ident_length [OF assms(2)]
    by (simp add: room_ok_def quiet_def)
qed

section \<open>Polling\<close>

text \<open>What the registry does with a polled event.\<close>

fun queued :: "('p, 't) Propagated \<Rightarrow> ('p, 't) Propagated list" where
  "queued Noop = []"
| "queued (Timeout _) = []"
| "queued p = [p]"

definition levels :: "('r, 'd, 'p, 't) env \<Rightarrow> 'r Client \<Rightarrow> 'd \<Rightarrow> 'd \<Rightarrow> bool" where
  "levels E c d d' \<longleftrightarrow> \<not> is_relay c \<and> (\<exists>l t. d' = det_record_level E d (c_id c) l t)"

lemma levels_record [simp]: "levels E c d (det_record_level E d (c_id c) l t) \<longleftrightarrow> \<not> is_relay c"
  by (auto simp: levels_def)

definition absorbs ::
    "('r, 'd, 'p, 't) env \<Rightarrow> 'r Client \<Rightarrow> ('p, 't) Propagated
     \<Rightarrow> ('r, 'd, 'p, 't) Registry \<Rightarrow> world \<Rightarrow> ('r, 'd, 'p, 't) Registry \<Rightarrow> world \<Rightarrow> bool" where
  "absorbs E c p reg w reg' w' \<longleftrightarrow>
     quiet w w' \<and> r_metrics reg' = r_metrics reg \<and> r_to_propagate reg' = r_to_propagate reg @ queued p
     \<and> (r_detector reg' = r_detector reg \<or> levels E c (r_detector reg) (r_detector reg'))"

lemma poll_media_absorbs:
  assumes "poll_media E now c reg timing w p = (reg', timing', w')" "polled_event (c_id c) p" "queued p = [p]"
  shows "absorbs E c p reg w (push_back p reg') w'"
proof (cases p)
  case (MediaDataEv origin d)
  with assms show ?thesis
    by (auto simp: poll_media_def absorbs_def push_back_def now_ms_def instant_now_def Let_def
        intro!: quiet_clock split: option.splits if_splits prod.splits)
qed (use assms in \<open>auto simp: poll_media_def absorbs_def push_back_def\<close>)

text \<open>A property of client, registry and world that each round keeps holds when polling ends.\<close>

lemma poll_client_rule:
  assumes "poll_client E fuel now c (reg, dl, tm, w) = Some (c', reg', dl', tm', w')" "P c reg w"
    and step: "\<And>c reg w c' p w' reg' w''. P c reg w \<Longrightarrow> polls c w (c', p, w')
      \<Longrightarrow> absorbs E c' p reg w' reg' w'' \<Longrightarrow> P c' reg' w''"
  shows "P c' reg' w' \<and> dl' \<le> dl"
  using assms(1,2)
proof (induction fuel arbitrary: c reg dl tm w)
  case (Suc fuel)
  obtain c1 p w1 where 1: "poll_output E c w = (c1, p, w1)" by (metis prod.exhaust)
  have polls: "polls c w (c1, p, w1)" using polls_poll_output [of c w E] 1 by simp
  then have ev: "polled_event (c_id c1) p" by (simp add: polls_def fixed_eq_iff)
  have next_: "P c1 reg2 w2" if "absorbs E c1 p reg w1 reg2 w2" for reg2 w2
    using step [OF Suc.prems(2) polls that] .
  have refl: "absorbs E c1 p reg w1 reg w1" if "queued p = []"
    using that by (simp add: absorbs_def)
  have media: "P c1 (push_back p reg2) w2" if "poll_media E now c1 reg tm w1 p = (reg2, tm2, w2)" "queued p = [p]" for reg2 tm2 w2
    using next_ [OF poll_media_absorbs [OF that(1) ev that(2)]] .
  show ?case
  proof (cases "client_is_alive E c")
    case False
    with Suc.prems show ?thesis by simp
  next
    case True
    note unfolded = Suc.prems(1) [simplified poll_client.simps, simplified True 1]
    show ?thesis
    proof (cases p)
      case Noop
      with unfolded Suc.IH next_ [OF refl] show ?thesis by simp
    next
      case (Timeout t)
      with unfolded next_ [OF refl] show ?thesis by auto
    next
      case (BandwidthEstimateEv i e)
      then show ?thesis
        using unfolded by (auto simp: Let_def dest!: Suc.IH
            intro!: next_ quiet_intros simp: absorbs_def push_back_def)
    next
      case (RtcpStats i st)
      then show ?thesis
        using unfolded by (auto simp: Let_def dest!: Suc.IH
            intro!: next_ quiet_intros simp: absorbs_def push_back_def)
    qed (use unfolded media Suc.IH in \<open>auto split: prod.splits\<close>)
  qed
qed simp

text \<open>
  The detector the kit links against, as its documentation and the comments in
  \<^verbatim>\<open>registry/mod.rs\<close> describe it: \<open>peers\<close> is the set of registered peers, and recording a level
  registers the peer.
\<close>

definition detector_contract :: "('r, 'd, 'p, 't) env \<Rightarrow> ('d \<Rightarrow> u64 set) \<Rightarrow> bool" where
  "detector_contract E peers \<longleftrightarrow> peers (det_new E) = {}
     \<and> (\<forall>d i t. peers (det_add_peer E d i t) = insert i (peers d))
     \<and> (\<forall>d i. peers (det_remove_peer E d i) = peers d - {i})
     \<and> (\<forall>d i l t. peers (det_record_level E d i l t) = insert i (peers d))
     \<and> (\<forall>d t. peers (fst (det_tick E d t)) = peers d)"

lemma owned_alloc:
  assumes "owned w (pre @ c # post)" "arc_ids c' = arc_ids c @ [next_arc w]" "c_id c' = c_id c" "ti_origin t = c_id c"
  shows "owned (snd (arc_new t w)) (pre @ c' # post)"
proof -
  have less: "a < next_arc w" if "d \<in> set (pre @ c # post)" "a \<in> set (arc_ids d)" for d a
    using that assms(1) unfolding owned_def by auto
  have up: "map_option ti_origin (upgrade (snd (arc_new t w)) a) = Some (c_id d)"
    if "d \<in> set (pre @ c # post)" "a \<in> set (arc_ids d)" for d a
    using that assms(1) less [OF that] unfolding owned_def by (auto simp: arc_new_def upgrade_def)
  have up': "\<forall>d \<in> set (pre @ c' # post). \<forall>a \<in> set (arc_ids d).
      map_option ti_origin (upgrade (snd (arc_new t w)) a) = Some (c_id d)"
    using up assms(2-4) by (auto simp: arc_new_def upgrade_def)
  have "next_arc w \<notin> set (concat (map arc_ids (pre @ c # post)))"
  proof
    assume "next_arc w \<in> set (concat (map arc_ids (pre @ c # post)))"
    then obtain d where "d \<in> set (pre @ c # post)" "next_arc w \<in> set (arc_ids d)" by auto
    from less [OF this] show False by simp
  qed
  then have dist: "distinct (concat (map arc_ids (pre @ c' # post)))"
    using assms(1,2) unfolding owned_def by auto
  have ids: "set (concat (map arc_ids (pre @ c' # post))) = insert (next_arc w) (set (concat (map arc_ids (pre @ c # post))))"
    using assms(2) by auto
  have lt: "\<forall>a \<in> insert (next_arc w) (set (concat (map arc_ids (pre @ c # post)))). a < Suc (next_arc w)"
    using assms(1) unfolding owned_def by (simp only: ball_simps) (blast intro: less_SucI)
  have keys: "fst ` set (arcs (snd (arc_new t w))) = insert (next_arc w) (set (concat (map arc_ids (pre @ c # post))))"
    using assms(1) unfolding owned_def by (simp add: arc_new_def)
  have bound: "next_arc (snd (arc_new t w)) = Suc (next_arc w)" by (simp add: arc_new_def)
  show ?thesis
    unfolding owned_def ids keys bound by (intro conjI refl dist lt up')
qed

lemma mesh_alloc:
  assumes "mesh (pre @ c # post) q" "arc_ids c' = arc_ids c @ [a]" "c_id c' = c_id c" "c_tracks_out c' = c_tracks_out c"
  shows "mesh (pre @ c' # post) (q @ [TrackOpen (c_id c) a])"
  unfolding mesh_def
proof (intro ballI impI)
  fix d e b assume d: "d \<in> set (pre @ c' # post)" "e \<in> set (pre @ c' # post)" "c_id d \<noteq> c_id e" "b \<in> set (arc_ids e)"
  define orig where "orig x = (if x = c' then c else x)" for x
  have *: "orig x \<in> set (pre @ c # post)" "c_id (orig x) = c_id x" "c_tracks_out (orig x) = c_tracks_out x"
    if "x \<in> set (pre @ c' # post)" for x
    using that assms(3,4) by (auto simp: orig_def)
  have "b \<in> set (arc_ids (orig e)) \<or> (b = a \<and> c_id e = c_id c)"
    using d(4) assms(2,3) by (auto simp: orig_def)
  then show "b \<in> to_track_in ` set (c_tracks_out d) \<or> TrackOpen (c_id e) b \<in> set (q @ [TrackOpen (c_id c) a])"
  proof
    assume "b \<in> set (arc_ids (orig e))"
    then show ?thesis
      using assms(1) d(3) * [OF d(1)] * [OF d(2)] unfolding mesh_def by (metis Un_iff set_append)
  qed simp
qed

lemma room_ok_poll:
  assumes "detector_contract E peers" "room_ok peers (pre @ c # post) reg w"
    "polls c w (c', p, w')" "absorbs E c' p reg w' reg' w''"
  shows "room_ok peers (pre @ c' # post) reg' w''"
proof -
  have c': "fixed c' = fixed c" using assms(3) by (simp add: polls_def)
  then have ok: "list_all client_ok (pre @ c' # post)"
    using assms(2) fixed_client_ok by (auto simp: room_ok_def)
  have reg: "registered (pre @ c' # post) = registered (pre @ c # post)"
    using c' by (simp add: fixed_eq_iff)
  have "is_relay c' = is_relay c" using c' by (simp add: fixed_eq_iff is_relay_def)
  then have "\<not> is_relay c' \<Longrightarrow> c_id c' \<in> registered (pre @ c # post)"
    using assms(2) c' by (simp add: room_ok_def ids_ok_def fixed_eq_iff)
  then have det: "peers (r_detector reg') = peers (r_detector reg)"
    using assms(1,2,4) unfolding absorbs_def levels_def detector_contract_def room_ok_def
    by (auto simp: insert_absorb)
  show ?thesis
  proof (cases "is_track_open p")
    case False
    then have "arc_ids c' = arc_ids c" "quiet w w''"
      using assms(3,4) by (auto simp: polls_def absorbs_def intro: quiet_trans)
    moreover have "map ident (pre @ c' # post) = map ident (pre @ c # post)"
      using fixed_ident [OF c' \<open>arc_ids c' = arc_ids c\<close>] by simp
    ultimately show ?thesis
      using ok det assms(4) by (intro room_ok_cong [OF assms(2)]) (simp_all add: absorbs_def)
  next
    case True
    then obtain t where t: "ti_origin t = c_id c" "w' = snd (arc_new t w)" "p = TrackOpen (c_id c) (next_arc w)"
        "arc_ids c' = arc_ids c @ [next_arc w]"
      using assms(3) by (auto simp: polls_def allocates_def)
    have q: "quiet w' w''" "r_metrics reg' = r_metrics reg"
        "r_to_propagate reg' = r_to_propagate reg @ [TrackOpen (c_id c) (next_arc w)]"
      using assms(4) t(3) by (auto simp: absorbs_def)
    have "owned w' (pre @ c' # post)"
      using assms(2) t c' by (auto simp: room_ok_def fixed_eq_iff intro: owned_alloc)
    then have own: "owned w'' (pre @ c' # post)" using q(1) owned_cong by blast
    have mesh: "mesh (pre @ c' # post) (r_to_propagate reg')"
      unfolding q(3) using assms(2) t c' by (intro mesh_alloc [of pre c]) (auto simp: room_ok_def fixed_eq_iff)
    have "ids_ok w' (pre @ c' # post)"
      using assms(2) c' \<open>is_relay c' = is_relay c\<close> t(2)
      by (auto simp: room_ok_def ids_ok_def fixed_eq_iff arc_new_def)
    then have ids: "ids_ok w'' (pre @ c' # post)" using q(1) ids_ok_cong by blast
    have "participants m w' = participants m w" for m
      by (simp add: t(2) arc_new_def participants_def)
    then have "participants m w'' = participants m w" for m
      using q(1) by (simp add: quiet_def)
    with ok own mesh ids det reg q(2) assms(2) show ?thesis by (simp add: room_ok_def)
  qed
qed

lemma poll_clients_room_ok:
  assumes "detector_contract E peers"
    and "poll_clients E fuel now cs (reg, dl, tm, w) = Some (cs', reg', dl', tm', w')"
    and "room_ok peers (pre @ cs) reg w"
  shows "room_ok peers (pre @ cs') reg' w' \<and> dl' \<le> dl"
  using assms(2,3)
proof (induction cs arbitrary: pre reg dl tm w cs')
  case (Cons c cs)
  then obtain c1 reg1 dl1 tm1 w1 cs1 where
    1: "poll_client E fuel now c (reg, dl, tm, w) = Some (c1, reg1, dl1, tm1, w1)"
    and 2: "poll_clients E fuel now cs (reg1, dl1, tm1, w1) = Some (cs1, reg', dl', tm', w')"
    and [simp]: "cs' = c1 # cs1"
    by (auto split: option.splits)
  have "room_ok peers (pre @ c1 # cs) reg1 w1 \<and> dl1 \<le> dl"
    using 1 Cons.prems(2) room_ok_poll [OF assms(1)]
    by (intro poll_client_rule [where P = "\<lambda>c reg w. room_ok peers (pre @ c # cs) reg w"]) auto
  with Cons.IH [OF 2, of "pre @ [c1]"] show ?case by auto
qed simp

section \<open>The pacer\<close>

text \<open>The change of the suspended flag that an action asks for.\<close>

fun suspend_effect :: "PacerAction \<Rightarrow> bool option" where
  "suspend_effect SuspendVideo = Some True"
| "suspend_effect RestoreAudio = Some False"
| "suspend_effect _ = None"

lemma snd_apply_pacer_action: "snd (apply_pacer_action a i) = suspend_effect a"
  by (cases a) auto

lemma update_suspended:
  assumes "pacer_inv p" "update p b = Some (p', a)"
  shows "suspended p' = (case suspend_effect a of Some s \<Rightarrow> s | None \<Rightarrow> suspended p)"
proof (cases "suspended p \<or> b < suspend_video_bps (config p) \<or> audio_only p \<or> b < audio_only_bps (config p)")
  case True
  with assms show ?thesis by (auto simp: update_def Let_def split: if_splits)
next
  case False
  with assms show ?thesis by (auto simp: update_video pacer_inv_def Let_def split: if_splits)
qed

lemma drive_pacer_ok:
  assumes "client_ok c"
  obtains c' a where "drive_pacer c b = Some (c', a)" "ident c' = ident c" "pacer_inv (c_pacer c')"
    "suspended (c_pacer c') = (case suspend_effect a of Some s \<Rightarrow> s | None \<Rightarrow> c_suspended c)"
    "c_suspended c' = c_suspended c" "c_tracks_out c' = c_tracks_out c" "c_id c' = c_id c"
    "c_last_pacer_drive c' = c_last_pacer_drive c"
proof -
  from assms obtain p a where u: "update (c_pacer c) b = Some (p, a)" "pacer_inv p"
    using update_inv [of "c_pacer c" b] unfolding client_ok_def by blast
  define c' where "c' = (case a of ChangeLayer rid \<Rightarrow> set_desired_layer (c\<lparr>c_pacer := p\<rparr>) rid | _ \<Rightarrow> c\<lparr>c_pacer := p\<rparr>)"
  have "ident c' = ident c" "c_pacer c' = p" "c_suspended c' = c_suspended c" "c_tracks_out c' = c_tracks_out c"
    "c_id c' = c_id c" "c_last_pacer_drive c' = c_last_pacer_drive c"
    by (auto simp: c'_def ident_def set_desired_layer_def arc_ids_def is_relay_def split: PacerAction.split)
  moreover have "suspended p = (case suspend_effect a of Some s \<Rightarrow> s | None \<Rightarrow> c_suspended c)"
    using update_suspended [OF _ u(1)] assms by (simp add: client_ok_def split: option.split)
  moreover have "drive_pacer c b = Some (c', a)" by (simp add: drive_pacer_def u(1) c'_def Let_def)
  ultimately show ?thesis using that u(2) by blast
qed

lemma pacer_tick_ready_frame:
  "pacer_tick_ready c now gap = (c', b) \<Longrightarrow> ident c' = ident c \<and> client_ok c' = client_ok c \<and> c_id c' = c_id c
     \<and> c_suspended c' = c_suspended c"
  by (auto simp: pacer_tick_ready_def ident_def client_ok_def arc_ids_def is_relay_def Let_def split: if_splits)

text \<open>One round never panics, keeps the client well-formed and queues no track announcement.\<close>

lemma pacer_round_ok:
  fixes c :: "'r Client"
  assumes "client_ok c"
  shows "\<exists>c' evs w'. pacer_round bw m origin now c w = Some (c', evs :: ('p, 't) Propagated list, w')
    \<and> client_ok c' \<and> ident c' = ident c \<and> quiet w w'"
proof (cases "c_id c = origin \<or> estimate_with_term bw (c_id c) now = None")
  case True
  with assms show ?thesis by (auto simp: pacer_round_def)
next
  case False
  then obtain budget bterm where est: "estimate_with_term bw (c_id c) now = Some (budget, bterm)" by auto
  obtain c1 ready where r: "pacer_tick_ready c now PACER_MIN_TICK_INTERVAL = (c1, ready)" by fastforce
  note c1 = pacer_tick_ready_frame [OF r]
  show ?thesis
  proof (cases ready)
    case False
    with \<open>\<not> (c_id c = origin \<or> _)\<close> est r c1 assms show ?thesis
      by (auto simp: pacer_round_def intro!: quiet_intros)
  next
    case True
    obtain c2 a where d: "drive_pacer c1 budget = Some (c2, a)" "ident c2 = ident c1" "pacer_inv (c_pacer c2)"
      "suspended (c_pacer c2) = (case suspend_effect a of Some s \<Rightarrow> s | None \<Rightarrow> c_suspended c1)"
      "c_suspended c2 = c_suspended c1" "c_tracks_out c2 = c_tracks_out c1" "c_id c2 = c_id c1"
      using drive_pacer_ok c1 assms by metis
    obtain ev suspend where ap: "(apply_pacer_action a (c_id c1) :: ('p, 't) Propagated option \<times> bool option) = (ev, suspend)"
      by fastforce
    have eff: "suspend = suspend_effect a"
      using snd_apply_pacer_action [of a "c_id c1"] ap by (metis snd_conv)
    have "client_ok (case suspend of Some s \<Rightarrow> set_suspended c2 s | None \<Rightarrow> c2)"
      using d eff c1 assms by (auto simp: client_ok_def set_suspended_def split: option.splits)
    moreover have "ident (case suspend of Some s \<Rightarrow> set_suspended c2 s | None \<Rightarrow> c2) = ident c"
      using d(2) c1 by (auto simp: ident_def set_suspended_def arc_ids_def is_relay_def split: option.splits)
    ultimately show ?thesis
      using \<open>\<not> (c_id c = origin \<or> _)\<close> est r True d(1,7) ap
      by (auto simp: pacer_round_def Let_def intro!: quiet_intros split: option.splits)
  qed
qed

lemma pacer_rounds_ok:
  fixes cs :: "'r Client list"
  assumes "list_all client_ok cs"
  shows "\<exists>cs' evs w'. pacer_rounds bw m origin now cs w = Some (cs', evs :: ('p, 't) Propagated list, w')
    \<and> list_all client_ok cs' \<and> map ident cs' = map ident cs \<and> quiet w w'"
  using assms
proof (induction cs arbitrary: w)
  case (Cons c cs)
  then obtain c' evs w' where 1: "pacer_round bw m origin now c w = Some (c', evs :: ('p, 't) Propagated list, w')"
    "client_ok c'" "ident c' = ident c" "quiet w w'"
    using pacer_round_ok by fastforce
  with Cons.IH [of w'] Cons.prems show ?case by (fastforce intro: quiet_trans)
qed simp

lemma update_pacer_layers_ok:
  fixes reg :: "('r, 'd, 'p, 't) Registry"
  assumes "room_ok peers (r_clients reg) reg w"
  shows "\<exists>reg' w'. update_pacer_layers origin now reg w = Some (reg', w')
    \<and> room_ok peers (r_clients reg') reg' w'"
proof -
  obtain cs w' and evs :: "('p, 't) Propagated list" where
    1: "pacer_rounds (r_bandwidth reg) (r_metrics reg) origin now (r_clients reg) w = Some (cs, evs, w')"
    "list_all client_ok cs" "map ident cs = map ident (r_clients reg)" "quiet w w'"
    using pacer_rounds_ok assms unfolding room_ok_def by blast
  have "room_ok peers cs (reg\<lparr>r_clients := cs, r_to_propagate := r_to_propagate reg @ evs\<rparr>) w'"
    using 1 by (intro room_ok_cong [OF assms]) auto
  with 1(1) show ?thesis by (simp add: update_pacer_layers_def)
qed

section \<open>Fan-out\<close>

lemma for_clients_frame:
  assumes "for_clients f cs w = (cs', w')"
    and "\<And>c w c' w'. f c w = (c', w') \<Longrightarrow> fixed c' = fixed c \<and> arc_ids c' = arc_ids c \<and> quiet w w'"
  shows "map fixed cs' = map fixed cs \<and> map arc_ids cs' = map arc_ids cs \<and> quiet w w'"
  using assms(1)
proof (induction cs arbitrary: w cs' w')
  case (Cons c cs)
  then show ?case
    using assms(2) by (fastforce split: prod.splits intro: quiet_trans)
qed simp

lemma fixed_frame:
  fixes cs cs' :: "'r Client list"
  assumes "map fixed cs' = map fixed cs" "map arc_ids cs' = map arc_ids cs"
  shows "map ident cs' = map ident cs" "list_all client_ok cs' = list_all client_ok cs"
  using assms
proof (induction cs' cs rule: list_induct2')
  case (4 x xs y ys)
  { case 1 with 4 show ?case by (auto dest: fixed_ident) }
  { case 2 with 4 show ?case by (auto dest: fixed_client_ok) }
qed auto

lemma fanout_client_frame:
  assumes "fanout_client E p origin c w = (c', w')" "\<not> is_track_open p"
  shows "fixed c' = fixed c \<and> arc_ids c' = arc_ids c \<and> quiet w w'"
proof -
  have "fixed c' = fixed c \<and> arc_ids c' = arc_ids c \<and> quiet w w'" if "handle_media_data_out E origin d c w = (c', w')" for d
    using forward_frame [OF that] by (simp add: arc_ids_def)
  with assms show ?thesis
    by (cases p) (auto simp: fanout_client_def split: if_splits)
qed

lemma fanout_frame:
  assumes "fanout E p cs w = (cs', w')" "\<not> is_track_open p"
  shows "map fixed cs' = map fixed cs \<and> map arc_ids cs' = map arc_ids cs \<and> quiet w w'"
proof (cases "\<exists>i x. p = ActiveSpeakerChanged i x")
  case True
  have "fixed (handle_active_speaker_changed c i) = fixed c" "arc_ids (handle_active_speaker_changed c i) = arc_ids c" for c :: "'a Client" and i
    by (simp_all add: handle_active_speaker_changed_def fixed_eq_iff arc_ids_def)
  with True assms(1) show ?thesis by (auto simp: fanout_def)
next
  case False
  then have "fanout E p cs w = (case propagated_client_id p of None \<Rightarrow> (cs, w)
      | Some origin \<Rightarrow> for_clients (fanout_client E p origin) cs w)"
    by (cases p) (auto simp: fanout_def)
  moreover have "map fixed cs' = map fixed cs \<and> map arc_ids cs' = map arc_ids cs \<and> quiet w w'"
    if "for_clients (fanout_client E p i) cs w = (cs', w')" for i
    by (rule for_clients_frame [OF that]) (rule fanout_client_frame [OF _ assms(2)])
  ultimately show ?thesis
    using assms(1) by (cases "propagated_client_id p") auto
qed

lemma fanout_track_open:
  "fanout E (TrackOpen i a) cs w = (map (\<lambda>c. if c_id c = i then c else handle_track_open c a) cs, w)"
proof -
  have "for_clients (\<lambda>c w. (g c, w)) cs w = (map g cs, w)" for g :: "'a Client \<Rightarrow> 'a Client"
    by (induction cs) auto
  moreover have "fanout_client E (TrackOpen i a) i = (\<lambda>c w. (if c_id c = i then c else handle_track_open c a, w))"
    by (simp add: fanout_client_def fun_eq_iff)
  ultimately show ?thesis by (simp add: fanout_def)
qed

lemma handle_track_open_simps [simp]:
  "c_id (handle_track_open c a) = c_id c" "arc_ids (handle_track_open c a) = arc_ids c"
  "is_relay (handle_track_open c a) = is_relay c"
  "c_in_speaker_detector (handle_track_open c a) = c_in_speaker_detector c"
  "client_ok (handle_track_open c a) = client_ok c"
  "c_tracks_out (handle_track_open c a) = c_tracks_out c @ [\<lparr>to_track_in = a, to_state = ToOpen\<rparr>]"
  by (auto simp: handle_track_open_def arc_ids_def is_relay_def client_ok_def)

lemma room_ok_track_open:
  fixes cs :: "'r Client list" and reg :: "('r, 'd, 'p, 't) Registry"
  assumes "room_ok peers cs reg w" "r_to_propagate reg = TrackOpen i a # ps"
  shows "room_ok peers (map (\<lambda>c. if c_id c = i then c else handle_track_open c a) cs) (reg\<lparr>r_to_propagate := ps\<rparr>) w"
proof -
  define g where "g c = (if c_id c = i then c else handle_track_open c a)" for c :: "'r Client"
  have g: "c_id (g c) = c_id c" "arc_ids (g c) = arc_ids c" "is_relay (g c) = is_relay c"
    "c_in_speaker_detector (g c) = c_in_speaker_detector c" "client_ok (g c) = client_ok c"
    "to_track_in ` set (c_tracks_out c) \<subseteq> to_track_in ` set (c_tracks_out (g c))"
    "c_id c \<noteq> i \<Longrightarrow> a \<in> to_track_in ` set (c_tracks_out (g c))" for c
    by (auto simp: g_def)
  have maps: "map c_id (map g cs) = map c_id cs" "map arc_ids (map g cs) = map arc_ids cs"
    by (simp_all add: g)
  have "mesh (map g cs) ps"
    unfolding mesh_def
  proof (intro ballI impI)
    fix c c' b assume "c \<in> set (map g cs)" "c' \<in> set (map g cs)" "c_id c \<noteq> c_id c'" "b \<in> set (arc_ids c')"
    then obtain d d' where d: "c = g d" "c' = g d'" "d \<in> set cs" "d' \<in> set cs" "c_id d \<noteq> c_id d'" "b \<in> set (arc_ids d')"
      by (auto simp: g)
    then consider "b \<in> to_track_in ` set (c_tracks_out d)" | "c_id d' = i" "b = a" | "TrackOpen (c_id d') b \<in> set ps"
      using assms unfolding room_ok_def mesh_def by fastforce
    then show "b \<in> to_track_in ` set (c_tracks_out c) \<or> TrackOpen (c_id c') b \<in> set ps"
      using d(1,2,5) g(1) [of d'] g(6,7) [of d] by cases auto
  qed
  moreover have "owned w (map g cs)"
    using assms(1) unfolding room_ok_def owned_def maps by (auto simp: g)
  moreover have "ids_ok w (map g cs)"
    using assms(1) unfolding room_ok_def ids_ok_def maps by (auto simp: g)
  moreover have "registered (map g cs) = registered cs"
    by (induction cs) (simp_all add: g)
  ultimately show ?thesis
    using assms(1) unfolding g_def [symmetric]
    by (auto simp: room_ok_def list_all_iff g)
qed

lemma fanout_one_ok:
  assumes "room_ok peers (r_clients reg) reg w" "r_to_propagate reg = p # ps"
  shows "\<exists>reg' w'. fanout_one E now p (reg\<lparr>r_to_propagate := ps\<rparr>) w = Some (reg', w')
    \<and> room_ok peers (r_clients reg') reg' w'"
proof (cases "is_track_open p")
  case True
  then obtain i a where p: "p = TrackOpen i a" by (cases p) auto
  with room_ok_track_open [OF assms(1)] assms(2) show ?thesis
    by (auto simp: fanout_one_def fanout_track_open room_ok_def)
next
  case False
  let ?reg = "reg\<lparr>r_to_propagate := ps\<rparr>"
  have popped: "room_ok peers (r_clients ?reg) ?reg w"
    using assms False by (intro room_ok_cong [OF assms(1)]) (auto simp: room_ok_def)
  have deliver: "room_ok peers cs' (reg'\<lparr>r_clients := cs'\<rparr>) w''"
    if "room_ok peers (r_clients reg') reg' w'" "fanout E p (r_clients reg') w' = (cs', w'')" for reg' w' cs' w''
  proof -
    note f = fanout_frame [OF that(2) False]
    show ?thesis
      using f fixed_frame [of cs' "r_clients reg'"] that(1)
      by (intro room_ok_cong [OF that(1)]) (auto simp: room_ok_def)
  qed
  show ?thesis
  proof (cases p)
    case (MediaDataEv origin d)
    obtain reg' w' where "update_pacer_layers origin now ?reg w = Some (reg', w')" "room_ok peers (r_clients reg') reg' w'"
      using update_pacer_layers_ok [OF popped] by blast
    with MediaDataEv deliver show ?thesis by (auto simp: fanout_one_def split: prod.splits)
  next
    case (ClientBudgetHint i b)
    with popped show ?thesis by (auto simp: fanout_one_def room_ok_def)
  qed (use deliver [OF popped] in \<open>auto simp: fanout_one_def split: prod.splits\<close>)
qed

lemma fanout_loop_ok:
  assumes "room_ok peers (r_clients reg) reg w"
  shows "\<exists>reg' w'. fanout_loop E now reg w = Some (reg', w')
    \<and> room_ok peers (r_clients reg') reg' w' \<and> r_to_propagate reg' = []"
  using assms
proof (induction E now reg w rule: fanout_loop.induct)
  case (1 E now reg w)
  show ?case
  proof (cases "r_to_propagate reg")
    case Nil
    with 1 show ?thesis by (simp add: fanout_loop.simps)
  next
    case (Cons p ps)
    then obtain reg' w' where "fanout_one E now p (reg\<lparr>r_to_propagate := ps\<rparr>) w = Some (reg', w')"
      "room_ok peers (r_clients reg') reg' w'"
      using fanout_one_ok 1 by blast
    with 1 Cons show ?thesis by (simp add: fanout_loop.simps [of E now reg])
  qed
qed

section \<open>Joining\<close>

text \<open>The builder methods a host may call between \<^verbatim>\<open>Client::new\<close> and \<^verbatim>\<open>Registry::insert\<close>.\<close>

inductive configured :: "'r Client \<Rightarrow> 'r Client \<Rightarrow> bool" for c :: "'r Client" where
  built: "configured c c"
| origin: "configured c d \<Longrightarrow> configured c (set_origin d origin)"
| layer: "configured c d \<Longrightarrow> configured c (set_desired_layer d rid)"
| temporal: "configured c d \<Longrightarrow> configured c (set_max_temporal_layer d n)"
| vfm_temporal: "configured c d \<Longrightarrow> configured c (set_max_vfm_temporal_layer d n)"
| extra_dc: "configured c d \<Longrightarrow> with_extra_dc debug d label i cfg = Some d' \<Longrightarrow> configured c d'"

lemma configured_frame:
  "configured c d \<Longrightarrow> c_id d = c_id c \<and> c_pacer d = c_pacer c \<and> c_suspended d = c_suspended c
     \<and> c_tracks_in d = c_tracks_in c \<and> c_tracks_out d = c_tracks_out c"
  by (induction rule: configured.induct)
     (auto simp: set_origin_def set_desired_layer_def set_max_temporal_layer_def
        set_max_vfm_temporal_layer_def with_extra_dc_def split: if_splits)

lemma Client_new_fresh:
  assumes "Client_new rtc m w = Some (c, w')"
  shows "c_id c = id_counter w" "c_pacer c = default_pacer" "\<not> c_suspended c" "c_tracks_in c = []"
    "c_tracks_out c = []" "w' = emit m (peer_drop_counter (id_counter w)) (w\<lparr>id_counter := id_counter w + 1\<rparr>)"
  using assms by (auto simp: Client_new_def SubscriberPacer_new_def with_config_def try_with_config_default
      next_client_id_def Let_def)

lemma participants_simps [simp]:
  "participants m (w\<lparr>arcs := as\<rparr>) = participants m w" "participants m (w\<lparr>id_counter := n\<rparr>) = participants m w"
  by (simp_all add: participants_def)

lemma foldl_track_open:
  "foldl (\<lambda>c e. handle_track_open c (te_id e)) c es
     = c\<lparr>c_tracks_out := c_tracks_out c @ map (\<lambda>e. \<lparr>to_track_in = te_id e, to_state = ToOpen\<rparr>) es\<rparr>"
  by (induction es arbitrary: c) (simp_all add: handle_track_open_def)

lemma default_pacer_running: "\<not> suspended default_pacer"
  by (simp add: default_pacer_def)

lemma insert_client_ok:
  fixes reg :: "('r, 'd, 'p, 't) Registry"
  assumes "detector_contract E peers" "room_ok peers (r_clients reg) reg w"
    and new: "Client_new rtc m w = Some (c, w1)" "configured c d" "id_counter w \<noteq> - 1"
    and ins: "insert_client E reg d w1 = (reg', w')"
  shows "room_ok peers (r_clients reg') reg' w'"
proof -
  let ?cs = "r_clients reg"
  note d = configured_frame [OF new(2)] Client_new_fresh [OF new(1)]
  obtain n where n: "r_clients reg' = ?cs @ [n]" "c_id n = id_counter w" "arc_ids n = []"
      "to_track_in ` set (c_tracks_out n) = set (concat (map arc_ids ?cs))" "client_ok n"
      "c_in_speaker_detector n \<longleftrightarrow> \<not> is_relay n"
      "r_to_propagate reg' = r_to_propagate reg" "r_metrics reg' = r_metrics reg"
      "peers (r_detector reg') = (if is_relay n then peers (r_detector reg) else insert (c_id n) (peers (r_detector reg)))"
    using ins d assms(1) default_pacer_inv default_pacer_running
    by (auto simp: insert_client_def Let_def now_ms_def instant_now_def foldl_track_open arc_ids_def
        is_relay_def client_ok_def detector_contract_def image_UN image_image split: if_splits)
  have w': "arcs w' = arcs w" "next_arc w' = next_arc w" "id_counter w' = id_counter w + 1"
    "participants (r_metrics reg) w' = participants (r_metrics reg) w + 1"
    using ins d by (auto simp: insert_client_def Let_def now_ms_def instant_now_def participants_emit
        split: if_splits)
  have ids: "ids_ok w' (?cs @ [n])"
  proof -
    have "1 + id_counter w \<noteq> 0" using new(3) by (metis add.commute eq_neg_iff_add_eq_0)
    then have "i < id_counter w + 1" if "i \<le> id_counter w" for i
      using that by (simp add: word_less_nat_alt word_le_nat_alt add.commute [of _ 1] unatSuc)
    then show ?thesis
      using assms(2) n(2,6) by (auto simp: room_ok_def ids_ok_def w'(3) less_imp_le)
  qed
  have own: "owned w' (?cs @ [n])"
    using assms(2) n(3) by (simp add: room_ok_def owned_def w' upgrade_def)
  have mesh: "mesh (?cs @ [n]) (r_to_propagate reg')"
    using assms(2) n(3,4,7) by (auto simp: room_ok_def mesh_def)
  show ?thesis
    unfolding n(1) using assms(2) ids own mesh n w'(4) by (auto simp: room_ok_def)
qed

section \<open>Leaving\<close>

lemma upgrade_arc_drop: "upgrade (arc_drop as w) a = (if a \<in> set as then None else upgrade w a)"
proof -
  have "map_of (filter (\<lambda>(b, _). b \<notin> set as) xs) a = (if a \<in> set as then None else map_of xs a)" for xs :: "(arc \<times> TrackIn) list"
    by (induction xs) auto
  then show ?thesis by (simp add: upgrade_def arc_drop_def)
qed

lemma owned_drop:
  assumes "owned w (pre @ c # post)"
  shows "owned (arc_drop (arc_ids c) w) (pre @ post)"
proof -
  have "set (arc_ids c) \<inter> set (concat (map arc_ids (pre @ post))) = {}"
    using assms unfolding owned_def by auto
  moreover from this have "a \<notin> set (arc_ids c)" if "d \<in> set (pre @ post)" "a \<in> set (arc_ids d)" for d a
    using that by auto
  moreover have "fst ` set (arcs (arc_drop (arc_ids c) w)) = fst ` set (arcs w) - set (arc_ids c)"
    by (force simp: arc_drop_def)
  moreover have "next_arc (arc_drop (arc_ids c) w) = next_arc w" by (simp add: arc_drop_def)
  ultimately show ?thesis
    using assms unfolding owned_def upgrade_arc_drop by auto
qed

lemma reap_client_ok:
  fixes reg :: "('r, 'd, 'p, 't) Registry"
  assumes "detector_contract E peers" "room_ok peers (pre @ c # post) reg w"
    and reap: "reap_client E c (reg, w) = (reg', w')"
  shows "room_ok peers (pre @ post) reg' w'"
proof -
  have reg': "r_to_propagate reg' = r_to_propagate reg" "r_metrics reg' = r_metrics reg"
    "peers (r_detector reg') = (if c_in_speaker_detector c then peers (r_detector reg) - {c_id c} else peers (r_detector reg))"
    using reap assms(1) by (auto simp: reap_client_def Let_def detector_contract_def)
  define v where "v = emit (r_metrics reg) (reap_dead_peer (c_id c))
    (emit (r_metrics reg) dec_active_participants (emit (r_metrics reg) inc_client_disconnect w))"
  have w': "w' = arc_drop (arc_ids c) v"
    using reap by (auto simp: reap_client_def Let_def v_def arc_ids_def)
  have "owned v (pre @ c # post)"
    using assms(2) by (simp add: room_ok_def owned_def v_def upgrade_def)
  then have own: "owned w' (pre @ post)" unfolding w' by (rule owned_drop)
  have "participants (r_metrics reg) w' = participants (r_metrics reg) w - 1"
    by (simp add: w' arc_drop_def v_def participants_emit)
  moreover have "id_counter w' = id_counter w" by (simp add: w' arc_drop_def v_def)
  moreover have "c_id c \<notin> registered pre \<union> registered post"
    using assms(2) by (auto simp: room_ok_def ids_ok_def registered_def)
  moreover have "mesh (pre @ post) (r_to_propagate reg)"
    using assms(2) by (auto simp: room_ok_def mesh_def)
  ultimately show ?thesis
    using assms(2) own reg' by (auto simp: room_ok_def ids_ok_def)
qed

lemma reap_dead_ok:
  fixes reg :: "('r, 'd, 'p, 't) Registry"
  assumes "detector_contract E peers" "room_ok peers (r_clients reg) reg w" "reap_dead E reg w = (reg', w')"
  shows "room_ok peers (r_clients reg') reg' w'"
proof -
  let ?f = "\<lambda>s c. if \<not> client_is_alive E c then reap_client E c s else s"
  have "room_ok peers (pre @ filter (client_is_alive E) cs) reg' w' \<and> r_clients reg' = r_clients reg"
    if "foldl ?f (reg, w) cs = (reg', w')" "room_ok peers (pre @ cs) reg w" for pre cs reg w and reg' :: "('r, 'd, 'p, 't) Registry" and w'
    using that
  proof (induction cs arbitrary: pre reg w)
    case (Cons c cs)
    show ?case
    proof (cases "client_is_alive E c")
      case True
      with Cons.IH [of reg w "pre @ [c]"] Cons.prems show ?thesis by simp
    next
      case False
      obtain reg1 w1 where 1: "reap_client E c (reg, w) = (reg1, w1)" by fastforce
      then have "r_clients reg1 = r_clients reg" by (auto simp: reap_client_def Let_def)
      with 1 False Cons.IH [of reg1 w1 pre] Cons.prems reap_client_ok [OF assms(1) _ 1] show ?thesis by simp
    qed
  qed simp
  from this [of reg w "r_clients reg" _ _ "[]"] assms(2,3) show ?thesis
    by (auto simp: reap_dead_def room_ok_def Let_def split: prod.splits)
qed

section \<open>Reachable rooms\<close>

text \<open>
  One call of the registry's interface. A client joins after \<^verbatim>\<open>Client::new\<close> and the builder methods;
  ids come from a 64-bit counter, and the relation stops one id before that counter would wrap.
  Polling takes part when it ends, fan-out when it does not panic. The host may read the clock.
\<close>

inductive room_step ::
    "('r, 'd, 'p, 't) env \<Rightarrow> ('r, 'd, 'p, 't) Registry \<times> world \<Rightarrow> ('r, 'd, 'p, 't) Registry \<times> world \<Rightarrow> bool"
  for E :: "('r, 'd, 'p, 't) env" where
  join: "Client_new rtc m w = Some (c, w1) \<Longrightarrow> configured c d \<Longrightarrow> id_counter w \<noteq> - 1
    \<Longrightarrow> insert_client E reg d w1 = (reg', w') \<Longrightarrow> room_step E (reg, w) (reg', w')"
| incoming: "handle_incoming E reg src dst payload w = (reg', b, w') \<Longrightarrow> room_step E (reg, w) (reg', w')"
| audio: "room_step E (reg, w) (record_audio_level E reg i l now, w)"
| twcc: "room_step E (reg, w) (Registry_on_twcc_feedback reg i fb now, w)"
| googcc: "room_step E (reg, w) (Registry_enable_googcc reg i, w)"
| ceiling: "room_step E (reg, w) (googcc_ceiling_for_subscriber_mut reg i g, w)"
| poll: "poll_all E fuel now reg w = Some (reg', deadline, w') \<Longrightarrow> room_step E (reg, w) (reg', w')"
| speaker: "tick_active_speaker E now reg w = (reg', w') \<Longrightarrow> room_step E (reg, w) (reg', w')"
| scores: "room_step E (reg, w) (reg, tick_speaker_scores E reg w)"
| clock: "room_step E (reg, w) (tick E now reg, w)"
| fan: "fanout_pending E reg w = Some (reg', w') \<Longrightarrow> room_step E (reg, w) (reg', w')"
| pace: "update_pacer_layers i now reg w = Some (reg', w') \<Longrightarrow> room_step E (reg, w) (reg', w')"
| hints: "room_step E (reg, w) (emit_publisher_layer_hints E reg w, w)"
| drain: "drain_transmits reg = (reg', out) \<Longrightarrow> room_step E (reg, w) (reg', w)"
| reap: "reap_dead E reg w = (reg', w') \<Longrightarrow> room_step E (reg, w) (reg', w')"
| read_clock: "instant_now w = (now, w') \<Longrightarrow> room_step E (reg, w) (reg, w')"

definition fresh_world :: "world \<Rightarrow> bool" where
  "fresh_world w \<longleftrightarrow> arcs w = [] \<and> prom w = []"

inductive room_reachable ::
    "('r, 'd, 'p, 't) env \<Rightarrow> ('r, 'd, 'p, 't) Registry \<Rightarrow> world \<Rightarrow> bool" for E :: "('r, 'd, 'p, 't) env" where
  start: "fresh_world w \<Longrightarrow> Registry_new E m w = (reg, w') \<Longrightarrow> room_reachable E reg w'"
| step: "room_reachable E reg w \<Longrightarrow> room_step E (reg, w) (reg', w') \<Longrightarrow> room_reachable E reg' w'"

text \<open>Steps that leave the invariant's view of the room alone.\<close>

lemma room_ok_same:
  fixes reg reg' :: "('r, 'd, 'p, 't) Registry"
  assumes "room_ok peers (r_clients reg) reg w" "map fixed (r_clients reg') = map fixed (r_clients reg)"
    "map arc_ids (r_clients reg') = map arc_ids (r_clients reg)" "quiet w w'" "r_metrics reg' = r_metrics reg"
    "peers (r_detector reg') = peers (r_detector reg)"
    "set (r_to_propagate reg) \<subseteq> set (r_to_propagate reg')"
  shows "room_ok peers (r_clients reg') reg' w'"
  using assms fixed_frame [OF assms(2,3)] by (intro room_ok_cong [OF assms(1)]) (auto simp: room_ok_def)

lemma fixed_update_first:
  "(\<And>c. fixed (f c) = fixed c) \<Longrightarrow> map fixed (update_first P f cs) = map fixed cs"
  "(\<And>c. arc_ids (f c) = arc_ids c) \<Longrightarrow> map arc_ids (update_first P f cs) = map arc_ids cs"
  by (simp_all add: map_update_first)

lemma foldl_push_back:
  "foldl (\<lambda>reg h. push_back (layer_hint (r_clients reg) h) reg) reg hs
     = reg\<lparr>r_to_propagate := r_to_propagate reg @ map (layer_hint (r_clients reg)) hs\<rparr>"
  by (induction hs arbitrary: reg) (simp_all add: push_back_def)

lemma quiet_speaker_scores: "quiet w (tick_speaker_scores E reg w)"
proof -
  have "quiet v (foldl (\<lambda>w (i, x, y, z). emit m (update_peer_speaker_scores i x y z) w) v l)" for v m l
  proof (induction l arbitrary: v)
    case (Cons a l)
    obtain i x y z where a: "a = (i, x, y, z)" by (cases a)
    have "quiet v (emit m (update_peer_speaker_scores i x y z) v)" by (simp add: quiet_emit)
    with Cons show ?case unfolding a by (auto intro: quiet_trans)
  qed simp
  then show ?thesis by (simp add: tick_speaker_scores_def)
qed

lemma handle_incoming_frame:
  assumes "handle_incoming E reg src dst payload w = (reg', b, w')"
  shows "map fixed (r_clients reg') = map fixed (r_clients reg)"
    "map arc_ids (r_clients reg') = map arc_ids (r_clients reg)" "quiet w w'"
    "reg' = reg\<lparr>r_clients := r_clients reg'\<rparr>"
  using assms
  by (auto simp: handle_incoming_def instant_now_def Let_def fixed_update_first intro!: quiet_clock split: option.splits)

lemma fanout_pending_ok:
  assumes "room_ok peers (r_clients reg) reg w"
  shows "\<exists>reg' w'. fanout_pending E reg w = Some (reg', w')
    \<and> room_ok peers (r_clients reg') reg' w' \<and> r_to_propagate reg' = []"
proof -
  have "room_ok peers (r_clients reg) reg (snd (instant_now w))"
    by (rule room_ok_same [OF assms]) (auto intro: quiet_clock)
  from fanout_loop_ok [OF this] show ?thesis by (simp add: fanout_pending_def split_beta)
qed

lemma record_audio_level_ok:
  assumes "detector_contract E peers" "room_ok peers (r_clients reg) reg w"
  shows "peers (r_detector (record_audio_level E reg i l now)) = peers (r_detector reg)"
  using assms by (auto simp: record_audio_level_def detector_contract_def room_ok_def registered_def list_ex_iff)

lemma poll_all_ok:
  assumes "detector_contract E peers" "room_ok peers (r_clients reg) reg w"
    "poll_all E fuel now reg w = Some (reg', deadline, w')"
  shows "room_ok peers (r_clients reg') reg' w' \<and> deadline \<le> now + from_millis 100"
  using assms(3) poll_clients_room_ok [OF assms(1), of fuel now "r_clients reg" reg _ _ w _ _ _ _ _ "[]"] assms(2)
  by (fastforce simp: poll_all_def room_ok_def Let_def split: option.splits)

lemma room_step_ok:
  assumes "room_step E (reg, w) (reg', w')" "detector_contract E peers" "room_ok peers (r_clients reg) reg w"
  shows "room_ok peers (r_clients reg') reg' w'"
  using assms(1)
proof (cases rule: room_step.cases)
  case (join rtc m c w1 d)
  with insert_client_ok [OF assms(2,3)] show ?thesis by blast
next
  case (incoming src dst payload b)
  note f = handle_incoming_frame [OF incoming]
  show ?thesis
    by (rule room_ok_same [OF assms(3) f(1-3)]) (subst f(4), simp)+
next
  case (audio i l now)
  have "r_clients reg' = r_clients reg" "r_metrics reg' = r_metrics reg" "r_to_propagate reg' = r_to_propagate reg"
    using audio by (simp_all add: record_audio_level_def)
  with audio record_audio_level_ok [OF assms(2,3)] show ?thesis
    by (intro room_ok_same [OF assms(3)]) auto
next
  case (twcc i fb now)
  with assms(3) show ?thesis by (simp add: Registry_on_twcc_feedback_def room_ok_def)
next
  case (googcc i)
  with assms(3) show ?thesis by (simp add: Registry_enable_googcc_def room_ok_def)
next
  case (ceiling i g)
  with assms(3) show ?thesis by (simp add: googcc_ceiling_for_subscriber_mut_def room_ok_def)
next
  case (poll fuel now deadline)
  with poll_all_ok [OF assms(2,3)] show ?thesis by blast
next
  case (speaker now)
  have "peers (r_detector reg') = peers (r_detector reg)" "r_clients reg' = r_clients reg"
    "r_metrics reg' = r_metrics reg" "set (r_to_propagate reg) \<subseteq> set (r_to_propagate reg')" "quiet w w'"
    using speaker assms(2)
    by (auto simp: tick_active_speaker_def push_back_def detector_contract_def Let_def
        intro!: quiet_intros split: prod.splits option.splits) (metis fst_conv)+
  then show ?thesis by (intro room_ok_same [OF assms(3)]) auto
next
  case scores
  with quiet_speaker_scores show ?thesis by (intro room_ok_same [OF assms(3)]) auto
next
  case (clock now)
  then show ?thesis by (intro room_ok_same [OF assms(3)]) (auto simp: tick_def)
next
  case fan
  with fanout_pending_ok [OF assms(3), of E] show ?thesis by auto
next
  case (pace i now)
  with update_pacer_layers_ok [OF assms(3), of i now] show ?thesis by auto
next
  case hints
  then show ?thesis
    by (intro room_ok_same [OF assms(3)]) (auto simp: emit_publisher_layer_hints_def foldl_push_back)
next
  case (drain out)
  then show ?thesis
    by (intro room_ok_same [OF assms(3)]) (auto simp: drain_transmits_def Let_def)
next
  case reap
  with reap_dead_ok [OF assms(2,3)] show ?thesis by blast
next
  case (read_clock now)
  then show ?thesis by (intro room_ok_same [OF assms(3)]) (auto simp: instant_now_def intro: quiet_clock)
qed

lemma room_reachable_ok:
  assumes "room_reachable E reg w" "detector_contract E peers"
  shows "room_ok peers (r_clients reg) reg w"
  using assms(1)
proof (induction rule: room_reachable.induct)
  case (start w m reg w')
  with assms(2) show ?case
    by (auto simp: Registry_new_def fresh_world_def room_ok_def ids_ok_def owned_def mesh_def
        detector_contract_def instant_now_def participants_def)
next
  case (step reg w reg' w')
  with room_step_ok assms(2) show ?case by blast
qed

end
