(* ===== verification/Scripted.thy ===== *)
theory Scripted
  imports Room
begin

text \<open>
  A concrete instance of the parameters of the model, on which the properties of rooms are
  exercised: a str0m session that plays a script of outputs up to a time-out, and asks to be woken at a fixed
  instant when the script is over, a speaker detector that only keeps its set of peers, and a clock that advances by
  one millisecond per reading.
\<close>

type_synonym script = "bool \<times> (unit, unit) rtc_output list"

fun script_poll :: "script \<Rightarrow> script \<times> (unit, unit) rtc_output option" where
  "script_poll (alive, []) = ((alive, []), Some (OutTimeout (from_secs 60)))"
| "script_poll (alive, OutTimeout t # outs) = ((alive, OutTimeout t # outs), Some (OutTimeout t))"
| "script_poll (alive, out # outs) = ((alive, outs), Some out)"

text \<open>When the session asks to be woken: at a scripted time-out, which stays, or after a minute.\<close>

fun script_wake :: "script \<Rightarrow> instant" where
  "script_wake (alive, OutTimeout t # outs) = t"
| "script_wake (alive, _) = from_secs 60"

definition script_env :: "(script, u64 list, unit, unit) env" where
  "script_env =
     \<lparr>rtc_is_alive = fst,
      rtc_disconnect = (\<lambda>(_, outs). (False, outs)),
      rtc_handle_input = (\<lambda>r _. (r, True)),
      rtc_accepts = (\<lambda>_ _. True),
      rtc_poll_output = script_poll,
      rtc_writer = (\<lambda>_ _. True),
      writer_match_params = (\<lambda>_ _ _. Some (Pt 96)),
      writer_write = (\<lambda>r _ _ _ _ _ _. (r, True)),
      writer_request_keyframe = (\<lambda>r _ _ _. (r, True)),
      datagram_parses = (\<lambda>_. True),
      codec_is_video = (\<lambda>_. True),
      media_time_as_seconds = (\<lambda>_. Fin 0),
      det_new = [],
      det_add_peer = (\<lambda>d i _. List.insert i d),
      det_remove_peer = (\<lambda>d i. removeAll i d),
      det_record_level = (\<lambda>d i _ _. List.insert i d),
      det_tick = (\<lambda>d _. (d, None)),
      det_peer_scores = map (\<lambda>i. (i, Fin 0, Fin 0, Fin 0)),
      rid_hash_order = id,
      id_hash_order = id\<rparr>"

lemma script_contract: "detector_contract script_env set"
  by (simp add: detector_contract_def script_env_def)

definition script_world :: world where
  "script_world = \<lparr>arcs = [], next_arc = 0, prom = [], clock = from_millis, clock_reads = 0, id_counter = 0\<rparr>"

lemma script_world_fresh: "fresh_world script_world"
  by (simp add: fresh_world_def script_world_def)

text \<open>Building a client and joining, with the publisher's script adding one video track.\<close>

definition the_client :: "script \<Rightarrow> world \<Rightarrow> script Client \<times> world" where
  "the_client rtc w = the (Client_new rtc 0 w)"

definition join_room ::
    "script \<Rightarrow> (script, u64 list, unit, unit) Registry \<times> world \<Rightarrow> (script, u64 list, unit, unit) Registry \<times> world" where
  "join_room rtc s = (let (c, w) = the_client rtc (snd s) in insert_client script_env (fst s) c w)"

definition empty_room :: "(script, u64 list, unit, unit) Registry \<times> world" where
  "empty_room = Registry_new script_env 0 script_world"

definition publisher :: script where
  "publisher = (True, [OutEvent (MediaAdded (Mid [1]) Video)])"

definition subscriber :: script where
  "subscriber = (True, [])"

definition demo_room :: "(script, u64 list, unit, unit) Registry \<times> world" where
  "demo_room = join_room subscriber (join_room publisher empty_room)"

lemma the_client_eq: "Client_new rtc 0 w = Some (the_client rtc w)"
  using Client_new_total [of rtc 0 w] by (auto simp: the_client_def)

lemma empty_room_reachable: "room_reachable script_env (fst empty_room) (snd empty_room)"
  by (rule room_reachable.start [OF script_world_fresh]) (simp add: empty_room_def)

lemma join_room_step:
  assumes "id_counter (snd s) \<noteq> - 1"
  shows "room_step script_env (fst s, snd s) (fst (join_room rtc s), snd (join_room rtc s))"
proof -
  obtain c w where c: "the_client rtc (snd s) = (c, w)" by fastforce
  show ?thesis
    using the_client_eq [of rtc "snd s"] assms
    by (intro room_step.join [where c = c and ?w1.0 = w and d = c]) (auto simp: c join_room_def intro: configured.built)
qed

lemma join_room_reachable:
  assumes "room_reachable script_env (fst s) (snd s)" "id_counter (snd s) \<noteq> - 1"
  shows "room_reachable script_env (fst (join_room rtc s)) (snd (join_room rtc s))"
  using assms(1) join_room_step [OF assms(2)] by (rule room_reachable.step)

lemma join_room_world: "id_counter (snd (join_room rtc s)) = id_counter (snd s) + 1"
  by (simp add: join_room_def the_client_def Client_new_def SubscriberPacer_new_def with_config_def
      try_with_config_default next_client_id_def insert_client_def now_ms_def Let_def split_beta)

lemma join_room_clients: "length (r_clients (fst (join_room rtc s))) = Suc (length (r_clients (fst s)))"
  by (simp add: join_room_def insert_client_def now_ms_def Let_def split_beta)

lemma empty_room_world: "id_counter (snd empty_room) = 0" "r_clients (fst empty_room) = []"
  by (simp_all add: empty_room_def Registry_new_def script_world_def split_beta)

lemma demo_room_reachable: "room_reachable script_env (fst demo_room) (snd demo_room)"
  unfolding demo_room_def
  by (intro join_room_reachable empty_room_reachable) (simp_all add: join_room_world empty_room_world)

lemma demo_room_counter: "id_counter (snd demo_room) = 2"
  by (simp add: demo_room_def join_room_world empty_room_world)

lemma demo_room_clients: "length (r_clients (fst demo_room)) = 2"
  by (simp add: demo_room_def join_room_clients empty_room_world)

end
