(* ===== verification/Metrics_Text.thy ===== *)
theory Metrics_Text
  imports Metrics
begin

text \<open>
  Starting and scraping the metrics (\<^verbatim>\<open>metrics/prom.rs\<close>): the infallible constructors, and the text
  exposition with its two ways to fail. Prometheus' encoder is a parameter, \<^verbatim>\<open>String::from_utf8\<close> is not.
\<close>

text \<open>\<^verbatim>\<open>new_default\<close> and \<^verbatim>\<open>default\<close>: \<open>None\<close> is the panic of \<^verbatim>\<open>expect\<close>.\<close>

definition SfuMetrics_new_default ::
    "'g option \<Rightarrow> (metric_opts \<Rightarrow> bool) \<Rightarrow> ('g \<Rightarrow> metric_opts \<Rightarrow> 'g option) \<Rightarrow> 'g option" where
  "SfuMetrics_new_default new_custom create register =
     (case SfuMetrics_new new_custom create register of Inl _ \<Rightarrow> None | Inr g \<Rightarrow> Some g)"

text \<open>\<^verbatim>\<open>String::from_utf8\<close>: the well-formed byte sequences of the Unicode standard.\<close>

definition in_range :: "nat \<Rightarrow> nat \<Rightarrow> u8 \<Rightarrow> bool" where
  "in_range lo hi b \<longleftrightarrow> lo \<le> unat b \<and> unat b \<le> hi"

fun utf8_valid :: "u8 list \<Rightarrow> bool" where
  "utf8_valid [] \<longleftrightarrow> True"
| "utf8_valid (a # bs) \<longleftrightarrow>
     (if in_range 0 127 a then utf8_valid bs
      else if in_range 194 223 a then
        (case bs of b # bs \<Rightarrow> in_range 128 191 b \<and> utf8_valid bs | _ \<Rightarrow> False)
      else if in_range 224 239 a then
        (case bs of
           b # c # bs \<Rightarrow> in_range (if a = 224 then 160 else 128) (if a = 237 then 159 else 191) b
                        \<and> in_range 128 191 c \<and> utf8_valid bs
         | _ \<Rightarrow> False)
      else if in_range 240 244 a then
        (case bs of
           b # c # d # bs \<Rightarrow> in_range (if a = 240 then 144 else 128) (if a = 244 then 143 else 191) b
                            \<and> in_range 128 191 c \<and> in_range 128 191 d \<and> utf8_valid bs
         | _ \<Rightarrow> False)
      else False)"

definition from_utf8 :: "u8 list \<Rightarrow> string option" where
  "from_utf8 bs = (if utf8_valid bs then Some (map (\<lambda>b. char_of (unat b)) bs) else None)"

text \<open>\<open>encode\<close> is Prometheus' text encoder on the gathered families.\<close>

definition encode_text :: "('g \<Rightarrow> 'f) \<Rightarrow> ('f \<Rightarrow> u8 list option) \<Rightarrow> 'g \<Rightarrow> string + string" where
  "encode_text gather encode registry =
     (case encode (gather registry) of
        None \<Rightarrow> Inl ''encode metrics''
      | Some buf \<Rightarrow> (case from_utf8 buf of None \<Rightarrow> Inl ''utf8'' | Some s \<Rightarrow> Inr s))"

lemma utf8_ascii: "list_all (in_range 0 127) bs \<Longrightarrow> utf8_valid bs"
  by (induction bs) auto

text \<open>
  Text that names only the registered metrics, their labels and the values the room records is ASCII, and
  ASCII text is returned byte for byte.
\<close>

lemma encode_text_ascii:
  assumes "encode (gather g) = Some buf" "list_all (in_range 0 127) buf"
  shows "encode_text gather encode g = Inr (map (\<lambda>b. char_of (unat b)) buf)"
  using assms utf8_ascii by (simp add: encode_text_def from_utf8_def)

end
