(* ===== verification/Test_Seams.thy ===== *)
theory Test_Seams
  imports Registry Metrics_Text
begin

text \<open>
  The seams of the \<^verbatim>\<open>test-utils\<close> feature: \<^verbatim>\<open>src/registry/test_seams.rs\<close> and \<^verbatim>\<open>src/client/test_seed.rs\<close>. They
  seed tracks, open outgoing tracks, drive a pacer and inject audio levels without a negotiated
  session, and are the only code that ever opens an outgoing track. An index out of range, a missing
  track and \<^verbatim>\<open>expect\<close> are panics, the value \<open>None\<close>.

  A track of a seam is named by a tag; the identifier str0m makes of the text \<^verbatim>\<open>m<tag>\<close> is
  the parameter \<open>mid_of\<close>. The codec parameters and the time stamp of a synthetic packet are
  parameters as well.
\<close>

section \<open>Seeding clients (client/test\_seed.rs)\<close>

definition mid_to_kind_for_tests :: "(u8 \<Rightarrow> Mid) \<Rightarrow> 'r Client \<Rightarrow> u8 \<Rightarrow> MediaKind option" where
  "mid_to_kind_for_tests mid_of c mid_tag = map_of (c_mid_to_kind c) (mid_of mid_tag)"

definition seed_active_rid_for_tests :: "'r Client \<Rightarrow> Rid \<Rightarrow> 'r Client" where
  "seed_active_rid_for_tests c rid = c\<lparr>c_active_rids := List.insert (SfuRid_from_str0m rid) (c_active_rids c)\<rparr>"

definition disconnect_for_tests :: "('r, 'd, 'p, 't) env \<Rightarrow> 'r Client \<Rightarrow> 'r Client" where
  "disconnect_for_tests E c = c\<lparr>c_rtc := rtc_disconnect E (c_rtc c)\<rparr>"

text \<open>\<^verbatim>\<open>new_client\<close>, on the fresh session \<open>rtc\<close> and metrics instance \<open>metrics\<close> it builds first.\<close>

definition new_client :: "'r \<Rightarrow> nat \<Rightarrow> client_id \<Rightarrow> world \<Rightarrow> ('r Client \<times> world) option" where
  "new_client rtc metrics i w = map_option (\<lambda>(c, w). (c\<lparr>c_id := i\<rparr>, w)) (Client_new rtc metrics w)"

definition seed_track_in :: "(u8 \<Rightarrow> Mid) \<Rightarrow> 'r Client \<Rightarrow> u8 \<Rightarrow> MediaKind \<Rightarrow> world \<Rightarrow> 'r Client \<times> arc \<times> world" where
  "seed_track_in mid_of c mid_tag kind w =
     (let mid = mid_of mid_tag;
          c = c\<lparr>c_mid_to_kind := AList.update mid kind (c_mid_to_kind c)\<rparr>;
          (a, w) = arc_new \<lparr>ti_origin = c_id c, ti_mid = mid, ti_kind = kind, ti_relay_source = False\<rparr> w
      in (c\<lparr>c_tracks_in := c_tracks_in c @ [\<lparr>te_id = a, last_keyframe_request = None\<rparr>]\<rparr>, a, w))"

definition seed_track_in_relay :: "(u8 \<Rightarrow> Mid) \<Rightarrow> 'r Client \<Rightarrow> u8 \<Rightarrow> MediaKind \<Rightarrow> world \<Rightarrow> 'r Client \<times> arc \<times> world" where
  "seed_track_in_relay mid_of c mid_tag kind w =
     (let mid = mid_of mid_tag;
          c = c\<lparr>c_mid_to_kind := AList.update mid kind (c_mid_to_kind c)\<rparr>;
          (a, w) = arc_new \<lparr>ti_origin = c_id c, ti_mid = mid, ti_kind = kind, ti_relay_source = True\<rparr> w
      in (c\<lparr>c_tracks_in := c_tracks_in c @ [\<lparr>te_id = a, last_keyframe_request = None\<rparr>]\<rparr>, a, w))"

definition make_media_data ::
    "(u8 \<Rightarrow> Mid) \<Rightarrow> 'p \<Rightarrow> 't \<Rightarrow> u8 \<Rightarrow> SfuRid option \<Rightarrow> world \<Rightarrow> ('p, 't) SfuMediaPayload \<times> world" where
  "make_media_data mid_of params time mid_tag rid w =
     (let (now, w) = instant_now w
      in (SfuMediaPayload_from_str0m
            \<lparr>md_mid = mid_of mid_tag, md_pt = Pt 96, md_rid = map_option SfuRid_to_str0m rid, md_params = params,
             md_time = time, md_network_time = now, md_data = [0xde, 0xad, 0xbe, 0xef],
             md_contiguous = True, md_audio_level = None, md_key_epoch = None\<rparr>, w))"

definition make_media_data_with_key_epoch ::
    "(u8 \<Rightarrow> Mid) \<Rightarrow> 'p \<Rightarrow> 't \<Rightarrow> u8 \<Rightarrow> SfuRid option \<Rightarrow> KeyEpoch \<Rightarrow> world \<Rightarrow> ('p, 't) SfuMediaPayload \<times> world" where
  "make_media_data_with_key_epoch mid_of params time mid_tag rid key_epoch w =
     (let (now, w) = instant_now w
      in (SfuMediaPayload_from_str0m
            \<lparr>md_mid = mid_of mid_tag, md_pt = Pt 96, md_rid = map_option SfuRid_to_str0m rid, md_params = params,
             md_time = time, md_network_time = now, md_data = [0xde, 0xad, 0xbe, 0xef],
             md_contiguous = True, md_audio_level = None, md_key_epoch = Some key_epoch\<rparr>, w))"

definition on_media_data_for_tests ::
    "('r, 'd, 'p, 't) env \<Rightarrow> (u8 \<Rightarrow> Mid) \<Rightarrow> 'p \<Rightarrow> 't \<Rightarrow> 'r Client \<Rightarrow> u8 \<Rightarrow> nat \<Rightarrow> world
     \<Rightarrow> 'r Client \<times> ('p, 't) Propagated \<times> world" where
  "on_media_data_for_tests E mid_of params time c mid_tag payload_bytes w =
     (let (now, w) = instant_now w
      in track_in_media E c
           \<lparr>md_mid = mid_of mid_tag, md_pt = Pt 96, md_rid = None, md_params = params,
            md_time = time, md_network_time = now, md_data = replicate payload_bytes 0,
            md_contiguous = True, md_audio_level = None, md_key_epoch = None\<rparr> w)"

text \<open>The first outgoing track whose publisher's track is live and has the given identifier.\<close>

definition mirrors_mid :: "world \<Rightarrow> Mid \<Rightarrow> TrackOut \<Rightarrow> bool" where
  "mirrors_mid w mid t = (map_option ti_mid (upgrade w (to_track_in t)) = Some mid)"

definition open_track_out_for_tests :: "world \<Rightarrow> 'r Client \<Rightarrow> TrackIn \<Rightarrow> 'r Client option" where
  "open_track_out_for_tests w subscriber track_in =
     (if list_ex (mirrors_mid w (ti_mid track_in)) (c_tracks_out subscriber)
      then Some (subscriber\<lparr>c_tracks_out := update_first (mirrors_mid w (ti_mid track_in))
                   (\<lambda>t. t\<lparr>to_state := Open (ti_mid track_in)\<rparr>) (c_tracks_out subscriber)\<rparr>)
      else None)"

section \<open>Seams of the registry (registry/test\_seams.rs)\<close>

definition fanout_for_tests ::
    "('r, 'd, 'p, 't) env \<Rightarrow> ('p, 't) Propagated \<Rightarrow> ('r, 'd, 'p, 't) Registry \<Rightarrow> world \<Rightarrow> ('r, 'd, 'p, 't) Registry \<times> world" where
  "fanout_for_tests E p reg w = (let (cs, w) = fanout E p (r_clients reg) w in (reg\<lparr>r_clients := cs\<rparr>, w))"

definition delivered_media_count :: "('r, 'd, 'p, 't) Registry \<Rightarrow> nat \<Rightarrow> u64 option" where
  "delivered_media_count reg idx =
     (if idx < length (r_clients reg) then Some (c_delivered_media (r_clients reg ! idx)) else None)"

definition delivered_active_speaker_count :: "('r, 'd, 'p, 't) Registry \<Rightarrow> nat \<Rightarrow> u64 option" where
  "delivered_active_speaker_count reg idx =
     (if idx < length (r_clients reg) then Some (c_delivered_active_speaker (r_clients reg ! idx)) else None)"

definition set_desired_layer_for_tests ::
    "('r, 'd, 'p, 't) Registry \<Rightarrow> nat \<Rightarrow> SfuRid \<Rightarrow> ('r, 'd, 'p, 't) Registry option" where
  "set_desired_layer_for_tests reg idx rid =
     (if idx < length (r_clients reg)
      then Some (reg\<lparr>r_clients := (r_clients reg)[idx := set_desired_layer (r_clients reg ! idx) rid]\<rparr>) else None)"

definition inject_audio_level_for_tests ::
    "('r, 'd, 'p, 't) env \<Rightarrow> ('r, 'd, 'p, 't) Registry \<Rightarrow> u64 \<Rightarrow> u8 \<Rightarrow> instant \<Rightarrow> ('r, 'd, 'p, 't) Registry" where
  "inject_audio_level_for_tests E reg peer_id level now =
     (if list_ex (\<lambda>c. c_id c = peer_id \<and> is_relay c) (r_clients reg) then reg
      else reg\<lparr>r_detector := det_record_level E (r_detector reg) peer_id level
                              (epoch_ms now (r_detector_epoch reg))\<rparr>)"

definition force_active_speaker_tick_for_tests ::
    "('r, 'd, 'p, 't) env \<Rightarrow> ('r, 'd, 'p, 't) Registry \<Rightarrow> instant \<Rightarrow> world
     \<Rightarrow> (('r, 'd, 'p, 't) Registry \<times> u64 option \<times> world) option" where
  "force_active_speaker_tick_for_tests E reg now w =
     (let (d, changed) = det_tick E (r_detector reg) (epoch_ms now (r_detector_epoch reg));
          reg = reg\<lparr>r_detector := d\<rparr>;
          (reg, w) = (case changed of
                        Some (peer_id, c2_margin) \<Rightarrow>
                          (push_back (ActiveSpeakerChanged peer_id c2_margin) reg,
                           emit (r_metrics reg) inc_dominant_speaker_changes w)
                      | None \<Rightarrow> (reg, w))
      in map_option (\<lambda>(reg, w). (reg, map_option fst changed, w)) (fanout_pending E reg w))"

definition disconnect_client_for_tests ::
    "('r, 'd, 'p, 't) env \<Rightarrow> ('r, 'd, 'p, 't) Registry \<Rightarrow> client_id \<Rightarrow> ('r, 'd, 'p, 't) Registry" where
  "disconnect_client_for_tests E reg i =
     reg\<lparr>r_clients := update_first (\<lambda>c. c_id c = i) (disconnect_for_tests E) (r_clients reg)\<rparr>"

definition reap_dead_for_tests ::
    "('r, 'd, 'p, 't) env \<Rightarrow> ('r, 'd, 'p, 't) Registry \<Rightarrow> world \<Rightarrow> ('r, 'd, 'p, 't) Registry \<times> world" where
  "reap_dead_for_tests E reg w = reap_dead E reg w"

definition reap_dead_peer_for_tests :: "('r, 'd, 'p, 't) Registry \<Rightarrow> client_id \<Rightarrow> world \<Rightarrow> world" where
  "reap_dead_peer_for_tests reg i w = emit (r_metrics reg) (reap_dead_peer i) w"

definition wire_track_for_tests ::
    "(u8 \<Rightarrow> Mid) \<Rightarrow> ('r, 'd, 'p, 't) Registry \<Rightarrow> nat \<Rightarrow> nat \<Rightarrow> u8 \<Rightarrow> world \<Rightarrow> ('r, 'd, 'p, 't) Registry option" where
  "wire_track_for_tests mid_of reg sub_idx pub_idx mid_tag w =
     (let mid = mid_of mid_tag; cs = r_clients reg
      in if \<not> pub_idx < length cs then None
         else case find (entry_has_mid w mid) (c_tracks_in (cs ! pub_idx)) of
                None \<Rightarrow> None
              | Some e \<Rightarrow>
                  if \<not> sub_idx < length cs then None
                  else let c = handle_track_open (cs ! sub_idx) (te_id e);
                           c = c\<lparr>c_tracks_out := update_first (mirrors_mid w mid)
                                  (\<lambda>t. t\<lparr>to_state := Open mid\<rparr>) (c_tracks_out c)\<rparr>
                       in Some (reg\<lparr>r_clients := cs[sub_idx := c]\<rparr>))"

definition drain_propagated_for_tests ::
    "('r, 'd, 'p, 't) Registry \<Rightarrow> ('r, 'd, 'p, 't) Registry \<times> ('p, 't) Propagated list" where
  "drain_propagated_for_tests reg = (reg\<lparr>r_to_propagate := []\<rparr>, r_to_propagate reg)"

text \<open>
  A mutable reference that a seam hands out is the function its borrower applies to what it refers to; the dominant
  peer is the detector's, and scraping encodes the room's Prometheus registry or panics.
\<close>

definition current_active_speaker :: "('d \<Rightarrow> u64 option) \<Rightarrow> ('r, 'd, 'p, 't) Registry \<Rightarrow> u64 option" where
  "current_active_speaker current_dominant reg = current_dominant (r_detector reg)"

definition clients_mut_for_tests ::
    "('r, 'd, 'p, 't) Registry \<Rightarrow> ('r Client list \<Rightarrow> 'r Client list) \<Rightarrow> ('r, 'd, 'p, 't) Registry" where
  "clients_mut_for_tests reg f = reg\<lparr>r_clients := f (r_clients reg)\<rparr>"

definition bandwidth_mut_for_tests ::
    "('r, 'd, 'p, 't) Registry \<Rightarrow> (BandwidthEstimator \<Rightarrow> BandwidthEstimator) \<Rightarrow> ('r, 'd, 'p, 't) Registry" where
  "bandwidth_mut_for_tests reg f = reg\<lparr>r_bandwidth := f (r_bandwidth reg)\<rparr>"

definition scrape_metrics_for_tests ::
    "('g \<Rightarrow> 'f) \<Rightarrow> ('f \<Rightarrow> u8 list option) \<Rightarrow> (nat \<Rightarrow> 'g) \<Rightarrow> ('r, 'd, 'p, 't) Registry \<Rightarrow> string option" where
  "scrape_metrics_for_tests gather encode registry_of reg =
     (case encode_text gather encode (registry_of (r_metrics reg)) of Inl _ \<Rightarrow> None | Inr s \<Rightarrow> Some s)"

text \<open>\<open>None\<close> is a panic of the pacer, which does not happen.\<close>

fun apply_action_for_tests ::
    "PacerAction \<Rightarrow> client_id \<Rightarrow> nat \<Rightarrow> 'r Client \<Rightarrow> world \<Rightarrow> 'r Client \<times> ('p, 't) Propagated list \<times> world" where
  "apply_action_for_tests GoAudioOnly peer_id m c w = (c, [AudioOnlyMode peer_id True], w)"
| "apply_action_for_tests RestoreVideo peer_id m c w = (c, [AudioOnlyMode peer_id False], w)"
| "apply_action_for_tests SuspendVideo peer_id m c w =
     (set_suspended c True, [SuspendVideoEv peer_id True], emit m (inc_suspend_video ''enter'') w)"
| "apply_action_for_tests RestoreAudio peer_id m c w =
     (set_suspended c False, [SuspendVideoEv peer_id False], emit m (inc_suspend_video ''exit'') w)"
| "apply_action_for_tests (ChangeLayer _) peer_id m c w = (c, [], w)"
| "apply_action_for_tests NoChange peer_id m c w = (c, [], w)"

definition drive_pacer_for_tests ::
    "('r, 'd, 'p, 't) Registry \<Rightarrow> client_id \<Rightarrow> u64 \<Rightarrow> world \<Rightarrow> (('r, 'd, 'p, 't) Registry \<times> world) option" where
  "drive_pacer_for_tests reg peer_id bps w =
     (case find (\<lambda>c. c_id c = peer_id) (r_clients reg) of
        None \<Rightarrow> Some (reg, w)
      | Some c \<Rightarrow>
          (case drive_pacer c bps of
             None \<Rightarrow> None
           | Some (c', action) \<Rightarrow>
               let (c', evs, w) = apply_action_for_tests action peer_id (r_metrics reg) c' w
               in Some (reg\<lparr>r_clients := update_first (\<lambda>c. c_id c = peer_id) (\<lambda>_. c') (r_clients reg),
                            r_to_propagate := r_to_propagate reg @ evs\<rparr>, w)))"

section \<open>The seams stand for the production paths\<close>

lemma apply_action_for_tests_eq:
  "apply_action_for_tests action i m c w =
     (let (ev, suspend) = apply_pacer_action action i;
          (c, w) = (case suspend of
                      Some s \<Rightarrow> (set_suspended c s, emit m (inc_suspend_video (if s then ''enter'' else ''exit'')) w)
                    | None \<Rightarrow> (c, w))
      in (c, case ev of Some ev \<Rightarrow> [ev] | None \<Rightarrow> [], w))"
  by (cases action) simp_all

text \<open>
  Seeding a track leaves the client as the event handler does for a session that announces the same
  track, for local clients with \<^verbatim>\<open>seed_track_in\<close> and for relays with \<^verbatim>\<open>seed_track_in_relay\<close>.
\<close>

lemma is_relay_mid_to_kind: "is_relay (c\<lparr>c_mid_to_kind := m\<rparr>) = is_relay c"
  by (simp add: is_relay_def)

lemma seed_track_in_eq:
  "\<not> is_relay c \<Longrightarrow> handle_event E c (MediaAdded (mid_of tag) kind) w =
     (case seed_track_in mid_of c tag kind w of (c', a, w') \<Rightarrow> (c', TrackOpen (c_id c) a, w'))"
  "is_relay c \<Longrightarrow> handle_event E c (MediaAdded (mid_of tag) kind) w =
     (case seed_track_in_relay mid_of c tag kind w of (c', a, w') \<Rightarrow> (c', TrackOpen (c_id c) a, w'))"
  by (simp_all add: track_in_added_def seed_track_in_def seed_track_in_relay_def arc_new_def Let_def is_relay_mid_to_kind)

text \<open>
  Driving a pacer through the seam with the budget of the estimator does what a round of
  \<^verbatim>\<open>update_pacer_layers\<close> that passes the tick floor does, but for the stamp of the floor and the two
  gauges.
\<close>

lemma drive_pacer_for_tests_round:
  assumes "c_id c \<noteq> origin" "estimate_with_term bw (c_id c) now = Some (budget, bterm)"
    and "pacer_tick_ready c now PACER_MIN_TICK_INTERVAL = (c1, True)"
    and "w1 = emit m (update_peer_bwe (c_id c) budget @ update_peer_binding_term (c_id c) (BindingTerm_as_str bterm)) w"
  shows "pacer_round bw m origin now c w =
    map_option (\<lambda>(c', action). apply_action_for_tests action (c_id c) m c' w1) (drive_pacer c1 budget)"
proof -
  have c1: "c_id c1 = c_id c"
    using assms(3) by (auto simp: pacer_tick_ready_def Let_def split: if_splits)
  have c2: "c_id c' = c_id c" if "drive_pacer c1 budget = Some (c', a)" for c' a
    using that c1 unfolding drive_pacer_def by (cases a) (auto simp: set_desired_layer_def Let_def)
  have w1: "emit m (update_peer_binding_term (c_id c) (BindingTerm_as_str bterm)) (emit m (update_peer_bwe (c_id c) budget) w) = w1"
    by (simp add: assms(4) emit_def)
  show ?thesis
  proof (cases "drive_pacer c1 budget")
    case None
    with assms show ?thesis by (simp add: pacer_round_def Let_def)
  next
    case (Some s)
    obtain c' a where s: "s = (c', a)" by (cases s)
    with Some have "c_id c' = c_id c" using c2 [of c' a] by simp
    with Some s assms(1-3) c1 w1 show ?thesis
      by (cases a) (simp_all add: pacer_round_def)
  qed
qed

end
