(* ===== verification/Keyframes.thy ===== *)
theory Keyframes
  imports Scripted Test_Seams
begin

text \<open>
  The way of a keyframe request through the room: from the session of the subscriber that asks
  (\<^verbatim>\<open>client/keyframe.rs\<close>), as an event through \<^verbatim>\<open>fanout.rs\<close>, to the session of the publisher.
\<close>

lemma for_clients_pure:
  assumes "\<And>c. snd (f c w) = w"
  shows "for_clients f cs w = (map (\<lambda>c. fst (f c w)) cs, w)"
  using assms by (induction cs) (simp_all add: split_beta)

lemma entry_has_mid_emit [simp]: "entry_has_mid (emit m calls w) = entry_has_mid w"
  by (simp add: entry_has_mid_def upgrade_def emit_def fun_eq_iff)

lemma handle_keyframe_request_eq:
  "handle_keyframe_request E c req mid w =
     (if list_ex (entry_has_mid w (SfuMid_to_str0m mid)) (c_tracks_in c) \<and> rtc_writer E (c_rtc c) (SfuMid_to_str0m mid)
      then c\<lparr>c_rtc := fst (writer_request_keyframe E (c_rtc c) (SfuMid_to_str0m mid)
               (map_option SfuRid_to_str0m (skr_rid req)) (SfuKeyframeKind_to_str0m (skr_kind req)))\<rparr>
      else c)"
  by (simp add: handle_keyframe_request_def Let_def)

lemma fanout_client_keyframe:
  "fanout_client E (UpstreamKeyframeRequest a b d) origin c w = (c, w)"
  "fanout_client E (KeyframeRequestEv a req source mid) origin c w =
     (if c_id c = source \<and> c_id c \<noteq> origin then handle_keyframe_request E c req mid w else c, w)"
  by (cases "c_id c = origin"; cases "c_id c = source"; simp add: fanout_client_def)+

text \<open>What the publisher's session is asked for: the layer last forwarded to the subscriber, by the same mechanism.\<close>

lemma request_conversions:
  "map_option SfuRid_to_str0m (skr_rid (SfuKeyframeRequest_from_str0m req)) = kr_rid req"
  "SfuKeyframeKind_to_str0m (skr_kind (SfuKeyframeRequest_from_str0m req)) = kr_kind req"
  "SfuMid_to_str0m (SfuMid_from_str0m mid) = mid"
  by (simp_all only: SfuKeyframeRequest_from_str0m_def SfuKeyframeRequest.simps
      rid_wrapper.map_option_to_from keyframe_kind_wrapper.to_from mid_wrapper.to_from)

text \<open>
  C27: a subscriber's keyframe request reaches the publisher and nobody else. When the request names an
  open outgoing track whose publisher's track is alive, fanning the resulting event out asks exactly the
  client that publishes the track (not the subscriber itself, and only if it still has the track and a
  writer for it) for a keyframe, on the layer last forwarded to the subscriber and by the mechanism of
  the request; no other client and no other state changes. Requests for tracks of a relay touch no client
  and go upstream as an event. A PLI is counted once.
\<close>

theorem keyframe_request_routed:
  assumes "find (\<lambda>t. TrackOut_mid t = Some (kr_mid req)) (c_tracks_out s) = Some t"
    and "upgrade w (to_track_in t) = Some i" and "incoming_keyframe_req s req w = (ev, w')"
  shows "fanout E ev cs w' =
      (map (\<lambda>c. if \<not> ti_relay_source i \<and> c_id c = ti_origin i \<and> c_id c \<noteq> c_id s
                   \<and> list_ex (entry_has_mid w (ti_mid i)) (c_tracks_in c) \<and> rtc_writer E (c_rtc c) (ti_mid i)
                 then c\<lparr>c_rtc := fst (writer_request_keyframe E (c_rtc c) (ti_mid i) (c_chosen_rid s) (kr_kind req))\<rparr>
                 else c) cs, w')
    \<and> w' = (if kr_kind req = Pli then emit (c_metrics s) (inc_rtcp_pli ''in'') w else w)
    \<and> (ti_relay_source i \<longrightarrow> ev = UpstreamKeyframeRequest (ti_origin i)
         (SfuKeyframeRequest_from_str0m (req\<lparr>kr_rid := c_chosen_rid s\<rparr>)) (SfuMid_from_str0m (ti_mid i)))"
proof -
  have w': "w' = (if kr_kind req = Pli then emit (c_metrics s) (inc_rtcp_pli ''in'') w else w)"
    and ev: "ev = (if ti_relay_source i
      then UpstreamKeyframeRequest (ti_origin i)
        (SfuKeyframeRequest_from_str0m (req\<lparr>kr_rid := c_chosen_rid s\<rparr>)) (SfuMid_from_str0m (ti_mid i))
      else KeyframeRequestEv (c_id s)
        (SfuKeyframeRequest_from_str0m (req\<lparr>kr_rid := c_chosen_rid s\<rparr>)) (ti_origin i) (SfuMid_from_str0m (ti_mid i)))"
    using assms by (auto simp: incoming_keyframe_req_def Let_def split: if_splits)
  have mids: "entry_has_mid w' = entry_has_mid w" by (simp add: w')
  show ?thesis
  proof (cases "ti_relay_source i")
    case True
    then have "fanout E ev cs w' = (cs, w')"
      by (simp add: fanout_def ev for_clients_pure fanout_client_keyframe)
    with True w' show ?thesis by (simp add: ev)
  next
    case False
    then have "fanout E ev cs w' = (map (\<lambda>c. if c_id c = ti_origin i \<and> c_id c \<noteq> c_id s
        then handle_keyframe_request E c (SfuKeyframeRequest_from_str0m (req\<lparr>kr_rid := c_chosen_rid s\<rparr>))
               (SfuMid_from_str0m (ti_mid i)) w' else c) cs, w')"
      by (auto simp: fanout_def ev for_clients_pure fanout_client_keyframe)
    also have "\<dots> = (map (\<lambda>c. if \<not> ti_relay_source i \<and> c_id c = ti_origin i \<and> c_id c \<noteq> c_id s
                   \<and> list_ex (entry_has_mid w (ti_mid i)) (c_tracks_in c) \<and> rtc_writer E (c_rtc c) (ti_mid i)
                 then c\<lparr>c_rtc := fst (writer_request_keyframe E (c_rtc c) (ti_mid i) (c_chosen_rid s) (kr_kind req))\<rparr>
                 else c) cs, w')"
      using False unfolding handle_keyframe_request_eq request_conversions mids
      by (intro arg_cong2 [where f = Pair] map_cong refl) auto
    finally show ?thesis using w' False by - (intro conjI, assumption, assumption, simp)
  qed
qed

text \<open>
  Two clients wired through the seams: client 0 publishes a video track, client 1 has it open. A session
  of this environment notes a keyframe request in its script.
\<close>

definition keyframe_env :: "(script, u64 list, unit, unit) env" where
  "keyframe_env = script_env\<lparr>writer_request_keyframe := (\<lambda>(alive, outs) _ _ _. ((alive, outs @ [OutEvent OtherEvent]), True))\<rparr>"

definition video_track :: TrackIn where
  "video_track = \<lparr>ti_origin = 0, ti_mid = Mid [1], ti_kind = Video, ti_relay_source = False\<rparr>"

definition wired_publisher :: "script Client \<times> arc \<times> world" where
  "wired_publisher = (let (c, w) = the_client subscriber script_world in seed_track_in (\<lambda>tag. Mid [tag]) c 1 Video w)"

definition wired_subscriber :: "script Client \<times> world" where
  "wired_subscriber =
     (let (p, a, w) = wired_publisher; (c, w) = the_client subscriber w
      in (the (open_track_out_for_tests w (handle_track_open c a) video_track), w))"

definition pli_request :: KeyframeRequest where
  "pli_request = \<lparr>kr_mid = Mid [1], kr_rid = None, kr_kind = Pli\<rparr>"

lemmas wired_defs = wired_publisher_def wired_subscriber_def the_client_def Client_new_def SubscriberPacer_new_def
  with_config_def try_with_config_default next_client_id_def seed_track_in_def arc_new_def emit_def script_world_def
  upgrade_def open_track_out_for_tests_def handle_track_open_def mirrors_mid_def video_track_def subscriber_def

lemma wired_publisher_facts:
  "c_id (fst wired_publisher) = 0" "c_rtc (fst wired_publisher) = (True, [])"
  "c_tracks_in (fst wired_publisher) = [\<lparr>te_id = 0, last_keyframe_request = None\<rparr>]"
  by (simp_all add: wired_defs Let_def)

lemma wired_subscriber_facts:
  "c_id (fst wired_subscriber) = 1" "c_rtc (fst wired_subscriber) = (True, [])"
  "c_tracks_in (fst wired_subscriber) = []"
  "c_tracks_out (fst wired_subscriber) = [\<lparr>to_track_in = 0, to_state = Open (Mid [1])\<rparr>]"
  "upgrade (snd wired_subscriber) 0 = Some video_track"
  by (simp_all add: wired_defs Let_def)

theorem keyframe_request_routed_witness:
  "case incoming_keyframe_req (fst wired_subscriber) pli_request (snd wired_subscriber) of (ev, w) \<Rightarrow>
     map c_rtc (fst (fanout keyframe_env ev [fst wired_publisher, fst wired_subscriber] w))
       = [(True, [OutEvent OtherEvent]), (True, [])]"
proof -
  have track: "find (\<lambda>t. TrackOut_mid t = Some (kr_mid pli_request)) (c_tracks_out (fst wired_subscriber))
      = Some \<lparr>to_track_in = 0, to_state = Open (Mid [1])\<rparr>"
    by (simp add: wired_subscriber_facts pli_request_def TrackOut_mid_def)
  have live: "upgrade (snd wired_subscriber) (to_track_in \<lparr>to_track_in = 0, to_state = Open (Mid [1])\<rparr>) = Some video_track"
    by (simp add: wired_subscriber_facts)
  note routed = keyframe_request_routed [OF track live surjective_pairing, THEN conjunct1]
  show ?thesis
    unfolding split_beta routed
    by (simp add: wired_publisher_facts wired_subscriber_facts video_track_def entry_has_mid_def keyframe_env_def script_env_def)
qed

end
