(* ===== verification/Exposition.thy ===== *)
theory Exposition
  imports Scripted
begin

text \<open>
  What a room exposes to Prometheus. Every call that an operation makes fits the registered
  schema, with label values from a fixed vocabulary and peer labels of clients that are in the
  room; so the number of exposed series is bounded by the number of clients present, however
  many have come and gone.
\<close>

section \<open>The series a room may expose\<close>

text \<open>
  The label values that the documentation of the fields of \<^verbatim>\<open>SfuMetrics\<close> announces, the peer label
  ranging over the given ids.
\<close>

definition label_values :: "u64 list \<Rightarrow> metric \<Rightarrow> string \<Rightarrow> string list" where
  "label_values ids m name =
     (if name = ''peer_id'' then map peer_label ids
      else if name = ''term'' then map BindingTerm_as_str BindingTerm_ALL
      else if name = ''layer'' then [''q'', ''h'', ''f'', ''other'']
      else if name = ''direction'' then (if m = pacer_suspend_video_total then [''enter'', ''exit''] else [''in'', ''out''])
      else if m = track_bytes_total then [''audio'', ''video'']
      else [''audio'', ''video'', ''other''])"

definition series :: "u64 list \<Rightarrow> (metric \<times> string list) list" where
  "series ids = concat (map (\<lambda>opt. map (Pair (opt_metric opt))
     (product_lists (map (label_values ids (opt_metric opt)) (opt_labels opt))))
     (filter (\<lambda>opt. opt_labels opt \<noteq> []) schema))"

lemma map_concat_singletons: "concat (map (\<lambda>x. [f x]) xs) = map f xs"
  by (induction xs) auto

lemma series_eq:
  "series ids =
     map (\<lambda>k. (forwarded_packets_total, [k])) [''audio'', ''video'', ''other'']
     @ map (\<lambda>k. (layer_selection_total, [k])) [''q'', ''h'', ''f'', ''other'']
     @ concat (map (\<lambda>m. map (\<lambda>i. (m, [peer_label i])) ids)
         [peer_loss_fraction, peer_jitter_ms, peer_rtt_ms, bandwidth_estimate_bps])
     @ concat (map (\<lambda>i. map (\<lambda>t. (combined_bps_binding_term, [peer_label i, BindingTerm_as_str t])) BindingTerm_ALL) ids)
     @ concat (map (\<lambda>m. map (\<lambda>i. (m, [peer_label i])) ids) [speaker_immediate, speaker_medium, speaker_long])
     @ map (\<lambda>k. (pacer_suspend_video_total, [k])) [''enter'', ''exit'']
     @ map (\<lambda>i. (video_frames_dropped_total, [peer_label i])) ids
     @ map (\<lambda>k. (forward_latency_seconds, [k])) [''audio'', ''video'', ''other'']
     @ concat (map (\<lambda>d. map (\<lambda>k. (track_bytes_total, [d, k])) [''audio'', ''video'']) [''in'', ''out''])
     @ map (\<lambda>k. (rtcp_pli_total, [k])) [''in'', ''out'']"
  by (simp add: series_def schema_def label_values_def map_concat_singletons comp_def map_concat)

lemma length_series: "length (series ids) = 18 + 13 * length ids"
  by (simp add: series_eq BindingTerm_ALL_def length_concat comp_def sum_list_triv)

lemma BindingTerm_ALL_UNIV [simp]: "set BindingTerm_ALL = UNIV"
proof -
  have "t \<in> set BindingTerm_ALL" for t by (cases t) (simp_all add: BindingTerm_ALL_def)
  then show ?thesis by blast
qed

lemma in_series [simp]:
  "(active_participants, ls) \<notin> set (series ids)"
  "(dominant_speaker_changes_total, ls) \<notin> set (series ids)"
  "(client_connect_total, ls) \<notin> set (series ids)"
  "(client_disconnect_total, ls) \<notin> set (series ids)"
  "(pacer_tick_throttled_total, ls) \<notin> set (series ids)"
  "(forwarded_packets_total, ls) \<in> set (series ids) \<longleftrightarrow> ls \<in> {[''audio''], [''video''], [''other'']}"
  "(layer_selection_total, ls) \<in> set (series ids) \<longleftrightarrow> ls \<in> {[''q''], [''h''], [''f''], [''other'']}"
  "(peer_loss_fraction, ls) \<in> set (series ids) \<longleftrightarrow> (\<exists>i \<in> set ids. ls = [peer_label i])"
  "(peer_jitter_ms, ls) \<in> set (series ids) \<longleftrightarrow> (\<exists>i \<in> set ids. ls = [peer_label i])"
  "(peer_rtt_ms, ls) \<in> set (series ids) \<longleftrightarrow> (\<exists>i \<in> set ids. ls = [peer_label i])"
  "(bandwidth_estimate_bps, ls) \<in> set (series ids) \<longleftrightarrow> (\<exists>i \<in> set ids. ls = [peer_label i])"
  "(combined_bps_binding_term, ls) \<in> set (series ids) \<longleftrightarrow>
     (\<exists>i \<in> set ids. \<exists>t. ls = [peer_label i, BindingTerm_as_str t])"
  "(speaker_immediate, ls) \<in> set (series ids) \<longleftrightarrow> (\<exists>i \<in> set ids. ls = [peer_label i])"
  "(speaker_medium, ls) \<in> set (series ids) \<longleftrightarrow> (\<exists>i \<in> set ids. ls = [peer_label i])"
  "(speaker_long, ls) \<in> set (series ids) \<longleftrightarrow> (\<exists>i \<in> set ids. ls = [peer_label i])"
  "(pacer_suspend_video_total, ls) \<in> set (series ids) \<longleftrightarrow> ls \<in> {[''enter''], [''exit'']}"
  "(video_frames_dropped_total, ls) \<in> set (series ids) \<longleftrightarrow> (\<exists>i \<in> set ids. ls = [peer_label i])"
  "(forward_latency_seconds, ls) \<in> set (series ids) \<longleftrightarrow> ls \<in> {[''audio''], [''video''], [''other'']}"
  "(track_bytes_total, ls) \<in> set (series ids) \<longleftrightarrow> (\<exists>d \<in> {''in'', ''out''}. \<exists>k \<in> {''audio'', ''video''}. ls = [d, k])"
  "(rtcp_pli_total, ls) \<in> set (series ids) \<longleftrightarrow> ls \<in> {[''in''], [''out'']}"
  by (simp_all add: series_eq image_iff)

lemma series_mono: "set ids \<subseteq> set ids' \<Longrightarrow> (m, ls) \<in> set (series ids) \<Longrightarrow> (m, ls) \<in> set (series ids')"
  by (cases m) auto

lemma series_survives:
  assumes "(m, ls) \<in> set (series ids)" "\<not> (per_peer m \<and> hd ls = peer_label i)" "set ids \<subseteq> insert i (set ids')"
  shows "(m, ls) \<in> set (series ids')"
  using assms by (cases m) (auto simp: per_peer_iff peer_label_inj)

section \<open>What an operation may call\<close>

fun call_names :: "u64 list \<Rightarrow> prom_call \<Rightarrow> bool" where
  "call_names ids (WithLabels m ls a) \<longleftrightarrow> (m, ls) \<in> set (series ids)"
| "call_names ids _ \<longleftrightarrow> True"

definition logs :: "u64 list \<Rightarrow> world \<Rightarrow> world \<Rightarrow> bool" where
  "logs ids w w' \<longleftrightarrow> (\<exists>cs. prom w' = prom w @ cs
     \<and> list_all (\<lambda>(_, c). call_ok c \<and> call_names ids c) cs)"

lemma logs_refl [simp]: "logs ids w w"
  by (simp add: logs_def)

lemma logs_trans [trans]: "logs ids w w' \<Longrightarrow> logs ids w' w'' \<Longrightarrow> logs ids w w''"
  by (auto simp: logs_def)

lemma logs_mono:
  assumes "logs ids w w'" "set ids \<subseteq> set ids'"
  shows "logs ids' w w'"
proof -
  have "call_names ids c \<Longrightarrow> call_names ids' c" for c
    by (cases c) (auto intro: series_mono [OF assms(2)])
  with assms(1) show ?thesis unfolding logs_def by (fastforce simp: list_all_iff)
qed

lemma logs_same: "prom w' = prom w \<Longrightarrow> logs ids w w'"
  by (simp add: logs_def)

lemma logs_emit:
  "list_all (\<lambda>c. call_ok c \<and> call_names ids c) calls \<Longrightarrow> logs ids w w' \<Longrightarrow> logs ids w (emit m calls w')"
  by (auto simp: logs_def emit_def list_all_iff)

lemma logs_update:
  "logs ids w w' \<Longrightarrow> logs ids w (w'\<lparr>clock_reads := n\<rparr>)" "logs ids w w' \<Longrightarrow> logs ids w (w'\<lparr>id_counter := i\<rparr>)"
  "logs ids w w' \<Longrightarrow> logs ids w (w'\<lparr>arcs := as\<rparr>)" "logs ids w w' \<Longrightarrow> logs ids w (w'\<lparr>arcs := as, next_arc := n\<rparr>)"
  by (simp_all add: logs_def)

text \<open>The calls of each recording operation, with the label values its callers pass.\<close>

lemma calls_named [simp]:
  "k \<in> {''audio'', ''video'', ''other''} \<Longrightarrow> list_all (\<lambda>c. call_ok c \<and> call_names ids c) (inc_forwarded_packets k)"
  "k \<in> {''audio'', ''video'', ''other''} \<Longrightarrow> list_all (\<lambda>c. call_ok c \<and> call_names ids c) (observe_forward_latency k x)"
  "list_all (\<lambda>c. call_ok c \<and> call_names ids c) (inc_layer_selection (rid_label rid))"
  "list_all (\<lambda>c. call_ok c \<and> call_names ids c) (inc_suspend_video (if s then ''enter'' else ''exit''))"
  "list_all (\<lambda>c. call_ok c \<and> call_names ids c) inc_pacer_tick_throttled"
  "i \<in> set ids \<Longrightarrow> list_all (\<lambda>c. call_ok c \<and> call_names ids c) (peer_drop_counter i)"
  "list_all (\<lambda>c. call_ok c \<and> call_names ids c) inc_client_connect"
  "list_all (\<lambda>c. call_ok c \<and> call_names ids c) inc_client_disconnect"
  "list_all (\<lambda>c. call_ok c \<and> call_names ids c) inc_active_participants"
  "list_all (\<lambda>c. call_ok c \<and> call_names ids c) dec_active_participants"
  "list_all (\<lambda>c. call_ok c \<and> call_names ids c) inc_dominant_speaker_changes"
  "i \<in> set ids \<Longrightarrow> list_all (\<lambda>c. call_ok c \<and> call_names ids c) (update_peer_rtcp i l x y)"
  "i \<in> set ids \<Longrightarrow> list_all (\<lambda>c. call_ok c \<and> call_names ids c) (update_peer_bwe i b)"
  "i \<in> set ids \<Longrightarrow> list_all (\<lambda>c. call_ok c \<and> call_names ids c) (update_peer_binding_term i (BindingTerm_as_str t))"
  "i \<in> set ids \<Longrightarrow> list_all (\<lambda>c. call_ok c \<and> call_names ids c) (update_peer_speaker_scores i u v z)"
  "k \<in> {''audio'', ''video''} \<Longrightarrow> list_all (\<lambda>c. call_ok c \<and> call_names ids c) (add_track_bytes_in k n)"
  "k \<in> {''audio'', ''video''} \<Longrightarrow> list_all (\<lambda>c. call_ok c \<and> call_names ids c) (add_track_bytes_out k n)"
  "k \<in> {''in'', ''out''} \<Longrightarrow> list_all (\<lambda>c. call_ok c \<and> call_names ids c) (inc_rtcp_pli k)"
  by (auto simp: metric_ops Let_def rid_label_def binding_term_known)

lemma reap_dead_peer_named: "list_all (\<lambda>c. call_ok c \<and> call_names ids c) (reap_dead_peer i)"
  by (simp add: metric_ops Let_def list_all_iff)


section \<open>Every operation\<close>

lemmas logs_intros = logs_refl logs_emit logs_update

lemma kind_str_known: "kind_str k \<in> {''audio'', ''video''}"
  by (cases k) simp_all

lemma request_keyframe_logs: "request_keyframe_throttled E c mid rid kind w = (c', w') \<Longrightarrow> logs ids w w'"
  by (auto simp: request_keyframe_throttled_def Let_def split_beta intro!: logs_intros
      split: if_splits option.splits)

lemma forward_metrics_logs: "k \<in> {''audio'', ''video'', ''other''} \<Longrightarrow> logs ids w (forward_metrics m k d w)"
  by (auto simp: forward_metrics_def Let_def intro!: logs_intros split: option.splits)

lemma forward_to_writer_logs:
  assumes "forward_to_writer E origin d c w = (c', w')"
  shows "logs ids w w'"
proof -
  define k where "k = (case Option.bind (find (track_matches w origin (SfuMid_to_str0m (mp_mid d))) (c_tracks_out c))
                       (\<lambda>trk. upgrade w (to_track_in trk)) of Some t \<Rightarrow> kind_str (ti_kind t) | None \<Rightarrow> ''other'')"
  have k: "k \<in> {''audio'', ''video'', ''other''}"
    using kind_str_known by (auto simp: k_def split: option.split)
  define v where "v = forward_metrics (c_metrics c) k d w"
  have v: "logs ids w v" by (simp add: v_def forward_metrics_logs [OF k])
  note assms = assms [unfolded forward_to_writer_def Let_def, folded k_def, folded v_def]
  show ?thesis
    using assms v k by (auto simp: write_parts_def split_beta intro!: logs_intros split: if_splits option.splits)
qed

lemma forward_logs: "handle_media_data_out E origin d c w = (c', w') \<Longrightarrow> logs ids w w'"
  by (auto simp: handle_media_data_out_def Let_def dest: forward_to_writer_logs
      intro!: logs_intros split: if_splits option.splits)

lemma track_in_media_logs:
  assumes "track_in_media E c d w = (c', p, w')"
  shows "logs ids w w'"
proof -
  obtain c1 w1 where 1: "(if \<not> md_contiguous d then request_keyframe_throttled E c (md_mid d) (md_rid d) Fir w
      else (c, w)) = (c1, w1)" by (metis prod.exhaust)
  then have "logs ids w w1" by (auto split: if_splits dest: request_keyframe_logs)
  with assms show ?thesis
    unfolding track_in_media_def 1 Let_def using kind_str_known
    by (auto intro!: logs_intros split: option.splits)
qed

lemma poll_output_logs:
  assumes "poll_output E c w = (c', p, w')"
  shows "logs ids w w'"
proof -
  have event: "logs ids w w'" if "handle_event E c e w = (c', p, w')" for c e
    using that
    by (cases e) (auto simp: track_in_added_def arc_new_def incoming_keyframe_req_def Let_def
        dest: track_in_media_logs intro!: logs_intros split: prod.splits option.splits if_splits)
  have "logs ids w w'" if "handle_output E c out w = (c', p, w')" for c out
    using that event by (cases out) auto
  with assms show ?thesis by (auto simp: poll_output_def Let_def split: if_splits option.splits prod.splits)
qed

lemma poll_media_frame:
  "poll_media E now c reg tm w p = (reg', tm', w') \<Longrightarrow> prom w' = prom w \<and> r_metrics reg' = r_metrics reg"
  by (auto simp: poll_media_def now_ms_def instant_now_def Let_def split: Propagated.splits option.splits if_splits)

lemma push_back_metrics [simp]: "r_metrics (push_back p reg) = r_metrics reg"
  by (simp add: push_back_def)

lemma poll_client_logs:
  assumes "poll_client E fuel now c (reg, dl, tm, w) = Some (c', reg', dl', tm', w')" "c_id c \<in> set ids"
  shows "logs ids w w' \<and> c_id c' = c_id c \<and> r_metrics reg' = r_metrics reg"
  using assms
proof (induction fuel arbitrary: c reg dl tm w)
  case (Suc fuel)
  obtain c1 p w1 where 1: "poll_output E c w = (c1, p, w1)" by (metis prod.exhaust)
  have "polls c w (c1, p, w1)" using polls_poll_output [of c w E] 1 by simp
  then have c1: "c_id c1 = c_id c" "polled_event (c_id c) p" by (auto simp: polls_def fixed_eq_iff)
  have w1: "logs ids w w1" by (rule poll_output_logs [OF 1])
  have rest: "logs ids w w' \<and> c_id c' = c_id c \<and> r_metrics reg' = r_metrics reg"
    if "poll_client E fuel now c1 (reg2, dl2, tm2, w2) = Some (c', reg', dl', tm', w')"
      "logs ids w1 w2" "r_metrics reg2 = r_metrics reg" for reg2 dl2 tm2 w2
    using Suc.IH [OF that(1)] that(2,3) c1(1) Suc.prems(2) logs_trans [OF w1] logs_trans by metis
  show ?case
  proof (cases "client_is_alive E c")
    case False
    with Suc.prems show ?thesis by simp
  next
    case True
    note unfolded = Suc.prems(1) [simplified poll_client.simps, simplified True 1]
    have id: "c_id c \<in> set ids" by (rule Suc.prems(2))
    show ?thesis
    proof (cases p)
      case Noop
      with unfolded rest show ?thesis by simp
    next
      case (Timeout t)
      with unfolded c1 w1 show ?thesis by auto
    next
      case (BandwidthEstimateEv i e)
      with unfolded c1 id show ?thesis
        by (auto simp: Let_def dest!: rest intro!: logs_intros)
    next
      case (RtcpStats i st)
      with unfolded c1 id show ?thesis
        by (auto simp: Let_def dest!: rest intro!: logs_intros)
    qed (use unfolded in \<open>auto split: prod.splits dest!: poll_media_frame rest intro: logs_same\<close>)
  qed
qed simp


lemma poll_clients_logs:
  assumes "poll_clients E fuel now cs (reg, dl, tm, w) = Some (cs', reg', dl', tm', w')" "c_id ` set cs \<subseteq> set ids"
  shows "logs ids w w' \<and> map c_id cs' = map c_id cs \<and> r_metrics reg' = r_metrics reg"
  using assms
proof (induction cs arbitrary: reg dl tm w cs')
  case (Cons c cs)
  then obtain c1 reg1 dl1 tm1 w1 cs1 where
    1: "poll_client E fuel now c (reg, dl, tm, w) = Some (c1, reg1, dl1, tm1, w1)"
    and 2: "poll_clients E fuel now cs (reg1, dl1, tm1, w1) = Some (cs1, reg', dl', tm', w')"
    and [simp]: "cs' = c1 # cs1"
    by (auto split: option.splits)
  from poll_client_logs [OF 1, of ids] Cons.IH [OF 2] Cons.prems(2) show ?case by (auto intro: logs_trans)
qed simp

lemma poll_all_logs:
  assumes "poll_all E fuel now reg w = Some (reg', dl, w')"
  shows "logs (map c_id (r_clients reg)) w w' \<and> map c_id (r_clients reg') = map c_id (r_clients reg)
    \<and> r_metrics reg' = r_metrics reg"
  using assms poll_clients_logs [of E fuel now "r_clients reg" reg _ _ w _ _ _ _ _ "map c_id (r_clients reg)"]
  by (fastforce simp: poll_all_def Let_def split: option.splits)

lemma pacer_round_logs:
  assumes "pacer_round bw m origin now c w = Some (c', evs, w')" "c_id c \<in> set ids"
  shows "logs ids w w' \<and> c_id c' = c_id c"
proof -
  have drive: "c_id c2 = c_id c1" if "drive_pacer c1 b = Some (c2, a)" for c1 c2 :: "'a Client" and b a
    using that by (cases a) (auto simp: drive_pacer_def set_desired_layer_def Let_def)
  have tick: "c_id c1 = c_id c0" if "pacer_tick_ready c0 t g = (c1, r)" for c0 c1 :: "'a Client" and t g r
    using that by (auto simp: pacer_tick_ready_def Let_def split: if_splits)
  have dirs: "list_all (\<lambda>c. call_ok c \<and> call_names ids c) (inc_suspend_video ''enter'')"
    "list_all (\<lambda>c. call_ok c \<and> call_names ids c) (inc_suspend_video ''exit'')"
    using calls_named(4) [of ids True] calls_named(4) [of ids False] by simp_all
  show ?thesis
    using assms dirs
    by (auto simp: pacer_round_def Let_def set_suspended_def dest!: drive tick intro!: logs_intros
        split: if_splits option.splits prod.splits)
qed

lemma pacer_rounds_logs:
  fixes evs :: "('p, 't) Propagated list"
  assumes "pacer_rounds bw m origin now cs w = Some (cs', evs, w')" "c_id ` set cs \<subseteq> set ids"
  shows "logs ids w w' \<and> map c_id cs' = map c_id cs"
  using assms
proof (induction cs arbitrary: w cs' evs)
  case (Cons c cs)
  then obtain c1 w1 cs1 and evs1 evs2 :: "('p, 't) Propagated list" where
    1: "pacer_round bw m origin now c w = Some (c1, evs1, w1)"
    and 2: "pacer_rounds bw m origin now cs w1 = Some (cs1, evs2, w')" and [simp]: "cs' = c1 # cs1"
    by (auto split: option.splits)
  from pacer_round_logs [OF 1, of ids] Cons.IH [OF 2] Cons.prems(2) show ?case by (auto intro: logs_trans)
qed simp

lemma update_pacer_layers_logs:
  assumes "update_pacer_layers origin now reg w = Some (reg', w')"
  shows "logs (map c_id (r_clients reg)) w w' \<and> map c_id (r_clients reg') = map c_id (r_clients reg)
    \<and> r_metrics reg' = r_metrics reg"
  using assms pacer_rounds_logs [of "r_bandwidth reg" "r_metrics reg" origin now "r_clients reg" w _ _ _ "map c_id (r_clients reg)"]
  by (fastforce simp: update_pacer_layers_def split: option.splits)

lemma for_clients_logs:
  assumes "for_clients f cs w = (cs', w')"
    and "\<And>c w c' w'. f c w = (c', w') \<Longrightarrow> logs ids w w' \<and> c_id c' = c_id c"
  shows "logs ids w w' \<and> map c_id cs' = map c_id cs"
  using assms(1)
proof (induction cs arbitrary: w cs' w')
  case (Cons c cs)
  then show ?case using assms(2) by (fastforce split: prod.splits intro: logs_trans)
qed simp

lemma fanout_client_logs:
  assumes "fanout_client E p origin c w = (c', w')"
  shows "logs ids w w' \<and> c_id c' = c_id c"
proof -
  have "logs ids w w' \<and> c_id c' = c_id c" if "handle_media_data_out E origin d c w = (c', w')" for d
    using forward_logs [OF that] forward_frame(1) [OF that] by (simp add: fixed_eq_iff)
  moreover have "c_id (handle_keyframe_request E c r m w) = c_id c" for r m
    by (simp add: handle_keyframe_request_def Let_def)
  ultimately show ?thesis
    using assms by (cases p) (auto simp: fanout_client_def split: if_splits)
qed

lemma fanout_logs:
  assumes "fanout E p cs w = (cs', w')"
  shows "logs ids w w' \<and> map c_id cs' = map c_id cs"
proof -
  have "logs ids w w' \<and> map c_id cs' = map c_id cs" if "for_clients (fanout_client E p i) cs w = (cs', w')" for i
    by (rule for_clients_logs [OF that]) (rule fanout_client_logs)
  with assms show ?thesis
    by (auto simp: fanout_def handle_active_speaker_changed_def split: Propagated.splits option.splits)
qed

lemma fanout_one_logs:
  assumes "fanout_one E now p reg w = Some (reg', w')"
  shows "logs (map c_id (r_clients reg)) w w' \<and> map c_id (r_clients reg') = map c_id (r_clients reg)
    \<and> r_metrics reg' = r_metrics reg"
proof (cases p)
  case (MediaDataEv origin d)
  then obtain reg1 w1 where 1: "update_pacer_layers origin now reg w = Some (reg1, w1)"
    using assms by (auto simp: fanout_one_def)
  obtain cs w2 where 2: "fanout E p (r_clients reg1) w1 = (cs, w2)" by fastforce
  have "reg' = reg1\<lparr>r_clients := cs\<rparr>" "w' = w2"
    using assms MediaDataEv 1 2 by (auto simp: fanout_one_def)
  with update_pacer_layers_logs [OF 1] fanout_logs [OF 2] show ?thesis by (auto intro: logs_trans)
qed (use assms in \<open>auto simp: fanout_one_def dest: fanout_logs [where ids = "map c_id (r_clients reg)"] split: prod.splits\<close>)

lemma fanout_loop_logs:
  "fanout_loop E now reg w = Some (reg', w') \<Longrightarrow>
     logs (map c_id (r_clients reg)) w w' \<and> map c_id (r_clients reg') = map c_id (r_clients reg)
     \<and> r_metrics reg' = r_metrics reg"
proof (induction E now reg w rule: fanout_loop.induct)
  case (1 E now reg w)
  show ?case
  proof (cases "r_to_propagate reg")
    case Nil
    with 1 show ?thesis by (simp add: fanout_loop.simps)
  next
    case (Cons p ps)
    then obtain reg1 w1 where one: "fanout_one E now p (reg\<lparr>r_to_propagate := ps\<rparr>) w = Some (reg1, w1)"
      and rest: "fanout_loop E now reg1 w1 = Some (reg', w')"
      using "1.prems" by (auto simp: fanout_loop.simps [of E now reg] split: option.splits)
    from fanout_one_logs [OF one] "1.IH" [OF Cons one _ rest] show ?thesis by (auto intro: logs_trans)
  qed
qed


section \<open>Every step of a room\<close>

definition score_ids :: "('r, 'd, 'p, 't) env \<Rightarrow> ('r, 'd, 'p, 't) Registry \<Rightarrow> u64 list" where
  "score_ids E reg = map fst (peer_audio_scores E reg)"

lemma speaker_scores_logs: "logs (score_ids E reg) w (tick_speaker_scores E reg w)"
proof -
  have "logs ids v (foldl (\<lambda>w (i, x, y, z). emit m (update_peer_speaker_scores i x y z) w) v l)"
    if "fst ` set l \<subseteq> set ids" for ids v m and l :: "(u64 \<times> f64 \<times> f64 \<times> f64) list"
    using that
  proof (induction l arbitrary: v)
    case (Cons a l)
    obtain i x y z where a: "a = (i, x, y, z)" by (cases a)
    have "logs ids v (emit m (update_peer_speaker_scores i x y z) v)"
      using Cons.prems by (intro logs_intros) (simp_all add: a)
    with Cons show ?case unfolding a by (auto intro: logs_trans)
  qed simp
  then show ?thesis by (simp add: tick_speaker_scores_def score_ids_def)
qed

lemma insert_client_logs:
  assumes "Client_new rtc m w = Some (c, w1)" "configured c d" "insert_client E reg d w1 = (reg', w')"
  shows "logs (map c_id (r_clients reg')) w w' \<and> map c_id (r_clients reg') = map c_id (r_clients reg) @ [id_counter w]
    \<and> r_metrics reg' = r_metrics reg"
proof -
  have d: "c_id d = id_counter w"
    and w1: "w1 = emit m (peer_drop_counter (id_counter w)) (w\<lparr>id_counter := id_counter w + 1\<rparr>)"
    using configured_frame [OF assms(2)] Client_new_fresh [OF assms(1)] by simp_all
  have reg': "map c_id (r_clients reg') = map c_id (r_clients reg) @ [id_counter w]" "r_metrics reg' = r_metrics reg"
    using assms(3) d by (auto simp: insert_client_def Let_def foldl_track_open split: prod.splits if_splits)
  then have "id_counter w \<in> set (map c_id (r_clients reg'))" by simp
  then have "logs (map c_id (r_clients reg')) w w'"
    using assms(3) d unfolding w1
    by (auto simp: insert_client_def Let_def foldl_track_open now_ms_def instant_now_def
        intro!: logs_intros simp del: set_map split: prod.splits if_splits)
  with reg' show ?thesis by simp
qed

lemma reap_client_logs: "reap_client E c (reg, w) = (reg', w') \<Longrightarrow> logs ids w w' \<and> r_metrics reg' = r_metrics reg"
  by (auto simp: reap_client_def Let_def arc_drop_def reap_dead_peer_named intro!: logs_intros)

lemma reap_fold_logs:
  assumes "foldl (\<lambda>s c. if \<not> client_is_alive E c then reap_client E c s else s) (reg, w) cs = (reg', w')"
  shows "logs ids w w' \<and> r_metrics reg' = r_metrics reg"
  using assms
proof (induction cs arbitrary: reg w)
  case (Cons c cs)
  obtain reg1 w1 where 1: "reap_client E c (reg, w) = (reg1, w1)" by fastforce
  from Cons.IH [of reg w] Cons.IH [of reg1 w1] Cons.prems 1 reap_client_logs [OF 1] show ?case
    by (auto intro: logs_trans split: if_splits)
qed simp

lemma foldl_reap_clients:
  assumes "foldl (\<lambda>s c. if \<not> client_is_alive E c then reap_client E c s else s) (reg, w) cs = (reg', w')"
  shows "r_clients reg' = r_clients reg"
  using assms
proof (induction cs arbitrary: reg w)
  case (Cons c cs)
  obtain reg1 w1 where 1: "reap_client E c (reg, w) = (reg1, w1)" by fastforce
  then have "r_clients reg1 = r_clients reg" by (auto simp: reap_client_def Let_def)
  with Cons.IH [of reg w] Cons.IH [of reg1 w1] Cons.prems 1 show ?case by (auto split: if_splits)
qed simp

text \<open>A step that is not a reap keeps the clients, or adds one, and records only about them.\<close>

lemma room_step_logs:
  assumes "room_step E (reg, w) (reg', w')"
  shows "r_metrics reg' = r_metrics reg
    \<and> (reap_dead E reg w = (reg', w') \<and> logs [] w w'
       \<or> set (map c_id (r_clients reg)) \<subseteq> set (map c_id (r_clients reg'))
         \<and> logs (map c_id (r_clients reg') @ score_ids E reg) w w')"
  using assms
proof (cases rule: room_step.cases)
  case (join rtc m c w1 d)
  from insert_client_logs [OF join(1,2,4)] show ?thesis by (auto intro: logs_mono)
next
  case (incoming src dst payload b)
  have "map c_id (r_clients reg') = map c_id (r_clients reg)" "prom w' = prom w" "r_metrics reg' = r_metrics reg"
    using incoming by (auto simp: handle_incoming_def instant_now_def Let_def map_update_first
        Client_handle_input_def split: option.splits prod.splits)
  then show ?thesis by (metis logs_same order_refl)
next
  case (audio i l now)
  then show ?thesis by (simp add: record_audio_level_def)
next
  case (poll fuel now deadline)
  from poll_all_logs [OF poll] show ?thesis by (auto intro: logs_mono)
next
  case (speaker now)
  then show ?thesis
    by (auto simp: tick_active_speaker_def push_back_def Let_def intro!: logs_intros split: prod.splits option.splits)
next
  case scores
  with speaker_scores_logs [of E reg w] show ?thesis by (auto intro: logs_mono)
next
  case (clock now)
  have "c_id (Client_handle_timeout E c now) = c_id c" for c
    by (auto simp: Client_handle_timeout_def Let_def split: prod.splits)
  with clock show ?thesis by (auto simp: tick_def)
next
  case fan
  then have "fanout_loop E (clock w (clock_reads w)) reg (w\<lparr>clock_reads := Suc (clock_reads w)\<rparr>) = Some (reg', w')"
    by (simp add: fanout_pending_def instant_now_def)
  from fanout_loop_logs [OF this] have "logs (map c_id (r_clients reg)) w w'"
    and "map c_id (r_clients reg') = map c_id (r_clients reg)" "r_metrics reg' = r_metrics reg"
    by (auto simp: logs_def)
  then show ?thesis by (auto intro: logs_mono)
next
  case (pace i now)
  from update_pacer_layers_logs [OF pace] show ?thesis by (auto intro: logs_mono)
next
  case reap
  then have "logs [] w w' \<and> r_metrics reg' = r_metrics reg"
    by (auto simp: reap_dead_def Let_def dest: reap_fold_logs [where ids = "[]"] split: prod.splits)
  with reap show ?thesis by simp
next
  case (drain out)
  then have "map c_id (r_clients reg') = map c_id (r_clients reg)" "r_metrics reg' = r_metrics reg"
    by (auto simp: drain_transmits_def drain_pending_out_def Let_def)
  with drain show ?thesis by (metis logs_refl order_refl)
qed (auto simp: Registry_on_twcc_feedback_def Registry_enable_googcc_def googcc_ceiling_for_subscriber_mut_def
      emit_publisher_layer_hints_def foldl_push_back instant_now_def intro: logs_same)


section \<open>The calls fit the schema\<close>

lemma series_some: "(m, ls) \<in> set (series ids) \<Longrightarrow> \<exists>i. (m, ls) \<in> set (series [i])"
  by (cases m) auto

lemma call_names_some: "call_names ids c \<Longrightarrow> \<exists>i. call_names [i] c"
  by (cases c) (auto dest: series_some)

lemma logs_call_ok:
  "logs ids w w' \<Longrightarrow> list_all (\<lambda>(_, c). call_ok c) (prom w) \<Longrightarrow> list_all (\<lambda>(_, c). call_ok c) (prom w')"
  by (auto simp: logs_def elim: list.pred_mono_strong)

lemma logs_fit:
  assumes "logs ids w w'" "list_all (\<lambda>(_, c). call_ok c \<and> (\<exists>i. call_names [i] c)) (prom w)"
  shows "list_all (\<lambda>(_, c). call_ok c \<and> (\<exists>i. call_names [i] c)) (prom w')"
proof -
  obtain cs where cs: "prom w' = prom w @ cs" "list_all (\<lambda>(_, c). call_ok c \<and> call_names ids c) cs"
    using assms(1) by (auto simp: logs_def)
  from cs(2) have "list_all (\<lambda>(_, c). call_ok c \<and> (\<exists>i. call_names [i] c)) cs"
    by (rule list.pred_mono_strong) (auto dest: call_names_some)
  with assms(2) cs(1) show ?thesis by simp
qed

text \<open>
  C10: Every Prometheus call made in the life of a room fits the schema registered by
  \<^verbatim>\<open>SfuMetrics::new\<close>: the metric exists and has the operation, a scalar metric is used directly, a
  vector is given exactly one value per label name, and the values other than the peer id come from the
  documented vocabulary. In particular \<^verbatim>\<open>with_label_values\<close> never panics.
\<close>

theorem metric_calls_typed:
  assumes "room_reachable E reg w"
  shows "list_all (\<lambda>(_, c). call_ok c \<and> (\<exists>i. call_names [i] c)) (prom w)"
  using assms
proof (induction rule: room_reachable.induct)
  case (start w m reg w')
  then show ?case by (auto simp: Registry_new_def fresh_world_def instant_now_def)
next
  case (step reg w reg' w')
  from room_step_logs [OF step(2)] step(3) show ?case by (blast intro: logs_fit)
qed

theorem metric_calls_typed_witness:
  "list_all (\<lambda>(_, c). call_ok c \<and> (\<exists>i. call_names [i] c)) (prom (snd demo_room))"
  by (rule metric_calls_typed [OF demo_room_reachable])

section \<open>The series belong to the clients present\<close>

definition calls_on :: "nat \<Rightarrow> world \<Rightarrow> prom_call list" where
  "calls_on m w = map snd (filter (\<lambda>(i, _). i = m) (prom w))"

lemma calls_on_emit: "calls_on m (emit m' calls w) = calls_on m w @ (if m = m' then calls else [])"
  by (auto simp: calls_on_def emit_def comp_def filter_map)

lemma calls_on_arcs [simp]: "calls_on m (w\<lparr>arcs := as\<rparr>) = calls_on m w"
  by (simp add: calls_on_def)

lemma live_appended:
  assumes "prom_contract live" "list_all (call_names ids) cs"
  shows "live (t @ cs) \<subseteq> live t \<union> set (series ids)"
  using assms(2)
proof (induction cs rule: rev_induct)
  case (snoc c cs)
  have "live ((t @ cs) @ [c]) \<subseteq> live (t @ cs) \<union> set (series ids)"
    using assms(1) snoc.prems unfolding prom_contract_def by (cases c) (auto simp del: append_assoc)
  with snoc show ?case by auto
qed simp

lemma live_logs:
  assumes "prom_contract live" "logs ids w w'"
  shows "live (calls_on m w') \<subseteq> live (calls_on m w) \<union> set (series ids)"
proof -
  obtain cs where cs: "prom w' = prom w @ cs" "list_all (\<lambda>(_, c). call_ok c \<and> call_names ids c) cs"
    using assms(2) by (auto simp: logs_def)
  then have "calls_on m w' = calls_on m w @ map snd (filter (\<lambda>(i, _). i = m) cs)"
    by (simp add: calls_on_def)
  moreover have "list_all (call_names ids) (map snd (filter (\<lambda>(i, _). i = m) cs))"
    using cs(2) by (auto simp: list_all_iff)
  ultimately show ?thesis using live_appended [OF assms(1)] by metis
qed

lemma reap_client_series:
  assumes "prom_contract live" "reap_client E c (reg, w) = (reg', w')" "list_all (\<lambda>(_, c). call_ok c) (prom w)"
    and "live (calls_on (r_metrics reg) w) \<subseteq> set (series ids)" "set ids \<subseteq> insert (c_id c) (set ids')"
  shows "live (calls_on (r_metrics reg) w') \<subseteq> set (series ids')"
proof -
  define t where "t = calls_on (r_metrics reg) w @ [Direct client_disconnect_total Inc, Direct active_participants Dec]"
  have "calls_on (r_metrics reg) w' = t @ reap_dead_peer (c_id c)"
    using assms(2) by (auto simp: reap_client_def Let_def t_def calls_on_emit arc_drop_def
        inc_client_disconnect_def dec_active_participants_def)
  moreover have "list_all call_ok t"
    using assms(3) by (auto simp: t_def calls_on_def list_all_iff)
  moreover have "live t = live (calls_on (r_metrics reg) w)"
  proof -
    have "live ((calls_on (r_metrics reg) w @ [Direct client_disconnect_total Inc]) @ [Direct active_participants Dec])
      = live (calls_on (r_metrics reg) w)"
      using assms(1) unfolding prom_contract_def by metis
    then show ?thesis by (simp add: t_def)
  qed
  ultimately have "live (calls_on (r_metrics reg) w')
      = {(m, ls) \<in> live (calls_on (r_metrics reg) w). \<not> (per_peer m \<and> hd ls = peer_label (c_id c))}"
    using live_reap_dead_peer [OF assms(1)] by simp
  with assms(4,5) show ?thesis by (auto intro: series_survives)
qed

lemma reap_fold_series:
  assumes "prom_contract live"
    and "foldl (\<lambda>s c. if \<not> client_is_alive E c then reap_client E c s else s) (reg, w) cs = (reg', w')"
    and "list_all (\<lambda>(_, c). call_ok c) (prom w)" "live (calls_on (r_metrics reg) w) \<subseteq> set (series ids)"
    and "set ids \<subseteq> set ids' \<union> c_id ` {c \<in> set cs. \<not> client_is_alive E c}"
  shows "live (calls_on (r_metrics reg) w') \<subseteq> set (series ids')"
  using assms(2-5)
proof (induction cs arbitrary: reg w ids)
  case Nil
  then show ?case using series_mono by fastforce
next
  case (Cons c cs)
  show ?case
  proof (cases "client_is_alive E c")
    case True
    with Cons.IH [of reg w ids] Cons.prems show ?thesis by (simp add: conj_disj_distribR Collect_disj_eq) blast
  next
    case False
    obtain reg1 w1 where 1: "reap_client E c (reg, w) = (reg1, w1)" by fastforce
    have r: "r_metrics reg1 = r_metrics reg" "logs [] w w1" using reap_client_logs [OF 1, of "[]"] by simp_all
    have "live (calls_on (r_metrics reg) w1) \<subseteq> set (series (removeAll (c_id c) ids))"
      by (rule reap_client_series [OF assms(1) 1 Cons.prems(2,3)]) auto
    moreover have "list_all (\<lambda>(_, c). call_ok c) (prom w1)"
      using logs_call_ok [OF r(2) Cons.prems(2)] .
    moreover have "set (removeAll (c_id c) ids) \<subseteq> set ids' \<union> c_id ` {c \<in> set cs. \<not> client_is_alive E c}"
      using Cons.prems(4) by auto
    ultimately show ?thesis
      using Cons.IH [of reg1 w1 "removeAll (c_id c) ids"] Cons.prems(1) 1 False r(1) by simp
  qed
qed

text \<open>The scores that the detector reports are those of registered peers.\<close>

definition scores_contract :: "('r, 'd, 'p, 't) env \<Rightarrow> ('d \<Rightarrow> u64 set) \<Rightarrow> bool" where
  "scores_contract E peers \<longleftrightarrow> (\<forall>d. fst ` set (det_peer_scores E d) \<subseteq> peers d)"

lemma room_step_series:
  assumes "room_step E (reg, w) (reg', w')" "prom_contract live" "scores_contract E peers"
    and "room_ok peers (r_clients reg) reg w" "list_all (\<lambda>(_, c). call_ok c) (prom w)"
    and "live (calls_on (r_metrics reg) w) \<subseteq> set (series (map c_id (r_clients reg)))"
  shows "live (calls_on (r_metrics reg') w') \<subseteq> set (series (map c_id (r_clients reg')))"
proof -
  have m: "r_metrics reg' = r_metrics reg"
    and "reap_dead E reg w = (reg', w') \<or> set (map c_id (r_clients reg)) \<subseteq> set (map c_id (r_clients reg'))
         \<and> logs (map c_id (r_clients reg') @ score_ids E reg) w w'"
    using room_step_logs [OF assms(1)] by auto
  from this(2) show ?thesis unfolding m
  proof
    assume "reap_dead E reg w = (reg', w')"
    then obtain reg1 where f: "foldl (\<lambda>s c. if \<not> client_is_alive E c then reap_client E c s else s) (reg, w) (r_clients reg) = (reg1, w')"
      and reg': "reg' = reg1\<lparr>r_clients := filter (client_is_alive E) (r_clients reg1)\<rparr>"
      by (auto simp: reap_dead_def Let_def split: prod.splits)
    have "r_clients reg1 = r_clients reg"
      using foldl_reap_clients [OF f] .
    then show "live (calls_on (r_metrics reg) w') \<subseteq> set (series (map c_id (r_clients reg')))"
      by (intro reap_fold_series [OF assms(2) f assms(5,6)]) (auto simp: reg')
  next
    assume l: "set (map c_id (r_clients reg)) \<subseteq> set (map c_id (r_clients reg'))
      \<and> logs (map c_id (r_clients reg') @ score_ids E reg) w w'"
    have "set (score_ids E reg) \<subseteq> peers (r_detector reg)"
      using assms(3) by (simp add: score_ids_def peer_audio_scores_def scores_contract_def)
    also have "\<dots> \<subseteq> set (map c_id (r_clients reg))"
      using assms(4) by (auto simp: room_ok_def registered_def)
    finally have "set (map c_id (r_clients reg') @ score_ids E reg) \<subseteq> set (map c_id (r_clients reg'))"
      using l by auto
    with l have "logs (map c_id (r_clients reg')) w w'" by (blast intro: logs_mono)
    from live_logs [OF assms(2) this] series_mono [of "map c_id (r_clients reg)" "map c_id (r_clients reg')"] l assms(6)
    show "live (calls_on (r_metrics reg) w') \<subseteq> set (series (map c_id (r_clients reg')))" by fastforce
  qed
qed

text \<open>
  C9: The exposed series stay bounded by the clients present. Whatever peers have joined, spoken, sent
  statistics and left before, the series of the room's metrics are among those of the registered metrics
  with documented label values and peer labels of clients that are in the room now, so there are at most
  eighteen plus thirteen per client: reaping leaves no series of a departed peer behind and no
  later operation brings one back.
\<close>

theorem series_bounded:
  assumes "room_reachable E reg w" "detector_contract E peers" "scores_contract E peers" "prom_contract live"
  shows "live (calls_on (r_metrics reg) w) \<subseteq> set (series (map c_id (r_clients reg)))
    \<and> card (live (calls_on (r_metrics reg) w)) \<le> 18 + 13 * length (r_clients reg)"
proof -
  have sub: "live (calls_on (r_metrics reg) w) \<subseteq> set (series (map c_id (r_clients reg)))
      \<and> list_all (\<lambda>(_, c). call_ok c) (prom w)"
    using assms(1)
  proof (induction rule: room_reachable.induct)
    case (start w m reg w')
    then show ?case
      using assms(4) by (auto simp: Registry_new_def fresh_world_def instant_now_def calls_on_def prom_contract_def)
  next
    case (step reg w reg' w')
    have "list_all (\<lambda>(_, c). call_ok c) (prom w')"
      using room_step_logs [OF step(2)] step(3) logs_call_ok by blast
    with room_step_series [OF step(2) assms(4,3) room_reachable_ok [OF step(1) assms(2)]] step(3) show ?case by blast
  qed
  then have "card (live (calls_on (r_metrics reg) w)) \<le> card (set (series (map c_id (r_clients reg))))"
    by (intro card_mono) auto
  also have "\<dots> \<le> length (series (map c_id (r_clients reg)))" by (rule card_length)
  finally show ?thesis using sub by (simp add: length_series)
qed

theorem series_bounded_witness:
  "card (foldl live_call {} (calls_on (r_metrics (fst demo_room)) (snd demo_room))) \<le> 44"
proof -
  have "scores_contract script_env set" by (auto simp: scores_contract_def script_env_def)
  from series_bounded [OF demo_room_reachable script_contract this live_call_contract]
  show ?thesis by (simp add: demo_room_clients)
qed

end
