(* ===== verification/Operations.thy ===== *)
theory Operations
  imports Room
begin

text \<open>
  What each call of the registry's interface does to the clients. \<open>room_call\<close> is \<open>room_step\<close> with a label that tells which
  call was made, at what instant, and what it was given; the effect of each label on ids, tracks and pacers is a lemma.
  A call of \<^verbatim>\<open>fanout_pending\<close> or \<^verbatim>\<open>update_pacer_layers\<close> ticks the pacer of a client at most once, on a budget of the bandwidth
  estimator; no other call touches a pacer.
\<close>

section \<open>Calls\<close>

text \<open>The budgets the estimator has for a client at an instant: none or one.\<close>

definition budgets :: "BandwidthEstimator \<Rightarrow> instant \<Rightarrow> client_id \<Rightarrow> u64 set" where
  "budgets bw now i = fst ` set_option (estimate_with_term bw i now)"

text \<open>The estimator after the budget hints among some events, and the budgets it has for \<open>i\<close> at the media packets of others in a queue.\<close>

fun take_hint :: "instant \<Rightarrow> ('p, 't) Propagated \<Rightarrow> BandwidthEstimator \<Rightarrow> BandwidthEstimator" where
  "take_hint now (ClientBudgetHint i bps) bw = record_client_hint bw i bps now"
| "take_hint now _ bw = bw"

fun media_origin :: "('p, 't) Propagated \<Rightarrow> client_id option" where
  "media_origin (MediaDataEv i _) = Some i"
| "media_origin _ = None"

definition packet_budgets :: "BandwidthEstimator \<Rightarrow> instant \<Rightarrow> ('p, 't) Propagated \<Rightarrow> client_id \<Rightarrow> u64 set" where
  "packet_budgets bw now p i = (if media_origin p \<in> {None, Some i} then {} else budgets bw now i)"

definition fan_budgets :: "BandwidthEstimator \<Rightarrow> instant \<Rightarrow> ('p, 't) Propagated list \<Rightarrow> client_id \<Rightarrow> u64 set" where
  "fan_budgets bw now q i = (\<Union>k < length q. packet_budgets (fold (take_hint now) (take k q) bw) now (q ! k) i)"

datatype room_op =
    Join client_id bool
  | Poll
  | Adapt instant "client_id \<Rightarrow> u64 set"
  | Reap "client_id set"
  | Other

inductive room_call ::
    "('r, 'd, 'p, 't) env \<Rightarrow> room_op \<Rightarrow> ('r, 'd, 'p, 't) Registry \<times> world \<Rightarrow> ('r, 'd, 'p, 't) Registry \<times> world \<Rightarrow> bool"
  for E :: "('r, 'd, 'p, 't) env" where
  join: "Client_new rtc m w = Some (c, w1) \<Longrightarrow> configured c d \<Longrightarrow> id_counter w \<noteq> - 1
    \<Longrightarrow> insert_client E reg d w1 = (reg', w') \<Longrightarrow> room_call E (Join (id_counter w) (is_relay d)) (reg, w) (reg', w')"
| poll: "poll_all E fuel now reg w = Some (reg', deadline, w') \<Longrightarrow> room_call E Poll (reg, w) (reg', w')"
| fan: "fanout_pending E reg w = Some (reg', w') \<Longrightarrow> now = clock w (clock_reads w)
    \<Longrightarrow> room_call E (Adapt now (fan_budgets (r_bandwidth reg) now (r_to_propagate reg))) (reg, w) (reg', w')"
| pace: "update_pacer_layers i now reg w = Some (reg', w')
    \<Longrightarrow> room_call E (Adapt now (\<lambda>j. if j = i then {} else budgets (r_bandwidth reg) now j)) (reg, w) (reg', w')"
| reap: "reap_dead E reg w = (reg', w')
    \<Longrightarrow> room_call E (Reap (c_id ` {c \<in> set (r_clients reg). \<not> client_is_alive E c})) (reg, w) (reg', w')"
| incoming: "handle_incoming E reg src dst payload w = (reg', b, w') \<Longrightarrow> room_call E Other (reg, w) (reg', w')"
| audio: "room_call E Other (reg, w) (record_audio_level E reg i l now, w)"
| twcc: "room_call E Other (reg, w) (Registry_on_twcc_feedback reg i fb now, w)"
| googcc: "room_call E Other (reg, w) (Registry_enable_googcc reg i, w)"
| ceiling: "room_call E Other (reg, w) (googcc_ceiling_for_subscriber_mut reg i g, w)"
| speaker: "tick_active_speaker E now reg w = (reg', w') \<Longrightarrow> room_call E Other (reg, w) (reg', w')"
| scores: "room_call E Other (reg, w) (reg, tick_speaker_scores E reg w)"
| clock: "room_call E Other (reg, w) (tick E now reg, w)"
| hints: "room_call E Other (reg, w) (emit_publisher_layer_hints E reg w, w)"
| drain: "drain_transmits reg = (reg', out) \<Longrightarrow> room_call E Other (reg, w) (reg', w)"
| read_clock: "instant_now w = (now, w') \<Longrightarrow> room_call E Other (reg, w) (reg, w')"

lemma room_step_call: "room_step E s s' \<longleftrightarrow> (\<exists>op. room_call E op s s')"
proof
  show "room_step E s s' \<Longrightarrow> \<exists>op. room_call E op s s'"
    by (induction rule: room_step.induct) (blast intro: room_call.intros)+
  have "room_call E op s s' \<Longrightarrow> room_step E s s'" for op
    by (induction rule: room_call.induct) (blast intro: room_step.intros)+
  then show "\<exists>op. room_call E op s s' \<Longrightarrow> room_step E s s'" by blast
qed

section \<open>Ticks\<close>

text \<open>The pacer of a client takes one step on a budget of \<open>B\<close> at \<open>now\<close>, late enough after its latest; or it is left alone.\<close>

definition ticks :: "instant \<Rightarrow> (client_id \<Rightarrow> u64 set) \<Rightarrow> 'r Client \<Rightarrow> 'r Client \<Rightarrow> bool" where
  "ticks now B c c' \<longleftrightarrow> (\<exists>b \<in> B (c_id c). \<exists>a. update (c_pacer c) b = Some (c_pacer c', a))
     \<and> c_last_pacer_drive c' = Some now
     \<and> (\<forall>l. c_last_pacer_drive c = Some l \<longrightarrow> l + PACER_MIN_TICK_INTERVAL \<le> now)"

definition idles :: "'r Client \<Rightarrow> 'r Client \<Rightarrow> bool" where
  "idles c c' \<longleftrightarrow> c_pacer c' = c_pacer c \<and> c_last_pacer_drive c' = c_last_pacer_drive c"

definition same_peer :: "'r Client \<Rightarrow> 'r Client \<Rightarrow> bool" where
  "same_peer c c' \<longleftrightarrow> c_id c' = c_id c \<and> is_relay c' = is_relay c"

definition paced :: "instant \<Rightarrow> (client_id \<Rightarrow> u64 set) \<Rightarrow> 'r Client \<Rightarrow> 'r Client \<Rightarrow> bool" where
  "paced now B c c' \<longleftrightarrow> same_peer c c' \<and> arc_ids c' = arc_ids c \<and> (idles c c' \<or> ticks now B c c')"

lemma paced_fixed: "fixed c' = fixed c \<Longrightarrow> arc_ids c' = arc_ids c \<Longrightarrow> paced now B c c'"
  by (simp add: fixed_eq_iff paced_def idles_def same_peer_def is_relay_def)

lemma paced_refl [simp]: "paced now B c c"
  by (simp add: paced_fixed)

lemma paced_mono: "paced now A c c' \<Longrightarrow> (\<And>i. A i \<subseteq> B i) \<Longrightarrow> paced now B c c'"
  by (fastforce simp: paced_def ticks_def)

text \<open>Two ticks at one instant are impossible, so at a fixed instant the relation composes.\<close>

lemma paced_trans:
  assumes "paced now B c c1" "paced now B c1 c2"
  shows "paced now B c c2"
proof -
  have "\<not> (ticks now B c c1 \<and> ticks now B c1 c2)"
    by (auto simp: ticks_def PACER_MIN_TICK_INTERVAL_def from_millis_def)
  with assms show ?thesis by (auto simp: paced_def idles_def ticks_def same_peer_def)
qed

lemma all_paced_trans:
  "list_all2 (paced now B) cs cs1 \<Longrightarrow> list_all2 (paced now B) cs1 cs2 \<Longrightarrow> list_all2 (paced now B) cs cs2"
  by (rule list_all2_trans [where ?P1.0 = "paced now B"]) (auto intro: paced_trans)

lemma all_paced_fixed:
  "map fixed cs' = map fixed cs \<Longrightarrow> map arc_ids cs' = map arc_ids cs \<Longrightarrow> list_all2 (paced now B) cs cs'"
  by (induction cs' cs rule: list_induct2') (auto intro: paced_fixed)

lemma drive_pacer_fields:
  assumes "drive_pacer c b = Some (c', a)"
  shows "update (c_pacer c) b = Some (c_pacer c', a) \<and> c_id c' = c_id c
    \<and> c_last_pacer_drive c' = c_last_pacer_drive c"
proof -
  obtain p where "update (c_pacer c) b = Some (p, a)"
    and "c' = (case a of ChangeLayer rid \<Rightarrow> set_desired_layer (c\<lparr>c_pacer := p\<rparr>) rid | _ \<Rightarrow> c\<lparr>c_pacer := p\<rparr>)"
    using assms by (auto simp: drive_pacer_def Let_def)
  then show ?thesis by (simp add: set_desired_layer_def split: PacerAction.split)
qed

lemma pacer_round_frame:
  fixes evs :: "('p, 't) Propagated list"
  assumes "pacer_round bw m origin now c w = Some (c', evs, w')" "client_ok c"
  shows "client_ok c' \<and> ident c' = ident c \<and> quiet w w'"
proof -
  obtain c1 w1 and evs1 :: "('p, 't) Propagated list" where
    "pacer_round bw m origin now c w = Some (c1, evs1, w1)" "client_ok c1 \<and> ident c1 = ident c \<and> quiet w w1"
    using pacer_round_ok [OF assms(2)] by blast
  with assms(1) show ?thesis by auto
qed

lemma pacer_round_ticks:
  fixes evs :: "('p, 't) Propagated list"
  assumes "pacer_round bw m origin now c w = Some (c', evs, w')"
  shows "idles c c' \<or> ticks now (\<lambda>j. if j = origin then {} else budgets bw now j) c c'"
proof (cases "c_id c = origin \<or> estimate_with_term bw (c_id c) now = None")
  case True
  then have "pacer_round bw m origin now c w = Some (c, [] :: ('p, 't) Propagated list, w)"
    by (auto simp: pacer_round_def)
  with assms show ?thesis by (simp add: idles_def)
next
  case False
  then obtain b t where est: "estimate_with_term bw (c_id c) now = Some (b, t)" and ne: "c_id c \<noteq> origin" by auto
  obtain c1 ready where r: "pacer_tick_ready c now PACER_MIN_TICK_INTERVAL = (c1, ready)" by fastforce
  show ?thesis
  proof (cases ready)
    case no: False
    with r have "c1 = c" by (auto simp: pacer_tick_ready_def Let_def split: if_splits)
    with assms est ne r no show ?thesis by (auto simp: pacer_round_def idles_def)
  next
    case True
    with r have c1: "c1 = c\<lparr>c_last_pacer_drive := Some now\<rparr>"
      and gap: "\<forall>l. c_last_pacer_drive c = Some l \<longrightarrow> l + PACER_MIN_TICK_INTERVAL \<le> now"
      by (auto simp: pacer_tick_ready_def Let_def duration_since_def PACER_MIN_TICK_INTERVAL_def from_millis_def
          split: if_splits option.splits)
    obtain c2 a where d: "drive_pacer c1 b = Some (c2, a)"
      using assms est ne r True by (auto simp: pacer_round_def Let_def split: option.splits)
    have "c_pacer c' = c_pacer c2 \<and> c_last_pacer_drive c' = c_last_pacer_drive c2"
      using assms est ne r True d c1
      by (auto simp: pacer_round_def set_suspended_def Let_def split: option.splits prod.splits)
    moreover have "b \<in> budgets bw now (c_id c)" using est by (force simp: budgets_def)
    ultimately show ?thesis using drive_pacer_fields [OF d] c1 gap ne by (auto simp: ticks_def)
  qed
qed

lemma pacer_round_paced:
  fixes evs :: "('p, 't) Propagated list"
  assumes "pacer_round bw m origin now c w = Some (c', evs, w')" "client_ok c"
  shows "paced now (\<lambda>j. if j = origin then {} else budgets bw now j) c c' \<and> quiet w w'"
  using pacer_round_ticks [OF assms(1)] pacer_round_frame [OF assms] by (auto simp: paced_def ident_def same_peer_def)

lemma pacer_rounds_paced:
  fixes evs :: "('p, 't) Propagated list"
  assumes "pacer_rounds bw m origin now cs w = Some (cs', evs, w')" "list_all client_ok cs"
  shows "list_all2 (paced now (\<lambda>j. if j = origin then {} else budgets bw now j)) cs cs' \<and> quiet w w'"
  using assms
proof (induction cs arbitrary: w cs' evs)
  case (Cons c cs)
  then obtain c1 w1 cs1 and evs1 evs2 :: "('p, 't) Propagated list" where
    1: "pacer_round bw m origin now c w = Some (c1, evs1, w1)"
    and 2: "pacer_rounds bw m origin now cs w1 = Some (cs1, evs2, w')" and [simp]: "cs' = c1 # cs1"
    by (auto split: option.splits)
  with pacer_round_paced [OF 1] Cons.IH [OF 2] Cons.prems(2) show ?case by (auto intro: quiet_trans)
qed simp

lemma update_pacer_layers_paced:
  fixes reg :: "('r, 'd, 'p, 't) Registry"
  assumes "update_pacer_layers i now reg w = Some (reg', w')" "list_all client_ok (r_clients reg)"
  shows "list_all2 (paced now (\<lambda>j. if j = i then {} else budgets (r_bandwidth reg) now j)) (r_clients reg) (r_clients reg')
    \<and> quiet w w' \<and> r_bandwidth reg' = r_bandwidth reg"
proof -
  obtain cs and evs :: "('p, 't) Propagated list" where
    "pacer_rounds (r_bandwidth reg) (r_metrics reg) i now (r_clients reg) w = Some (cs, evs, w')"
    "reg' = reg\<lparr>r_clients := cs, r_to_propagate := r_to_propagate reg @ evs\<rparr>"
    using assms(1) by (auto simp: update_pacer_layers_def split: option.splits)
  with pacer_rounds_paced assms(2) show ?thesis by fastforce
qed

section \<open>Fan-out\<close>

lemma fanout_paced:
  assumes "fanout E p cs w = (cs', w')"
  shows "list_all2 (paced now B) cs cs' \<and> quiet w w'"
proof (cases "is_track_open p")
  case True
  then obtain i a where "p = TrackOpen i a" by (cases p) auto
  moreover have "paced now B c (handle_track_open c a)" for c
    by (simp add: paced_def idles_def same_peer_def handle_track_open_def arc_ids_def is_relay_def)
  ultimately show ?thesis using assms by (auto simp: fanout_track_open list_all2_conv_all_nth)
next
  case False
  with fanout_frame [OF assms] show ?thesis by (auto intro: all_paced_fixed)
qed

text \<open>Events that feed no pacer and no estimator.\<close>

fun inert :: "('p, 't) Propagated \<Rightarrow> bool" where
  "inert (MediaDataEv _ _) = False"
| "inert (ClientBudgetHint _ _) = False"
| "inert _ = True"

lemma inert_hint: "inert p \<Longrightarrow> take_hint now p bw = bw"
  by (cases p) auto

lemma inert_budgets: "inert p \<Longrightarrow> packet_budgets bw now p = (\<lambda>i. {})"
  by (cases p) (auto simp: packet_budgets_def fun_eq_iff)

lemma pacer_round_inert:
  assumes "pacer_round bw m origin now c w = Some (c', evs, w')"
  shows "list_all inert evs"
proof -
  have "apply_pacer_action a i = (Some ev, b) \<Longrightarrow> inert ev" for ev a i b by (cases a) auto
  with assms show ?thesis by (auto simp: pacer_round_def Let_def split: if_splits option.splits prod.splits)
qed

lemma pacer_rounds_inert:
  fixes evs :: "('p, 't) Propagated list"
  assumes "pacer_rounds bw m origin now cs w = Some (cs', evs, w')"
  shows "list_all inert evs"
  using assms
proof (induction cs arbitrary: w cs' evs)
  case (Cons c cs)
  then obtain c1 w1 cs1 and evs1 evs2 :: "('p, 't) Propagated list" where
    "pacer_round bw m origin now c w = Some (c1, evs1, w1)"
    "pacer_rounds bw m origin now cs w1 = Some (cs1, evs2, w')" "evs = evs1 @ evs2"
    by (auto split: option.splits)
  with pacer_round_inert Cons.IH show ?case by fastforce
qed simp

lemma fanout_one_paced:
  fixes reg :: "('r, 'd, 'p, 't) Registry"
  assumes "fanout_one E now p reg w = Some (reg', w')" "list_all client_ok (r_clients reg)"
  shows "list_all2 (paced now (packet_budgets (r_bandwidth reg) now p)) (r_clients reg) (r_clients reg')
    \<and> quiet w w' \<and> r_bandwidth reg' = take_hint now p (r_bandwidth reg)
    \<and> (\<exists>evs. r_to_propagate reg' = r_to_propagate reg @ evs \<and> list_all inert evs)"
proof (cases p)
  case (MediaDataEv origin d)
  then obtain reg1 w1 where 1: "update_pacer_layers origin now reg w = Some (reg1, w1)"
    using assms(1) by (auto simp: fanout_one_def)
  obtain cs w2 where 2: "fanout E p (r_clients reg1) w1 = (cs, w2)" by fastforce
  with assms(1) 1 MediaDataEv have reg': "reg' = reg1\<lparr>r_clients := cs\<rparr>" "w' = w2" by (auto simp: fanout_one_def)
  have B: "packet_budgets (r_bandwidth reg) now p = (\<lambda>j. if j = origin then {} else budgets (r_bandwidth reg) now j)"
    by (simp add: MediaDataEv packet_budgets_def fun_eq_iff)
  have "\<exists>evs. r_to_propagate reg1 = r_to_propagate reg @ evs \<and> list_all inert evs"
    using 1 by (auto simp: update_pacer_layers_def dest: pacer_rounds_inert split: option.splits)
  with update_pacer_layers_paced [OF 1 assms(2)] fanout_paced [OF 2] show ?thesis
    unfolding B reg' by (auto intro: all_paced_trans quiet_trans simp: MediaDataEv)
next
  case (ClientBudgetHint i bps)
  with assms(1) show ?thesis by (auto simp: fanout_one_def list_all2_same)
qed (use assms(1) in \<open>auto simp: fanout_one_def dest: fanout_paced split: prod.splits\<close>)

lemma fanout_loop_paced:
  fixes reg :: "('r, 'd, 'p, 't) Registry"
  assumes "fanout_loop E now reg w = Some (reg', w')" "room_ok peers (r_clients reg) reg w"
    and "r_bandwidth reg = fold (take_hint now) (take k q) bw" "r_to_propagate reg = drop k q @ extra" "list_all inert extra"
  shows "list_all2 (paced now (fan_budgets bw now q)) (r_clients reg) (r_clients reg') \<and> quiet w w'"
  using assms
proof (induction E now reg w arbitrary: k extra rule: fanout_loop.induct)
  case (1 E now reg w)
  show ?case
  proof (cases "r_to_propagate reg")
    case Nil
    with "1.prems"(1) show ?thesis by (simp add: fanout_loop.simps [of E now reg] list_all2_same)
  next
    case (Cons p ps)
    let ?reg = "reg\<lparr>r_to_propagate := ps\<rparr>"
    obtain reg1 w1 where one: "fanout_one E now p ?reg w = Some (reg1, w1)" "room_ok peers (r_clients reg1) reg1 w1"
      using fanout_one_ok [OF "1.prems"(2) Cons] by blast
    with "1.prems"(1) Cons have loop: "fanout_loop E now reg1 w1 = Some (reg', w')"
      by (simp add: fanout_loop.simps [of E now reg])
    have "list_all client_ok (r_clients ?reg)" using "1.prems"(2) by (simp add: room_ok_def)
    from fanout_one_paced [OF one(1) this] obtain evs where
      p: "list_all2 (paced now (packet_budgets (r_bandwidth reg) now p)) (r_clients reg) (r_clients reg1)" "quiet w w1"
        "r_bandwidth reg1 = take_hint now p (r_bandwidth reg)" "r_to_propagate reg1 = ps @ evs" "list_all inert evs"
      by auto
    note IH = "1.IH" [OF Cons one(1) refl loop one(2)]
    have upto: ?thesis
      if "list_all2 (paced now (fan_budgets bw now q)) (r_clients reg) (r_clients reg1)"
        "r_bandwidth reg1 = fold (take_hint now) (take k' q) bw" "ps = drop k' q @ extra'" "list_all inert extra'" for k' extra'
      using IH [OF that(2), of "extra' @ evs"] that p(2,4,5) by (auto intro: all_paced_trans quiet_trans)
    show ?thesis
    proof (cases "k < length q")
      case True
      then have d: "drop k q = q ! k # drop (Suc k) q" "take (Suc k) q = take k q @ [q ! k]"
        by (simp_all add: Cons_nth_drop_Suc take_Suc_conv_app_nth)
      then have "p = q ! k" "ps = drop (Suc k) q @ extra" using "1.prems"(4) Cons by auto
      moreover from this have "packet_budgets (r_bandwidth reg) now p i \<subseteq> fan_budgets bw now q i" for i
        unfolding "1.prems"(3) fan_budgets_def using True by auto
      ultimately show ?thesis
        using p(1,3) d(2) "1.prems"(3,5) by (intro upto [of "Suc k" extra]) (auto intro: list_all2_mono paced_mono)
    next
      case False
      then have e: "extra = p # ps" using "1.prems"(4) Cons by simp
      with "1.prems"(5) have "inert p" "list_all inert ps" by simp_all
      with p(1,3) False "1.prems"(3) show ?thesis
        by (intro upto [of k ps]) (auto simp: inert_hint inert_budgets intro: list_all2_mono paced_mono)
    qed
  qed
qed

lemma fanout_pending_paced:
  fixes reg :: "('r, 'd, 'p, 't) Registry"
  assumes "fanout_pending E reg w = Some (reg', w')" "room_ok peers (r_clients reg) reg w"
    and "now = clock w (clock_reads w)"
  shows "list_all2 (paced now (fan_budgets (r_bandwidth reg) now (r_to_propagate reg))) (r_clients reg) (r_clients reg')
    \<and> quiet w w'"
proof -
  let ?w = "w\<lparr>clock_reads := Suc (clock_reads w)\<rparr>"
  have q: "quiet w ?w" by (rule quiet_clock) simp_all
  have "room_ok peers (r_clients reg) reg ?w" by (rule room_ok_same [OF assms(2)]) (use q in auto)
  moreover have "fanout_loop E now reg ?w = Some (reg', w')"
    using assms(1,3) by (simp add: fanout_pending_def instant_now_def)
  ultimately show ?thesis
    using fanout_loop_paced [of E now reg ?w reg' w' peers 0 "r_to_propagate reg" "r_bandwidth reg" "[]"] q
    by (auto intro: quiet_trans)
qed

section \<open>The other calls\<close>

lemma call_other:
  fixes reg :: "('r, 'd, 'p, 't) Registry"
  assumes "room_call E Other (reg, w) (reg', w')"
  shows "map fixed (r_clients reg') = map fixed (r_clients reg)"
    "map arc_ids (r_clients reg') = map arc_ids (r_clients reg)" "quiet w w'"
proof -
  have "map fixed (r_clients reg') = map fixed (r_clients reg) \<and> map arc_ids (r_clients reg') = map arc_ids (r_clients reg)
      \<and> quiet w w'"
    using assms
  proof (cases rule: room_call.cases)
    case (incoming src dst payload b)
    from handle_incoming_frame [OF incoming] show ?thesis by simp
  next
    case (speaker now)
    then show ?thesis
      by (auto simp: tick_active_speaker_def push_back_def Let_def intro!: quiet_intros split: prod.splits option.splits)
  next
    case scores
    with quiet_speaker_scores show ?thesis by auto
  next
    case (read_clock now)
    then show ?thesis by (auto simp: instant_now_def intro: quiet_clock)
  next
    case (drain out)
    then show ?thesis by (auto simp: drain_transmits_def Let_def)
  qed (simp_all add: record_audio_level_def tick_def Registry_on_twcc_feedback_def
      Registry_enable_googcc_def googcc_ceiling_for_subscriber_mut_def emit_publisher_layer_hints_def foldl_push_back comp_def)
  then show "map fixed (r_clients reg') = map fixed (r_clients reg)"
    "map arc_ids (r_clients reg') = map arc_ids (r_clients reg)" "quiet w w'" by simp_all
qed

lemma call_poll:
  fixes reg :: "('r, 'd, 'p, 't) Registry"
  assumes "poll_all E fuel now reg w = Some (reg', deadline, w')"
  shows "map fixed (r_clients reg') = map fixed (r_clients reg)"
proof -
  have one: "fixed c' = fixed c" if "poll_client E fuel now c (reg, dl, tm, w) = Some (c', reg', dl', tm', w')"
    for c c' :: "'r Client" and reg reg' :: "('r, 'd, 'p, 't) Registry" and dl dl' tm tm' w w'
  proof -
    have "fixed c' = fixed c \<and> dl' \<le> dl"
      by (rule poll_client_rule [OF that, where P = "\<lambda>d _ _. fixed d = fixed c"]) (simp_all add: polls_def)
    then show ?thesis ..
  qed
  have all: "map fixed cs' = map fixed cs" if "poll_clients E fuel now cs (reg, dl, tm, w) = Some (cs', reg', dl', tm', w')"
    for cs cs' :: "'r Client list" and reg reg' :: "('r, 'd, 'p, 't) Registry" and dl dl' tm tm' w w'
    using that
  proof (induction cs arbitrary: cs' reg dl tm w)
    case (Cons c cs)
    then obtain c1 reg1 dl1 tm1 w1 cs1 where
      "poll_client E fuel now c (reg, dl, tm, w) = Some (c1, reg1, dl1, tm1, w1)"
      "poll_clients E fuel now cs (reg1, dl1, tm1, w1) = Some (cs1, reg', dl', tm', w')" "cs' = c1 # cs1"
      by (auto split: option.splits)
    note call = this
    have "fixed c1 = fixed c" by (rule one [OF call(1)])
    moreover have "map fixed cs1 = map fixed cs" by (rule Cons.IH [OF call(2)])
    ultimately show ?case using call(3) by simp
  qed simp
  show ?thesis
    using assms by (auto simp: poll_all_def Let_def dest: all split: option.splits)
qed

lemma call_join:
  assumes "insert_client E reg d w = (reg', w')"
  shows "\<exists>n. r_clients reg' = r_clients reg @ [n]"
  using assms by (auto simp: insert_client_def Let_def split: prod.splits if_splits)

lemma call_reap:
  assumes "reap_dead E reg w = (reg', w')"
  shows "r_clients reg' = filter (client_is_alive E) (r_clients reg)"
proof -
  let ?f = "\<lambda>s c. if \<not> client_is_alive E c then reap_client E c s else s"
  have keep: "r_clients (fst (foldl ?f s cs)) = r_clients (fst s)" for cs s
    by (induction cs arbitrary: s) (auto simp: reap_client_def Let_def split_beta)
  obtain reg1 w1 where "foldl ?f (reg, w) (r_clients reg) = (reg1, w1)" by fastforce
  with keep [of "(reg, w)" "r_clients reg"] assms show ?thesis by (auto simp: reap_dead_def)
qed

section \<open>A client over a history of calls\<close>

definition client_of :: "client_id \<Rightarrow> ('r, 'd, 'p, 't) Registry \<times> world \<Rightarrow> 'r Client option" where
  "client_of i s = find (\<lambda>c. c_id c = i) (r_clients (fst s))"

fun room_run ::
    "('r, 'd, 'p, 't) env \<Rightarrow> ('r, 'd, 'p, 't) Registry \<times> world
     \<Rightarrow> (room_op \<times> ('r, 'd, 'p, 't) Registry \<times> world) list \<Rightarrow> bool" where
  "room_run E s [] \<longleftrightarrow> True"
| "room_run E s ((op, s') # h) \<longleftrightarrow> room_call E op s s' \<and> room_run E s' h"

text \<open>The calls of a history in which the pacer of client \<open>i\<close>, or the stamp of its latest tick, changed.\<close>

fun drives ::
    "client_id \<Rightarrow> ('r, 'd, 'p, 't) Registry \<times> world \<Rightarrow> (room_op \<times> ('r, 'd, 'p, 't) Registry \<times> world) list \<Rightarrow> room_op list" where
  "drives i s [] = []"
| "drives i s ((op, s') # h) =
     (case (client_of i s, client_of i s') of
        (Some c, Some c') \<Rightarrow> if idles c c' then [] else [op]
      | _ \<Rightarrow> []) @ drives i s' h"

lemma find_list_all2:
  "list_all2 R xs ys \<Longrightarrow> (\<And>x y. R x y \<Longrightarrow> P x = P y) \<Longrightarrow> find P xs = Some x \<Longrightarrow> \<exists>y. find P ys = Some y \<and> R x y"
  by (induction xs ys rule: list_all2_induct) (auto split: if_splits)

lemma find_filter_distinct:
  assumes "distinct (map f xs)" "find (\<lambda>x. f x = i) xs = Some x" "find (\<lambda>x. f x = i) (filter Q xs) = Some y"
  shows "x = y"
proof -
  have "x \<in> set xs" "y \<in> set xs" "f x = f y"
    using assms(2,3) by (auto simp: find_Some_iff dest!: nth_mem)
  with assms(1) show ?thesis by (auto simp: distinct_map inj_on_def)
qed

lemma room_call_client:
  fixes s :: "('r, 'd, 'p, 't) Registry \<times> world"
  assumes "room_call E op s s'" "room_ok peers (r_clients (fst s)) (fst s) (snd s)"
    and c: "client_of i s = Some c" and c': "client_of i s' = Some c'"
  shows "idles c c' \<or> (\<exists>now B. op = Adapt now B \<and> ticks now B c c')"
proof -
  have adapt: ?thesis if "list_all2 (paced now B) (r_clients (fst s)) (r_clients (fst s'))" "op = Adapt now B" for now B
    using find_list_all2 [OF that(1), of "\<lambda>c. c_id c = i" c] c c' that(2)
    by (auto simp: client_of_def paced_def same_peer_def)
  have fixed: ?thesis if "map fixed (r_clients (fst s')) = map fixed (r_clients (fst s))"
  proof -
    from that have "list_all2 (\<lambda>c c'. fixed c' = fixed c) (r_clients (fst s)) (r_clients (fst s'))"
      by (simp add: list_all2_conv_all_nth list_eq_iff_nth_eq)
    from find_list_all2 [OF this, of "\<lambda>c. c_id c = i" c] c c' show ?thesis
      by (auto simp: client_of_def fixed_eq_iff idles_def)
  qed
  have other: ?thesis if "op = Other"
    by (rule fixed, cases s, cases s') (use assms(1) that call_other(1) in auto)
  show ?thesis
    using assms(1)
  proof (cases rule: room_call.cases)
    case (join rtc m w c1 w1 d reg reg' w')
    from call_join [OF join(7)] join(1-3) c c' show ?thesis by (auto simp: client_of_def find_snoc idles_def)
  next
    case (poll fuel now reg w reg' deadline w')
    with call_poll [OF poll(4)] show ?thesis by (intro fixed) simp
  next
    case (fan reg w reg' w' now)
    with fanout_pending_paced [OF fan(4) _ fan(5)] assms(2) show ?thesis by (intro adapt) auto
  next
    case (pace i now reg w reg' w')
    with update_pacer_layers_paced [OF pace(4)] assms(2) show ?thesis by (intro adapt) (auto simp: room_ok_def)
  next
    case (reap reg w reg' w')
    with call_reap [OF reap(4)] c c' assms(2) find_filter_distinct [of c_id "r_clients (fst s)" i c] show ?thesis
      by (auto simp: client_of_def idles_def room_ok_def ids_ok_def)
  qed (rule other, assumption)+
qed

end
