(* ===== verification/Pacing.thy ===== *)
theory Pacing
  imports Operations Scripted
begin

text \<open>
  The pacer of one client over a history of calls of the registry: when it is ticked, by which calls, and on which
  budgets.
\<close>

section \<open>The pacer's tick floor\<close>

lemma room_run_ok:
  assumes "room_call E op s s'" "detector_contract E peers" "room_ok peers (r_clients (fst s)) (fst s) (snd s)"
  shows "room_ok peers (r_clients (fst s')) (fst s') (snd s')"
proof -
  have "room_step E (fst s, snd s) (fst s', snd s')" using assms(1) by (auto simp: room_step_call)
  from room_step_ok [OF this assms(2,3)] show ?thesis .
qed

lemma run_drives:
  assumes "detector_contract E peers"
  shows "room_run E s h \<Longrightarrow> room_ok peers (r_clients (fst s)) (fst s) (snd s)
    \<Longrightarrow> \<forall>s' \<in> set (map snd h). client_of i s' \<noteq> None \<Longrightarrow> client_of i s = Some c
    \<Longrightarrow> \<exists>c' ts as. client_of i (last (s # map snd h)) = Some c'
      \<and> list_all2 (\<lambda>op (t, b). \<exists>B. op = Adapt t B \<and> b \<in> B i) (drives i s h) ts
      \<and> sorted_wrt (\<lambda>s t. s + PACER_MIN_TICK_INTERVAL \<le> t) (map fst ts)
      \<and> (\<forall>l. c_last_pacer_drive c = Some l \<longrightarrow> (\<forall>t \<in> fst ` set ts. l + PACER_MIN_TICK_INTERVAL \<le> t))
      \<and> run (c_pacer c) (map snd ts) = Some (c_pacer c', as)"
proof (induction h arbitrary: s c)
  case (Cons e h)
  obtain op s1 where e: "e = (op, s1)" by (cases e)
  obtain c1 where c1: "client_of i s1 = Some c1" using Cons.prems(3) by (auto simp: e)
  have call: "room_call E op s s1" and rest: "room_run E s1 h" using Cons.prems(1) by (simp_all add: e)
  have id: "c_id c = i" using Cons.prems(4) by (auto simp: client_of_def find_Some_iff)
  obtain c' ts as where IH: "client_of i (last (s1 # map snd h)) = Some c'"
      "list_all2 (\<lambda>op (t, b). \<exists>B. op = Adapt t B \<and> b \<in> B i) (drives i s1 h) ts"
      "sorted_wrt (\<lambda>s t. s + PACER_MIN_TICK_INTERVAL \<le> t) (map fst ts)"
      "\<forall>l. c_last_pacer_drive c1 = Some l \<longrightarrow> (\<forall>t \<in> fst ` set ts. l + PACER_MIN_TICK_INTERVAL \<le> t)"
      "run (c_pacer c1) (map snd ts) = Some (c_pacer c', as)"
    using Cons.IH [OF rest room_run_ok [OF call assms Cons.prems(2)] _ c1] Cons.prems(3) by (auto simp: e)
  show ?case
  proof (cases "idles c c1")
    case True
    with IH Cons.prems(4) c1 show ?thesis
      by (intro exI [of _ c'] exI [of _ ts] exI [of _ as]) (simp_all add: e idles_def)
  next
    case False
    with room_call_client [OF call Cons.prems(2,4) c1] obtain now B b a where
      "op = Adapt now B" "b \<in> B i" "update (c_pacer c) b = Some (c_pacer c1, a)" "c_last_pacer_drive c1 = Some now"
      "\<forall>l. c_last_pacer_drive c = Some l \<longrightarrow> l + PACER_MIN_TICK_INTERVAL \<le> now"
      by (auto simp: ticks_def id)
    with IH False Cons.prems(4) c1 show ?thesis
      by (intro exI [of _ c'] exI [of _ "(now, b) # ts"] exI [of _ "a # as"]) (fastforce simp: e)
  qed
qed simp

text \<open>
  C25: A subscriber's pacer is ticked at most once per 100 ms, whatever the packet rate. Take any history of calls of a
  reachable room - polls, fan-outs, timer ticks, joins and departures of others, in any order and at any instants -
  during which client \<open>i\<close> stays. The calls that change the client's pacer, or the stamp of its latest tick, are calls of
  \<^verbatim>\<open>fanout_pending\<close> or \<^verbatim>\<open>update_pacer_layers\<close>, each with a budget that the bandwidth estimator has for the client at the
  instant of the call; any two of these instants are at least 100 ms apart; and the pacer's final state is the one its
  state machine reaches on exactly these budgets. Nothing else moves the pacer, \<^verbatim>\<open>poll_all\<close> included.
\<close>

theorem pacer_ticks_spaced:
  assumes "room_reachable E reg w" "detector_contract E peers" "room_run E (reg, w) h"
    and "client_of i (reg, w) = Some c" "\<forall>s \<in> set (map snd h). client_of i s \<noteq> None"
  shows "\<exists>c' ts as. client_of i (last ((reg, w) # map snd h)) = Some c'
    \<and> list_all2 (\<lambda>op (t, b). \<exists>B. op = Adapt t B \<and> b \<in> B i) (drives i (reg, w) h) ts
    \<and> sorted_wrt (\<lambda>s t. s + from_millis 100 \<le> t) (map fst ts)
    \<and> run (c_pacer c) (map snd ts) = Some (c_pacer c', as)"
proof -
  have "room_ok peers (r_clients reg) reg w" by (rule room_reachable_ok [OF assms(1,2)])
  with run_drives [OF assms(2,3) _ assms(5,4)] show ?thesis by (fastforce simp: PACER_MIN_TICK_INTERVAL_def)
qed

text \<open>
  A room with one client whose str0m estimates 5 kbit/s: a poll, and three rounds within 100 ms, which give two ticks.
\<close>

definition poor_link :: script where
  "poor_link = (True, [OutEvent (EgressBitrateEstimate (TwccBwe 5000))])"

definition poor_room :: "(script, u64 list, unit, unit) Registry \<times> world" where
  "poor_room = join_room poor_link empty_room"

definition after_poll :: "(script, u64 list, unit, unit) Registry \<times> world" where
  "after_poll = (case poll_all script_env 2 0 (fst poor_room) (snd poor_room) of Some (r, d, w) \<Rightarrow> (r, w) | None \<Rightarrow> poor_room)"

definition paced_at :: "nat \<Rightarrow> (script, u64 list, unit, unit) Registry \<times> world \<Rightarrow> (script, u64 list, unit, unit) Registry \<times> world" where
  "paced_at ms s = the (update_pacer_layers 9 (from_millis ms) (fst s) (snd s))"

definition poor_client :: "script Client" where
  "poor_client = hd (r_clients (fst poor_room))"

lemma poor_client_fields: "c_id poor_client = 0" "c_rtc poor_client = poor_link" "c_pacer poor_client = default_pacer"
  "c_last_pacer_drive poor_client = None"
  by (simp_all add: poor_client_def poor_room_def join_room_def empty_room_def Registry_new_def insert_client_def Let_def
      split_beta the_client_def Client_new_def SubscriberPacer_new_def with_config_def try_with_config_default
      next_client_id_def script_world_def)

lemma poor_room_fields: "r_clients (fst poor_room) = [poor_client]" "r_bandwidth (fst poor_room) = BandwidthEstimator_new"
  by (simp_all add: poor_client_def poor_room_def join_room_def empty_room_def Registry_new_def insert_client_def Let_def
      split_beta)

definition poor_estimator :: BandwidthEstimator where
  "poor_estimator = record_native_estimate BandwidthEstimator_new 0 (Fin 5000)"

lemma poor_estimate: "estimate_with_term poor_estimator 0 now = Some (5000, Native)"
  by (simp add: poor_estimator_def estimate_with_term_def record_native_estimate_def with_subscriber_def
      get_or_insert_def BandwidthEstimator_new_def combined_bps_with_term_def combine_terms_def min_update_def
      PerSubscriber_new_def DelayEstimator_new_def LossEstimator_new_def INITIAL_BITRATE_BPS_def
      fmax_def is_nan_def clamp_def MIN_BITRATE_BPS_def MAX_BITRATE_BPS_def)

lemma poor_poll:
  "\<exists>d reg w. poll_all script_env 2 0 (fst poor_room) (snd poor_room) = Some (reg, d, w)
    \<and> r_clients reg = [poor_client\<lparr>c_rtc := (True, [])\<rparr>] \<and> r_bandwidth reg = poor_estimator"
proof -
  have "u64_as_f64 5000 = Fin 5000" by (simp add: u64_as_f64_exact)
  then show ?thesis
    by (simp add: poll_all_def poor_room_fields poor_client_fields numeral_2_eq_2 script_env_def poor_link_def
        client_is_alive_def poll_output_def Let_def propagate_bwe_def push_back_def poor_estimator_def)
qed

text \<open>One round of the timer for this client: too early for a tick, or a tick on 5 kbit/s.\<close>

lemma poor_round:
  assumes "r_clients reg = [c]" "c_id c = 0" "r_bandwidth reg = poor_estimator" "pacer_inv (c_pacer c)"
  shows "\<exists>c' reg' w'. update_pacer_layers 9 now reg w = Some (reg', w') \<and> r_clients reg' = [c'] \<and> c_id c' = 0
    \<and> r_bandwidth reg' = poor_estimator \<and> pacer_inv (c_pacer c')
    \<and> (if snd (pacer_tick_ready c now PACER_MIN_TICK_INTERVAL)
       then c_last_pacer_drive c' = Some now else c' = c)"
proof -
  obtain c1 ready where r: "pacer_tick_ready c now PACER_MIN_TICK_INTERVAL = (c1, ready)" by fastforce
  then have c1: "c1 = (if ready then c\<lparr>c_last_pacer_drive := Some now\<rparr> else c)"
    by (auto simp: pacer_tick_ready_def Let_def split: if_splits)
  obtain p a where "update (c_pacer c) 5000 = Some (p, a)" "pacer_inv p" using update_inv [OF assms(4)] by blast
  then show ?thesis
    using assms r c1
    by (auto simp: update_pacer_layers_def pacer_round_def poor_estimate drive_pacer_def set_suspended_def
        set_desired_layer_def Let_def split: option.split prod.split PacerAction.split)
qed

definition poor_budgets :: "instant \<Rightarrow> client_id \<Rightarrow> u64 set" where
  "poor_budgets now = (\<lambda>j. if j = 9 then {} else budgets poor_estimator now j)"

lemma poor_budgets_of_client: "poor_budgets now 0 = {5000}"
  by (simp add: poor_budgets_def budgets_def poor_estimate)

lemma poor_call:
  "update_pacer_layers 9 now reg w = Some (reg', w') \<Longrightarrow> r_bandwidth reg = poor_estimator
     \<Longrightarrow> room_call E (Adapt now (poor_budgets now)) (reg, w) (reg', w')"
  unfolding poor_budgets_def using room_call.pace [of 9 now reg w reg' w' E] by (simp cong: if_cong)

lemma poor_history:
  "\<exists>h. room_run script_env poor_room h
     \<and> map fst h = Poll # map (\<lambda>ms. Adapt (from_millis ms) (poor_budgets (from_millis ms))) [0, 40, 100]
     \<and> (\<forall>s \<in> set (map snd h). client_of 0 s \<noteq> None)
     \<and> drives 0 poor_room h = map (\<lambda>ms. Adapt (from_millis ms) (poor_budgets (from_millis ms))) [0, 100]"
proof -
  let ?c = "poor_client\<lparr>c_rtc := (True, [])\<rparr>"
  note ready = pacer_tick_ready_def Let_def duration_since_def PACER_MIN_TICK_INTERVAL_def from_millis_def
  obtain d reg w where p: "poll_all script_env 2 0 (fst poor_room) (snd poor_room) = Some (reg, d, w)"
    "r_clients reg = [?c]" "r_bandwidth reg = poor_estimator" using poor_poll by blast
  obtain c1 reg1 w1 where 1: "update_pacer_layers 9 0 reg w = Some (reg1, w1)" "r_clients reg1 = [c1]" "c_id c1 = 0"
    "r_bandwidth reg1 = poor_estimator" "pacer_inv (c_pacer c1)" "c_last_pacer_drive c1 = Some 0"
    using poor_round [OF p(2) _ p(3), of 0 w] by (auto simp: poor_client_fields default_pacer_inv ready)
  obtain reg2 w2 where 2: "update_pacer_layers 9 (from_millis 40) reg1 w1 = Some (reg2, w2)" "r_clients reg2 = [c1]"
    "r_bandwidth reg2 = poor_estimator"
    using poor_round [OF 1(2,3,4,5), of "from_millis 40" w1] 1(6) by (auto simp: ready)
  obtain c3 reg3 w3 where 3: "update_pacer_layers 9 (from_millis 100) reg2 w2 = Some (reg3, w3)" "r_clients reg3 = [c3]"
    "c_id c3 = 0" "c_last_pacer_drive c3 = Some (from_millis 100)"
    using poor_round [OF 2(2) 1(3) 2(3) 1(5), of "from_millis 100" w2] 1(6) by (auto simp: ready)
  let ?op = "\<lambda>ms. Adapt (from_millis ms) (poor_budgets (from_millis ms))"
  let ?h = "[(Poll, (reg, w)), (?op 0, (reg1, w1)), (?op 40, (reg2, w2)), (?op 100, (reg3, w3))]"
  have zero: "from_millis 0 = 0" by (simp add: from_millis_def)
  have "room_run script_env poor_room ?h"
    using room_call.poll [OF p(1)] poor_call [OF 1(1) p(3)] poor_call [OF 2(1) 1(4)] poor_call [OF 3(1) 2(3)]
    by (simp add: zero)
  moreover have "drives 0 poor_room ?h = map ?op [0, 100]"
    by (simp add: client_of_def p 1 2 3 poor_room_fields poor_client_fields idles_def zero)
      (simp add: from_millis_def)
  ultimately show ?thesis
    by (intro exI [of _ ?h]) (simp add: client_of_def p 1 2 3 poor_client_fields)
qed

theorem pacer_ticks_spaced_witness:
  "\<exists>h c' as. room_run script_env poor_room h
     \<and> map fst h = Poll # map (\<lambda>ms. Adapt (from_millis ms) (poor_budgets (from_millis ms))) [0, 40, 100]
     \<and> drives 0 poor_room h = map (\<lambda>ms. Adapt (from_millis ms) (poor_budgets (from_millis ms))) [0, 100]
     \<and> client_of 0 (last (poor_room # map snd h)) = Some c' \<and> run default_pacer [5000, 5000] = Some (c_pacer c', as)"
proof -
  have room: "room_reachable script_env (fst poor_room) (snd poor_room)"
    unfolding poor_room_def by (intro join_room_reachable empty_room_reachable) (simp add: empty_room_world)
  have c: "client_of 0 (fst poor_room, snd poor_room) = Some poor_client"
    by (simp add: client_of_def poor_room_fields poor_client_fields)
  obtain h where h: "room_run script_env poor_room h"
    "map fst h = Poll # map (\<lambda>ms. Adapt (from_millis ms) (poor_budgets (from_millis ms))) [0, 40, 100]"
    "\<forall>s \<in> set (map snd h). client_of 0 s \<noteq> None"
    "drives 0 poor_room h = map (\<lambda>ms. Adapt (from_millis ms) (poor_budgets (from_millis ms))) [0, 100]"
    using poor_history by (elim exE conjE) (rule that)
  from pacer_ticks_spaced [OF room script_contract _ c h(3)] h(1) obtain c' ts as where
    *: "client_of 0 (last (poor_room # map snd h)) = Some c'" "run default_pacer (map snd ts) = Some (c_pacer c', as)"
    "list_all2 (\<lambda>op (t, b). \<exists>B. op = Adapt t B \<and> b \<in> B 0) (drives 0 poor_room h) ts"
    by (auto simp: poor_client_fields)
  from *(3) have "map snd ts = [5000, 5000]"
    by (auto simp: h(4) list_all2_Cons1 poor_budgets_of_client)
  with *(1,2) h(1,2,4) show ?thesis by (intro exI [of _ h] exI [of _ c'] exI [of _ as] conjI) simp_all
qed

end
