(* ===== verification/Abstract_Room.thy ===== *)
theory Abstract_Room
  imports Operations Scripted
begin

text \<open>
  What a room is to its users: a list of participants, each with an id, a relay flag, the tracks
  it publishes and the mode in which it receives. The step relation \<open>spec_step\<close> says, for every call of the
  registry's interface, which participants may change and how; every call refines the step with its label.
\<close>

section \<open>The abstract room\<close>

record participant =
  m_id :: client_id
  m_relay :: bool
  m_tracks :: "TrackIn list"
  m_config :: PacerConfig
  m_mode :: mode

definition newcomer :: "client_id \<Rightarrow> bool \<Rightarrow> participant" where
  "newcomer i r = \<lparr>m_id = i, m_relay = r, m_tracks = [], m_config = PacerConfig_default, m_mode = FullVideo LOW\<rparr>"

definition publishes :: "participant \<Rightarrow> participant \<Rightarrow> bool" where
  "publishes m m' \<longleftrightarrow> (\<exists>ts. m' = m\<lparr>m_tracks := m_tracks m @ ts\<rparr>
     \<and> (\<forall>t \<in> set ts. ti_origin t = m_id m \<and> ti_relay_source t = m_relay m))"

definition adapts :: "(client_id \<Rightarrow> u64 set) \<Rightarrow> participant \<Rightarrow> participant \<Rightarrow> bool" where
  "adapts B m m' \<longleftrightarrow> m' = m
     \<or> (\<exists>b \<in> B (m_id m). \<exists>a mode'. mode_step (m_config m) b (m_mode m) a mode' \<and> m' = m\<lparr>m_mode := mode'\<rparr>)"

inductive spec_step :: "room_op \<Rightarrow> participant list \<Rightarrow> participant list \<Rightarrow> bool" where
  enter: "i \<notin> m_id ` set ms \<Longrightarrow> spec_step (Join i r) ms (ms @ [newcomer i r])"
| publish: "list_all2 publishes ms ms' \<Longrightarrow> spec_step Poll ms ms'"
| adapt: "list_all2 (adapts B) ms ms' \<Longrightarrow> spec_step (Adapt now B) ms ms'"
| leave: "spec_step (Reap D) ms (filter (\<lambda>m. m_id m \<notin> D) ms)"
| idle: "spec_step Other ms ms"

lemma publishes_refl [simp]: "publishes m m"
  by (auto simp: publishes_def intro: exI [of _ "[]"])

lemma publishes_trans:
  assumes "publishes m m1" "publishes m1 m2"
  shows "publishes m m2"
proof -
  obtain ts where ts: "m1 = m\<lparr>m_tracks := m_tracks m @ ts\<rparr>"
    "\<forall>t \<in> set ts. ti_origin t = m_id m \<and> ti_relay_source t = m_relay m"
    using assms(1) by (auto simp: publishes_def)
  with assms(2) obtain us where "m2 = m1\<lparr>m_tracks := m_tracks m1 @ us\<rparr>"
    "\<forall>t \<in> set us. ti_origin t = m_id m \<and> ti_relay_source t = m_relay m"
    by (auto simp: publishes_def)
  with ts show ?thesis by (auto simp: publishes_def intro!: exI [of _ "ts @ us"])
qed

lemma all_publish_trans:
  "list_all2 publishes ms ms1 \<Longrightarrow> list_all2 publishes ms1 ms2 \<Longrightarrow> list_all2 publishes ms ms2"
  by (rule list_all2_trans [where ?P1.0 = publishes]) (auto intro: publishes_trans)

section \<open>The abstraction\<close>

definition abs_client :: "world \<Rightarrow> 'r Client \<Rightarrow> participant" where
  "abs_client w c =
     \<lparr>m_id = c_id c, m_relay = is_relay c, m_tracks = List.map_filter (upgrade w) (arc_ids c),
      m_config = config (c_pacer c), m_mode = mode_of (c_pacer c)\<rparr>"

definition abs_room :: "('r, 'd, 'p, 't) Registry \<Rightarrow> world \<Rightarrow> participant list" where
  "abs_room reg w = map (abs_client w) (r_clients reg)"

lemma map_filter_cong_on: "(\<And>x. x \<in> set xs \<Longrightarrow> f x = g x) \<Longrightarrow> List.map_filter f xs = List.map_filter g xs"
  by (induction xs) (simp_all add: List.map_filter_simps split: option.split)

lemma abs_client_cong:
  assumes "fixed c' = fixed c" "arc_ids c' = arc_ids c" "\<And>a. a \<in> set (arc_ids c) \<Longrightarrow> upgrade w' a = upgrade w a"
  shows "abs_client w' c' = abs_client w c"
proof -
  have "List.map_filter (upgrade w') (arc_ids c) = List.map_filter (upgrade w) (arc_ids c)"
    using assms(3) by (rule map_filter_cong_on)
  with assms(1,2) show ?thesis by (simp add: abs_client_def fixed_eq_iff is_relay_def)
qed

lemma abs_clients_cong:
  fixes cs cs' :: "'r Client list"
  assumes "map fixed cs' = map fixed cs" "map arc_ids cs' = map arc_ids cs" "quiet w w'"
  shows "map (abs_client w') cs' = map (abs_client w) cs"
  using assms(1,2)
proof (induction cs' cs rule: list_induct2')
  case (4 x xs y ys)
  then show ?case by (auto intro!: abs_client_cong simp: quiet_upgrade [OF assms(3)])
qed auto

section \<open>Publishing\<close>

lemma abs_client_alloc:
  assumes "owned w (pre @ c # post)" "d \<in> set (pre @ post)"
  shows "abs_client (snd (arc_new t w)) d = abs_client w d"
proof -
  have "a < next_arc w" if "a \<in> set (arc_ids d)" for a
    using that assms unfolding owned_def by auto
  then show ?thesis
    by (intro abs_client_cong) (auto simp: arc_new_def upgrade_def)
qed

lemma abs_client_publish:
  assumes "owned w (pre @ c # post)" "fixed c' = fixed c" "arc_ids c' = arc_ids c @ [next_arc w]"
  shows "abs_client (snd (arc_new t w)) c' = (abs_client w c)\<lparr>m_tracks := m_tracks (abs_client w c) @ [t]\<rparr>"
proof -
  have "a < next_arc w" if "a \<in> set (arc_ids c)" for a
    using that assms(1) unfolding owned_def by auto
  then have "List.map_filter (upgrade (snd (arc_new t w))) (arc_ids c) = List.map_filter (upgrade w) (arc_ids c)"
    by (intro map_filter_cong_on) (auto simp: arc_new_def upgrade_def)
  moreover have "List.map_filter (upgrade (snd (arc_new t w))) [next_arc w] = [t]"
    by (simp add: List.map_filter_simps arc_new_def upgrade_def)
  ultimately show ?thesis
    using assms(2,3) by (simp add: abs_client_def fixed_eq_iff is_relay_def List.map_filter_def)
qed

lemma poll_abs:
  assumes "owned w (pre @ c # post)" "polls c w (c', p, w')" "quiet w' w''"
  shows "list_all2 publishes (map (abs_client w) (pre @ c # post)) (map (abs_client w'') (pre @ c' # post))"
proof (cases "is_track_open p")
  case False
  then have "map fixed (pre @ c' # post) = map fixed (pre @ c # post)"
    "map arc_ids (pre @ c' # post) = map arc_ids (pre @ c # post)" "quiet w w''"
    using assms(2,3) by (auto simp: polls_def intro: quiet_trans)
  from abs_clients_cong [OF this] have "map (abs_client w'') (pre @ c' # post) = map (abs_client w) (pre @ c # post)" .
  then show ?thesis by (simp only: list_all2_same) (simp add: list_all2_same)
next
  case True
  then obtain t where t: "ti_origin t = c_id c" "ti_relay_source t = is_relay c" "w' = snd (arc_new t w)"
      "arc_ids c' = arc_ids c @ [next_arc w]" "fixed c' = fixed c"
    using assms(2) by (auto simp: polls_def allocates_def)
  have "abs_client w'' = (abs_client w' :: 'a Client \<Rightarrow> participant)"
    by (intro ext abs_client_cong) (simp_all add: quiet_upgrade [OF assms(3)])
  moreover have "map (abs_client w') pre = map (abs_client w) pre" "map (abs_client w') post = map (abs_client w) post"
    using abs_client_alloc [OF assms(1)] unfolding t(3) map_eq_conv by auto
  moreover have "publishes (abs_client w c) (abs_client w' c')"
    unfolding t(3) abs_client_publish [OF assms(1) t(5,4)] publishes_def
    by (rule exI [of _ "[t]"]) (simp add: abs_client_def t)
  ultimately show ?thesis by (simp add: list_all2_append list_all2_same del: map_eq_conv)
qed

lemma poll_clients_abs:
  assumes "detector_contract E peers"
    and "poll_clients E fuel now cs (reg, dl, tm, w) = Some (cs', reg', dl', tm', w')"
    and "room_ok peers (pre @ cs) reg w"
  shows "list_all2 publishes (map (abs_client w) (pre @ cs)) (map (abs_client w') (pre @ cs'))"
  using assms(2,3)
proof (induction cs arbitrary: pre reg dl tm w cs')
  case Nil
  then show ?case by (simp add: list_all2_same)
next
  case (Cons c cs)
  then obtain c1 reg1 dl1 tm1 w1 cs1 where
    1: "poll_client E fuel now c (reg, dl, tm, w) = Some (c1, reg1, dl1, tm1, w1)"
    and 2: "poll_clients E fuel now cs (reg1, dl1, tm1, w1) = Some (cs1, reg', dl', tm', w')"
    and [simp]: "cs' = c1 # cs1"
    by (auto split: option.splits)
  let ?P = "\<lambda>d reg v. room_ok peers (pre @ d # cs) reg v
    \<and> list_all2 publishes (map (abs_client w) (pre @ c # cs)) (map (abs_client v) (pre @ d # cs))"
  have "?P c1 reg1 w1 \<and> dl1 \<le> dl"
  proof (rule poll_client_rule [OF 1])
    have "list_all2 publishes ms ms" for ms by (simp add: list_all2_same)
    then show "?P c reg w" using Cons.prems(2) by blast
  next
    fix d reg v d' p v' reg' v''
    assume P: "?P d reg v" and p: "polls d v (d', p, v')" and a: "absorbs E d' p reg v' reg' v''"
    have "owned v (pre @ d # cs)" using P by (simp add: room_ok_def)
    with p a have "list_all2 publishes (map (abs_client v) (pre @ d # cs)) (map (abs_client v'') (pre @ d' # cs))"
      by (intro poll_abs) (auto simp: absorbs_def)
    with P show "?P d' reg' v''"
      using room_ok_poll [OF assms(1) _ p a] by (blast intro: all_publish_trans)
  qed
  with Cons.IH [OF 2, of "pre @ [c1]"] show ?case by (auto intro: all_publish_trans)
qed

section \<open>Adapting\<close>

lemma paced_abs:
  assumes "paced now B c c'" "client_ok c" "quiet w w'"
  shows "adapts B (abs_client w c) (abs_client w' c')"
proof -
  have same: "List.map_filter (upgrade w') (arc_ids c') = List.map_filter (upgrade w) (arc_ids c)"
    "c_id c' = c_id c" "is_relay c' = is_relay c"
    using assms(1) quiet_upgrade [OF assms(3)] by (auto simp: paced_def same_peer_def intro: map_filter_cong_on)
  from assms(1) have "idles c c' \<or> ticks now B c c'" by (simp add: paced_def)
  then show ?thesis
  proof
    assume "idles c c'"
    with same show ?thesis by (simp add: abs_client_def adapts_def idles_def)
  next
    assume "ticks now B c c'"
    then obtain b a where b: "b \<in> B (c_id c)" and u: "update (c_pacer c) b = Some (c_pacer c', a)"
      by (auto simp: ticks_def)
    have inv: "pacer_inv (c_pacer c)" using assms(2) by (simp add: client_ok_def)
    have "config (c_pacer c') = config (c_pacer c)" using update_inv [OF inv, of b] u by auto
    with same update_mode_step [OF inv u] b show ?thesis
      unfolding adapts_def by (intro disjI2 bexI [of _ b] exI) (auto simp: abs_client_def)
  qed
qed

lemma all_paced_abs:
  assumes "list_all2 (paced now B) cs cs'" "list_all client_ok cs" "quiet w w'"
  shows "list_all2 (adapts B) (map (abs_client w) cs) (map (abs_client w') cs')"
  using assms by (auto simp: list_all2_conv_all_nth list_all_length intro!: paced_abs)

section \<open>Joining and leaving\<close>

lemma insert_client_abs:
  fixes reg :: "('r, 'd, 'p, 't) Registry"
  assumes "room_ok peers (r_clients reg) reg w"
    and new: "Client_new rtc m w = Some (c, w1)" "configured c d" and ins: "insert_client E reg d w1 = (reg', w')"
  shows "id_counter w \<notin> m_id ` set (abs_room reg w)
    \<and> abs_room reg' w' = abs_room reg w @ [newcomer (id_counter w) (is_relay d)]"
proof -
  note d = configured_frame [OF new(2)] Client_new_fresh [OF new(1)]
  obtain n where n: "r_clients reg' = r_clients reg @ [n]" "c_id n = id_counter w" "arc_ids n = []" "c_pacer n = default_pacer"
      "is_relay n = is_relay d"
    using ins d
    by (auto simp: insert_client_def Let_def foldl_track_open arc_ids_def is_relay_def split: prod.splits if_splits)
  have "arcs w' = arcs w"
    using ins d by (auto simp: insert_client_def Let_def now_ms_def instant_now_def split: if_splits)
  then have up: "upgrade w' = upgrade w" by (simp add: upgrade_def fun_eq_iff)
  have old: "map (abs_client w') (r_clients reg) = map (abs_client w) (r_clients reg)"
    by (simp add: abs_client_def up)
  have new: "abs_client w' n = newcomer (id_counter w) (is_relay d)"
    using n by (simp add: abs_client_def newcomer_def List.map_filter_simps default_pacer_def mode_of_def)
  have "id_counter w \<notin> m_id ` set (abs_room reg w)"
    using assms(1) by (auto simp: room_ok_def ids_ok_def abs_room_def abs_client_def)
  with old new show ?thesis by (simp add: abs_room_def n(1) del: map_eq_conv)
qed

lemma reap_client_abs:
  assumes "room_ok peers (pre @ c # post) reg w" "reap_client E c (reg, w) = (reg', w')"
  shows "map (abs_client w') (pre @ post) = map (abs_client w) (pre @ post)"
proof -
  have up: "upgrade w' a = (if a \<in> set (arc_ids c) then None else upgrade w a)" for a
    using assms(2) by (auto simp: reap_client_def Let_def upgrade_arc_drop arc_ids_def
        upgrade_def [of "emit _ _ _"] upgrade_def [of w] split: if_splits)
  have "distinct (concat (map arc_ids (pre @ c # post)))"
    using assms(1) by (simp add: room_ok_def owned_def)
  then have "a \<notin> set (arc_ids c)" if "d \<in> set (pre @ post)" "a \<in> set (arc_ids d)" for d a
    using that by auto
  then show ?thesis by (intro map_cong refl abs_client_cong) (simp_all add: up)
qed

lemma reap_fold_abs:
  fixes reg' :: "('r, 'd, 'p, 't) Registry"
  assumes "detector_contract E peers"
    and "foldl (\<lambda>s c. if \<not> client_is_alive E c then reap_client E c s else s) (reg, w) cs = (reg', w')"
    and "room_ok peers (pre @ cs) reg w"
  shows "map (abs_client w') (pre @ filter (client_is_alive E) cs) = map (abs_client w) (pre @ filter (client_is_alive E) cs)"
  using assms(2,3)
proof (induction cs arbitrary: pre reg w)
  case (Cons c cs)
  show ?case
  proof (cases "client_is_alive E c")
    case True
    with Cons.IH [of reg w "pre @ [c]"] Cons.prems show ?thesis by simp
  next
    case False
    obtain reg1 w1 where 1: "reap_client E c (reg, w) = (reg1, w1)" by fastforce
    have "map (abs_client w') (pre @ filter (client_is_alive E) cs) = map (abs_client w1) (pre @ filter (client_is_alive E) cs)"
      using Cons.IH [of reg1 w1 pre] Cons.prems 1 False reap_client_ok [OF assms(1) Cons.prems(2) 1] by simp
    with reap_client_abs [OF Cons.prems(2) 1] False show ?thesis by simp
  qed
qed simp

lemma reap_dead_abs:
  fixes reg :: "('r, 'd, 'p, 't) Registry"
  assumes "detector_contract E peers" "reap_dead E reg w = (reg', w')" "room_ok peers (r_clients reg) reg w"
  shows "abs_room reg' w'
    = filter (\<lambda>m. m_id m \<notin> c_id ` {c \<in> set (r_clients reg). \<not> client_is_alive E c}) (abs_room reg w)"
proof -
  let ?dead = "c_id ` {c \<in> set (r_clients reg). \<not> client_is_alive E c}"
  obtain reg1 where f: "foldl (\<lambda>s c. if \<not> client_is_alive E c then reap_client E c s else s) (reg, w) (r_clients reg) = (reg1, w')"
    using assms(2) by (auto simp: reap_dead_def Let_def split: prod.splits)
  have "abs_room reg' w' = map (abs_client w) (filter (client_is_alive E) (r_clients reg))"
    using reap_fold_abs [OF assms(1) f, of "[]"] assms(3) call_reap [OF assms(2)] by (simp add: abs_room_def)
  also have "filter (client_is_alive E) (r_clients reg) = filter (\<lambda>c. c_id c \<notin> ?dead) (r_clients reg)"
    using assms(3) by (intro filter_cong refl) (auto simp: room_ok_def ids_ok_def distinct_map inj_on_def)
  finally show ?thesis by (simp add: abs_room_def filter_map comp_def abs_client_def)
qed

section \<open>Refinement\<close>

text \<open>
  C4: The registry refines the abstract room. Every call of the registry's interface in a reachable room, seen through
  \<open>abs_room\<close>, is the abstract step of that call. A join appends one participant, with an unused id, no tracks and full
  video at the lowest layer. \<^verbatim>\<open>poll_all\<close> appends tracks to the participants' own lists, each tagged with its owner's id and
  relay flag, and changes nothing else. \<^verbatim>\<open>fanout_pending\<close> and \<^verbatim>\<open>update_pacer_layers\<close> move the mode of a participant by at most
  one step of the pacer's abstract machine, on a budget that the estimator has for this participant, and change nothing
  else. \<^verbatim>\<open>reap_dead\<close> removes exactly the participants whose session is dead, with their tracks, and leaves the others as
  they are, in their order. Every other call leaves the abstract room as it is.
\<close>

theorem room_refines_spec:
  assumes "room_reachable E reg w" "detector_contract E peers" "room_call E op (reg, w) (reg', w')"
  shows "spec_step op (abs_room reg w) (abs_room reg' w')"
proof -
  have ok: "room_ok peers (r_clients reg) reg w" by (rule room_reachable_ok [OF assms(1,2)])
  then have clients: "list_all client_ok (r_clients reg)" by (simp add: room_ok_def)
  have other: ?thesis if "op = Other"
  proof -
    from assms(3) that have call: "room_call E Other (reg, w) (reg', w')" by simp
    from abs_clients_cong [OF call_other [OF call]] have "abs_room reg' w' = abs_room reg w"
      by (simp only: abs_room_def)
    with that show ?thesis by (simp add: spec_step.idle)
  qed
  from assms(3) show ?thesis
  proof (cases rule: room_call.cases)
    case (join rtc m c w1 d)
    with insert_client_abs [OF ok join(2,3,5)] show ?thesis by (auto intro: spec_step.enter)
  next
    case (poll fuel now deadline)
    then obtain cs reg1 dl tm where
      1: "poll_clients E fuel now (r_clients reg) (reg, now + from_millis 100, None, w) = Some (cs, reg1, dl, tm, w')"
      and "r_clients reg' = cs"
      by (auto simp: poll_all_def Let_def split: option.splits)
    with poll_clients_abs [OF assms(2) 1, of "[]"] ok poll(1) show ?thesis by (auto simp: abs_room_def intro: spec_step.publish)
  next
    case (fan now)
    from fanout_pending_paced [OF fan(2) ok fan(3)] clients show ?thesis
      unfolding fan(1) abs_room_def by (intro spec_step.adapt all_paced_abs) auto
  next
    case (pace i now)
    from update_pacer_layers_paced [OF pace(2) clients] clients show ?thesis
      unfolding pace(1) abs_room_def by (intro spec_step.adapt all_paced_abs) auto
  next
    case reap
    show ?thesis unfolding reap(1) reap_dead_abs [OF assms(2) reap(2) ok] by (rule spec_step.leave)
  qed (rule other, assumption)+
qed

inductive_cases enter_cases: "spec_step (Join i r) ms ms'"

text \<open>A third client enters the demo room, in which a publisher waits.\<close>

lemma demo_join: "room_call script_env (Join 2 False) (fst demo_room, snd demo_room)
    (fst (join_room subscriber demo_room), snd (join_room subscriber demo_room))"
proof -
  obtain c w where c: "the_client subscriber (snd demo_room) = (c, w)" by fastforce
  then have new: "Client_new subscriber 0 (snd demo_room) = Some (c, w)" by (simp add: the_client_eq)
  then have "c_origin c = Local"
    by (auto simp: Client_new_def SubscriberPacer_new_def with_config_def try_with_config_default Let_def split: prod.splits)
  then show ?thesis
    using room_call.join [OF new configured.built, of script_env "fst demo_room" "fst (join_room subscriber demo_room)"
        "snd (join_room subscriber demo_room)"]
    by (simp add: demo_room_counter c join_room_def is_relay_def)
qed

theorem room_refines_spec_witness:
  "abs_room (fst (join_room subscriber demo_room)) (snd (join_room subscriber demo_room))
     = abs_room (fst demo_room) (snd demo_room) @ [newcomer 2 False]"
  using room_refines_spec [OF demo_room_reachable script_contract demo_join] by (rule enter_cases)

end
