(* ===== verification/Udp_Loop.thy ===== *)
theory Udp_Loop
  imports Registry
begin

text \<open>
  The process around a room: \<^verbatim>\<open>src/udp_loop.rs\<close> and \<^verbatim>\<open>src/config.rs\<close>. Which branch of
  \<^verbatim>\<open>tokio::select!\<close> fires is an input of the model; what is sent to the socket is an output. Errors of
  the socket are only logged by the code.
\<close>

section \<open>Configuration (config.rs)\<close>

record SfuConfig =
  udp_port :: u16
  metrics_port :: u16
  bind_address :: string
  log_level :: string

definition SfuConfig_default :: SfuConfig where
  "SfuConfig_default = \<lparr>udp_port = 3478, metrics_port = 9317, bind_address = ''0.0.0.0'', log_level = ''info''\<rparr>"

text \<open>\<^verbatim>\<open>str::parse::<u16>\<close>: an optional plus sign, at least one digit, no overflow.\<close>

definition is_digit :: "char \<Rightarrow> bool" where
  "is_digit c \<longleftrightarrow> (48::nat) \<le> of_char c \<and> of_char c \<le> (57::nat)"

definition parse_u16 :: "string \<Rightarrow> u16 option" where
  "parse_u16 s =
     (let ds = (case s of c # cs \<Rightarrow> if c = CHR ''+'' then cs else s | [] \<Rightarrow> s)
      in if ds \<noteq> [] \<and> list_all is_digit ds \<and> string_to_nat ds < 2 ^ 16
         then Some (word_of_nat (string_to_nat ds)) else None)"

text \<open>\<open>var\<close> is \<^verbatim>\<open>std::env::var\<close>; \<open>None\<close> as the result is the panic of \<^verbatim>\<open>expect\<close>.\<close>

definition env_or :: "(string \<Rightarrow> string option) \<Rightarrow> string \<Rightarrow> string \<Rightarrow> string" where
  "env_or var key dflt = (case var key of Some v \<Rightarrow> v | None \<Rightarrow> dflt)"

definition SfuConfig_from_env :: "(string \<Rightarrow> string option) \<Rightarrow> SfuConfig option" where
  "SfuConfig_from_env var =
     (case parse_u16 (env_or var ''SFU_UDP_PORT'' (nat_to_string (unat (udp_port SfuConfig_default)))) of
        None \<Rightarrow> None
      | Some udp \<Rightarrow>
         (case parse_u16 (env_or var ''SFU_METRICS_PORT'' (nat_to_string (unat (metrics_port SfuConfig_default)))) of
            None \<Rightarrow> None
          | Some metrics \<Rightarrow>
              Some \<lparr>udp_port = udp, metrics_port = metrics,
                    bind_address = env_or var ''SFU_BIND_ADDRESS'' (bind_address SfuConfig_default),
                    log_level = env_or var ''RUST_LOG'' (log_level SfuConfig_default)\<rparr>))"

text \<open>Printing and parsing ports.\<close>

definition env_of :: "SfuConfig \<Rightarrow> string \<Rightarrow> string option" where
  "env_of cfg = map_of
     [(''SFU_UDP_PORT'', nat_to_string (unat (udp_port cfg))), (''SFU_METRICS_PORT'', nat_to_string (unat (metrics_port cfg))),
      (''SFU_BIND_ADDRESS'', bind_address cfg), (''RUST_LOG'', log_level cfg)]"

lemma nat_to_string_digits: "list_all is_digit (nat_to_string n) \<and> nat_to_string n \<noteq> []"
proof (induction n rule: nat_to_string.induct)
  case (1 n)
  have digit: "is_digit (char_of (48 + d))" if "d < 10" for d :: nat
    using that by (simp add: is_digit_def of_char_mod_256)
  show ?case
  proof (cases "n < 10")
    case True
    with digit show ?thesis by (subst (1 2) nat_to_string.simps) simp
  next
    case False
    with 1 digit [of "n mod 10"] show ?thesis by (subst (1 2) nat_to_string.simps) simp
  qed
qed

lemma parse_print_u16: "parse_u16 (nat_to_string (unat p)) = Some p"
proof -
  obtain c cs where s: "nat_to_string (unat p) = c # cs"
    using nat_to_string_digits [of "unat p"] by (cases "nat_to_string (unat p)") auto
  then have d: "is_digit c" "list_all is_digit cs" using nat_to_string_digits [of "unat p"] by auto
  have n: "string_to_nat (c # cs) = unat p" using string_to_nat_inverse [of "unat p"] unfolding s .
  have w: "word_of_nat (unat p) = p" by (simp add: of_nat_unat)
  have "unat p < 2 ^ 16" by (rule less_le_trans [OF unsigned_less]) simp
  moreover have "c \<noteq> CHR ''+''" using d(1) by (auto simp: is_digit_def)
  ultimately show ?thesis
    unfolding s parse_u16_def using d n w by (simp del: string_to_nat.simps)
qed

text \<open>
  C40: \<^verbatim>\<open>SfuConfig::from_env\<close> reads back every configuration written to the environment, gives the
  defaults in an empty environment, and panics exactly when one of the two ports is set to text that
  does not parse as a 16-bit number.
\<close>

theorem config_from_env:
  "SfuConfig_from_env (env_of cfg) = Some cfg \<and> SfuConfig_from_env (\<lambda>_. None) = Some SfuConfig_default
   \<and> (SfuConfig_from_env var = None \<longleftrightarrow>
        (\<exists>v. var ''SFU_UDP_PORT'' = Some v \<and> parse_u16 v = None)
        \<or> (\<exists>v. var ''SFU_METRICS_PORT'' = Some v \<and> parse_u16 v = None))"
proof (intro conjI)
  show "SfuConfig_from_env (env_of cfg) = Some cfg"
    by (simp add: SfuConfig_from_env_def env_or_def env_of_def parse_print_u16)
  show "SfuConfig_from_env (\<lambda>_. None) = Some SfuConfig_default"
    by (simp only: SfuConfig_from_env_def env_or_def option.case parse_print_u16) simp
  show "SfuConfig_from_env var = None \<longleftrightarrow>
      (\<exists>v. var ''SFU_UDP_PORT'' = Some v \<and> parse_u16 v = None)
      \<or> (\<exists>v. var ''SFU_METRICS_PORT'' = Some v \<and> parse_u16 v = None)"
    unfolding SfuConfig_from_env_def env_or_def
    by (cases "var ''SFU_UDP_PORT''"; cases "var ''SFU_METRICS_PORT''")
       (auto simp only: option.case parse_print_u16 option.inject option.distinct split: option.splits)
qed

section \<open>The receive loop (udp\_loop.rs)\<close>

definition RECV_BUFFER_BYTES :: nat where "RECV_BUFFER_BYTES = 2048"
definition MAX_SLEEP :: duration where "MAX_SLEEP = from_millis 100"

text \<open>The branch of \<^verbatim>\<open>select!\<close> that fires; a datagram longer than the buffer arrives truncated.\<close>

datatype branch = Shutdown | SleepElapsed | AsoTick | Received "u8 list" socket_addr | RecvError

definition flush_transmits ::
    "('r, 'd, 'p, 't) Registry \<Rightarrow> ('r, 'd, 'p, 't) Registry \<times> (u8 list \<times> socket_addr) list" where
  "flush_transmits reg =
     (let (reg, pending) = drain_transmits reg
      in (reg, map (\<lambda>t. (out_contents t, out_destination t)) pending))"

definition loop_sleep :: "instant \<Rightarrow> instant \<Rightarrow> duration" where
  "loop_sleep deadline now = min (max (duration_since deadline now) (from_millis 1)) MAX_SLEEP"

text \<open>The work of one iteration up to the \<^verbatim>\<open>select!\<close>: what was sent and how long to park.\<close>

definition loop_head ::
    "('r, 'd, 'p, 't) env \<Rightarrow> nat \<Rightarrow> ('r, 'd, 'p, 't) Registry \<Rightarrow> world
     \<Rightarrow> (('r, 'd, 'p, 't) Registry \<times> (u8 list \<times> socket_addr) list \<times> duration \<times> world) option" where
  "loop_head E fuel reg w =
     (let (reg, w) = reap_dead E reg w;
          (now, w) = instant_now w
      in case poll_all E fuel now reg w of
           None \<Rightarrow> None
         | Some (reg, deadline, w) \<Rightarrow>
             (case fanout_pending E reg w of
                None \<Rightarrow> None
              | Some (reg, w) \<Rightarrow>
                  let reg = emit_publisher_layer_hints E reg w;
                      (reg, sent) = flush_transmits reg;
                      (now, w) = instant_now w
                  in Some (reg, sent, loop_sleep deadline now, w)))"

fun loop_branch ::
    "('r, 'd, 'p, 't) env \<Rightarrow> socket_addr \<Rightarrow> branch \<Rightarrow> ('r, 'd, 'p, 't) Registry \<Rightarrow> world
     \<Rightarrow> ('r, 'd, 'p, 't) Registry \<times> world" where
  "loop_branch E local_addr Shutdown reg w = (reg, w)"
| "loop_branch E local_addr SleepElapsed reg w =
     (let (now, w) = instant_now w in (tick E now reg, w))"
| "loop_branch E local_addr AsoTick reg w =
     (let (now, w) = instant_now w;
          (reg, w) = tick_active_speaker E now reg w
      in (reg, tick_speaker_scores E reg w))"
| "loop_branch E local_addr (Received payload src) reg w =
     (let (reg, _, w) = handle_incoming E reg src local_addr (take RECV_BUFFER_BYTES payload) w in (reg, w))"
| "loop_branch E local_addr RecvError reg w = (reg, w)"

text \<open>The loop over the branches that fire: the final state, everything sent, and the parking times.
  It returns at the first \<open>Shutdown\<close>.\<close>

fun serve_socket ::
    "('r, 'd, 'p, 't) env \<Rightarrow> nat \<Rightarrow> socket_addr \<Rightarrow> branch list \<Rightarrow> ('r, 'd, 'p, 't) Registry \<Rightarrow> world
     \<Rightarrow> (('r, 'd, 'p, 't) Registry \<times> (u8 list \<times> socket_addr) list \<times> duration list \<times> world) option" where
  "serve_socket E fuel local_addr [] reg w = Some (reg, [], [], w)"
| "serve_socket E fuel local_addr (b # bs) reg w =
     (case loop_head E fuel reg w of
        None \<Rightarrow> None
      | Some (reg, sent, sleep, w) \<Rightarrow>
          if b = Shutdown then Some (reg, sent, [sleep], w)
          else let (reg, w) = loop_branch E local_addr b reg w
               in (case serve_socket E fuel local_addr bs reg w of
                     None \<Rightarrow> None
                   | Some (reg, sent', sleeps, w) \<Rightarrow> Some (reg, sent @ sent', sleep # sleeps, w)))"

definition serve ::
    "('r, 'd, 'p, 't) env \<Rightarrow> nat \<Rightarrow> socket_addr \<Rightarrow> branch list \<Rightarrow> nat \<Rightarrow> world
     \<Rightarrow> (('r, 'd, 'p, 't) Registry \<times> (u8 list \<times> socket_addr) list \<times> duration list \<times> world) option" where
  "serve E fuel local_addr bs metrics w =
     (let (reg, w) = Registry_new E metrics w in serve_socket E fuel local_addr bs reg w)"

end
