(* ===== verification/Serving.thy ===== *)
theory Serving
  imports Scripted Udp_Loop
begin

text \<open>
  The loops end: polling returns as soon as str0m runs out of things to say, and the receive loop
  serves any sequence of events without getting stuck or panicking. str0m's part is the contract
  \<open>rtc_quiesces\<close>; the fuel of \<^verbatim>\<open>poll_all\<close> is bounded by its potential.
\<close>

section \<open>Polling ends\<close>

text \<open>
  \<open>budget\<close> bounds the outputs a session has pending. Polling a live session yields a timeout or
  an output that uses up budget; asking for a keyframe adds none; a disconnected session is not
  alive.
\<close>

definition rtc_quiesces :: "('r, 'd, 'p, 't) env \<Rightarrow> ('r \<Rightarrow> nat) \<Rightarrow> bool" where
  "rtc_quiesces E budget \<longleftrightarrow>
     (\<forall>r r' out. rtc_is_alive E r \<and> rtc_poll_output E r = (r', Some out) \<longrightarrow>
        (\<exists>t. out = OutTimeout t) \<or> budget r' < budget r)
     \<and> (\<forall>r mid rid kind. budget (fst (writer_request_keyframe E r mid rid kind)) \<le> budget r)
     \<and> (\<forall>r. \<not> rtc_is_alive E (rtc_disconnect E r))"

lemma request_keyframe_budget:
  assumes "rtc_quiesces E budget" "request_keyframe_throttled E c mid rid kind w = (c', w')"
  shows "budget (c_rtc c') \<le> budget (c_rtc c)"
  using assms by (auto simp: rtc_quiesces_def request_keyframe_throttled_def Let_def split_beta
      split: if_splits option.splits)

lemma handle_event_budget:
  assumes "rtc_quiesces E budget" "handle_event E c e w = (c', p, w')"
  shows "budget (c_rtc c') \<le> budget (c_rtc c) \<or> \<not> client_is_alive E c'"
proof (cases e)
  case IceDisconnected
  with assms show ?thesis by (auto simp: rtc_quiesces_def client_is_alive_def)
next
  case (MediaDataEvent d)
  obtain c1 w1 where 1: "(if \<not> md_contiguous d then request_keyframe_throttled E c (md_mid d) (md_rid d) Fir w
      else (c, w)) = (c1, w1)" by (metis prod.exhaust)
  then have "budget (c_rtc c1) \<le> budget (c_rtc c)"
    using request_keyframe_budget [OF assms(1)] by (auto split: if_splits)
  moreover have "c_rtc c' = c_rtc c1"
    using assms(2) unfolding MediaDataEvent handle_event.simps track_in_media_def 1 Let_def
    by (auto split: option.splits)
  ultimately show ?thesis by simp
next
  case (MediaAdded mid kind)
  with assms show ?thesis by (auto simp: track_in_added_def arc_new_def Let_def)
next
  case (KeyframeRequestEvent req)
  with assms show ?thesis by (auto split: prod.splits)
qed (use assms in auto)

lemma poll_output_progress:
  assumes "rtc_quiesces E budget" "client_is_alive E c" "poll_output E c w = (c', p, w')"
  shows "(\<exists>t. p = Timeout t) \<or> budget (c_rtc c') < budget (c_rtc c) \<or> \<not> client_is_alive E c'"
proof -
  obtain r out where r: "rtc_poll_output E (c_rtc c) = (r, out)" by fastforce
  show ?thesis
  proof (cases out)
    case None
    with assms r show ?thesis by (auto simp: poll_output_def client_is_alive_def rtc_quiesces_def)
  next
    case (Some x)
    then have h: "handle_output E (c\<lparr>c_rtc := r\<rparr>) x w = (c', p, w')"
      using assms(2,3) r by (simp add: poll_output_def client_is_alive_def)
    have "(\<exists>t. x = OutTimeout t) \<or> budget r < budget (c_rtc c)"
      using assms(1,2) r Some by (auto simp: rtc_quiesces_def client_is_alive_def)
    then show ?thesis
      using h handle_event_budget [OF assms(1), of "c\<lparr>c_rtc := r\<rparr>"] by (cases x) fastforce+
  qed
qed

lemma poll_client_total:
  assumes "rtc_quiesces E budget" "(if client_is_alive E c then budget (c_rtc c) + 2 else 1) \<le> fuel"
  shows "\<exists>r. poll_client E fuel now c s = Some r"
  using assms(2)
proof (induction fuel arbitrary: c s)
  case (Suc fuel)
  obtain reg dl tm w where s: "s = (reg, dl, tm, w)" by (metis prod.exhaust)
  obtain c' p w' where p: "poll_output E c w = (c', p, w')" by (metis prod.exhaust)
  show ?case
  proof (cases "client_is_alive E c \<and> (\<forall>t. p \<noteq> Timeout t)")
    case True
    then have "(if client_is_alive E c' then budget (c_rtc c') + 2 else 1) \<le> fuel"
      using poll_output_progress [OF assms(1) _ p] Suc.prems by (auto split: if_splits)
    from Suc.IH [OF this] True p show ?thesis
      by (cases p) (auto simp: s Let_def split: prod.splits)
  next
    case False
    with p show ?thesis by (auto simp: s)
  qed
qed (simp split: if_splits)

lemma poll_clients_total:
  assumes "rtc_quiesces E budget" "\<forall>c \<in> set cs. budget (c_rtc c) + 2 \<le> fuel"
  shows "\<exists>r. poll_clients E fuel now cs s = Some r"
  using assms(2)
proof (induction cs arbitrary: s)
  case (Cons c cs)
  have "(if client_is_alive E c then budget (c_rtc c) + 2 else 1) \<le> fuel" using Cons.prems by auto
  then obtain c' s' where "poll_client E fuel now c s = Some (c', s')"
    using poll_client_total [OF assms(1)] by (metis prod.exhaust)
  with Cons.IH [of s'] Cons.prems show ?case by (auto split: option.splits)
qed (simp only: poll_clients.simps, blast)

lemma poll_all_total:
  assumes "rtc_quiesces E budget" "\<forall>c \<in> set (r_clients reg). budget (c_rtc c) + 2 \<le> fuel"
  shows "\<exists>reg' deadline w'. poll_all E fuel now reg w = Some (reg', deadline, w')"
  using poll_clients_total [OF assms, of now "(reg, now + from_millis 100, None, w)"]
  by (auto simp: poll_all_def Let_def split: option.splits)

text \<open>
  \<open>wake\<close> is the instant at which a session wants to be polled again: what it answers with once nothing else is
  pending. Answering does not change it and does not end the session.
\<close>

definition rtc_rests :: "('r, 'd, 'p, 't) env \<Rightarrow> ('r \<Rightarrow> instant) \<Rightarrow> bool" where
  "rtc_rests E wake \<longleftrightarrow>
     (\<forall>r r' t. rtc_is_alive E r \<and> rtc_poll_output E r = (r', Some (OutTimeout t)) \<longrightarrow> rtc_is_alive E r' \<and> wake r' = t)"

lemma handle_event_not_timeout: "handle_event E c e w = (c', p, w') \<Longrightarrow> p \<noteq> Timeout t"
proof (cases e)
  case (MediaDataEvent d)
  moreover assume "handle_event E c e w = (c', p, w')"
  ultimately show "p \<noteq> Timeout t" using track_in_media_frame(4) [of E c d w c' p w'] by simp
next
  case (EgressBitrateEstimate b)
  moreover assume "handle_event E c e w = (c', p, w')"
  ultimately show "p \<noteq> Timeout t" by (cases b) (auto simp: propagate_bwe_def)
qed (auto simp: track_in_added_def arc_new_def incoming_keyframe_req_def propagate_peer_stats_def Let_def
    split: option.splits if_splits)

lemma poll_output_timeout:
  assumes "rtc_rests E wake" "client_is_alive E c" "poll_output E c w = (c', Timeout t, w')"
  shows "client_is_alive E c' \<and> wake (c_rtc c') = t"
proof -
  obtain r out where r: "rtc_poll_output E (c_rtc c) = (r, out)" by fastforce
  with assms(2,3) obtain x where x: "out = Some x" "handle_output E (c\<lparr>c_rtc := r\<rparr>) x w = (c', Timeout t, w')"
    by (cases out) (auto simp: poll_output_def client_is_alive_def Let_def)
  then have "x = OutTimeout t" "c' = c\<lparr>c_rtc := r\<rparr>"
    using handle_event_not_timeout by (cases x; fastforce)+
  with assms(1,2) r x show ?thesis by (auto simp: rtc_rests_def client_is_alive_def)
qed

lemma poll_client_deadline:
  assumes "rtc_rests E wake" "poll_client E fuel now c (reg, dl, tm, w) = Some (c', reg', dl', tm', w')"
  shows "dl' = (if client_is_alive E c' then min dl (wake (c_rtc c')) else dl)"
  using assms(2)
proof (induction fuel arbitrary: c reg tm w)
  case (Suc fuel)
  obtain c1 p w1 where p: "poll_output E c w = (c1, p, w1)" by (metis prod.exhaust)
  show ?case
  proof (cases "client_is_alive E c")
    case False
    with Suc.prems show ?thesis by auto
  next
    case alive: True
    note unfolded = Suc.prems [simplified poll_client.simps, simplified alive p]
    show ?thesis
    proof (cases p)
      case (Timeout t)
      with poll_output_timeout [OF assms(1) alive, of w c1 t w1] p unfolded show ?thesis by simp
    qed (use unfolded Suc.IH in \<open>auto simp: Let_def split: prod.splits\<close>)
  qed
qed simp

lemma poll_clients_deadline:
  assumes "rtc_rests E wake" "poll_clients E fuel now cs (reg, dl, tm, w) = Some (cs', reg', dl', tm', w')"
  shows "dl' = Min (insert dl ((wake \<circ> c_rtc) ` {c \<in> set cs'. client_is_alive E c}))"
  using assms(2)
proof (induction cs arbitrary: reg dl tm w cs')
  case (Cons c cs)
  then obtain c1 reg1 dl1 tm1 w1 cs1 where
    1: "poll_client E fuel now c (reg, dl, tm, w) = Some (c1, reg1, dl1, tm1, w1)"
    and 2: "poll_clients E fuel now cs (reg1, dl1, tm1, w1) = Some (cs1, reg', dl', tm', w')"
    and cs': "cs' = c1 # cs1"
    by (auto split: option.splits)
  let ?A = "(wake \<circ> c_rtc) ` {c \<in> set cs1. client_is_alive E c}"
  have A: "(wake \<circ> c_rtc) ` {c \<in> set cs'. client_is_alive E c}
      = (if client_is_alive E c1 then insert (wake (c_rtc c1)) ?A else ?A)"
    by (auto simp: cs')
  have "dl' = Min (insert dl1 ?A)" by (rule Cons.IH [OF 2])
  moreover have "dl1 = (if client_is_alive E c1 then min dl (wake (c_rtc c1)) else dl)"
    by (rule poll_client_deadline [OF assms(1) 1])
  moreover have "Min (insert (min a b) S) = Min (insert a (insert b S))" if "finite S" for a b :: nat and S
    using that by (cases "S = {}") (simp_all add: min.assoc)
  ultimately show ?case unfolding A by simp
qed simp

text \<open>
  C13: \<^verbatim>\<open>poll_all\<close> returns, and in time for the session clocks. With a str0m that has finitely many outputs pending per
  session, two more rounds than the largest budget are enough. The deadline it returns is the earliest of 100 ms
  after \<open>now\<close> and the instants at which the sessions that are still alive asked to be woken, each in the state in which
  polling left it: never later than any of them, and never earlier than needed.
\<close>

theorem poll_all_returns:
  assumes "rtc_quiesces E budget" "rtc_rests E wake"
    and "\<forall>c \<in> set (r_clients reg). budget (c_rtc c) + 2 \<le> fuel"
  shows "\<exists>reg' w'. poll_all E fuel now reg w = Some (reg',
      Min (insert (now + from_millis 100) {wake (c_rtc c) | c. c \<in> set (r_clients reg') \<and> client_is_alive E c}), w')"
proof -
  obtain cs reg1 dl tm w' where
    p: "poll_clients E fuel now (r_clients reg) (reg, now + from_millis 100, None, w) = Some (cs, reg1, dl, tm, w')"
    using poll_clients_total [OF assms(1,3)] by (metis prod.exhaust)
  then obtain reg' where r: "poll_all E fuel now reg w = Some (reg', dl, w')" "r_clients reg' = cs"
    by (auto simp: poll_all_def Let_def split: option.split)
  have "(wake \<circ> c_rtc) ` {c \<in> set cs. client_is_alive E c} = {wake (c_rtc c) | c. c \<in> set cs \<and> client_is_alive E c}"
    by auto
  with poll_clients_deadline [OF assms(2) p] r show ?thesis by auto
qed

lemma script_rests: "rtc_rests script_env script_wake"
proof -
  have "fst r' = fst r \<and> script_wake r' = t" if "script_poll r = (r', Some (OutTimeout t))" for r r' t
    using that by (cases r rule: script_poll.cases) auto
  then show ?thesis by (fastforce simp: rtc_rests_def script_env_def)
qed

lemma script_quiesces: "rtc_quiesces script_env (\<lambda>r. length (snd r))"
proof -
  have "(\<exists>t. out = OutTimeout t) \<or> length (snd r') < length (snd r)" if "script_poll r = (r', Some out)" for r r' out
    using that by (cases r rule: script_poll.cases) auto
  then show ?thesis by (auto simp: rtc_quiesces_def script_env_def split: prod.splits)
qed

section \<open>More fuel changes nothing\<close>

lemma poll_client_mono:
  assumes "poll_client E fuel now c s = Some r" "fuel \<le> fuel'"
  shows "poll_client E fuel' now c s = Some r"
  using assms
proof (induction fuel arbitrary: fuel' c s)
  case (Suc fuel)
  then obtain n where n: "fuel' = Suc n" "fuel \<le> n" by (metis Suc_le_D Suc_le_mono)
  obtain reg dl tm w where s: "s = (reg, dl, tm, w)" by (metis prod.exhaust)
  obtain c' p w' where p: "poll_output E c w = (c', p, w')" by (metis prod.exhaust)
  note IH = Suc.IH [OF _ n(2)]
  show ?case
    using Suc.prems(1) p IH by (cases p) (auto simp: s n(1) Let_def split: if_splits prod.splits)
qed simp

lemma poll_clients_mono:
  assumes "poll_clients E fuel now cs s = Some r" "fuel \<le> fuel'"
  shows "poll_clients E fuel' now cs s = Some r"
  using assms(1)
proof (induction cs arbitrary: s r)
  case (Cons c cs)
  then obtain c1 s1 r1 where 1: "poll_client E fuel now c s = Some (c1, s1)"
    and 2: "poll_clients E fuel now cs s1 = Some r1" and r: "r = (c1 # fst r1, snd r1)"
    by (cases "poll_client E fuel now c s") (auto split: option.splits prod.splits)
  from poll_client_mono [OF 1 assms(2)] Cons.IH [OF 2] r show ?case by (simp split: prod.splits)
qed simp

lemma loop_head_mono:
  assumes "loop_head E fuel reg w = Some r" "fuel \<le> fuel'"
  shows "loop_head E fuel' reg w = Some r"
proof -
  have "poll_all E fuel' now reg w = poll_all E fuel now reg w" if "poll_all E fuel now reg w \<noteq> None" for now reg w
    using that poll_clients_mono [OF _ assms(2), of E now "r_clients reg" "(reg, now + from_millis 100, None, w)"]
    by (cases "poll_clients E fuel now (r_clients reg) (reg, now + from_millis 100, None, w)")
       (auto simp: poll_all_def)
  then have "poll_all E fuel' now reg w = Some x" if "poll_all E fuel now reg w = Some x" for now reg w x
    using that by fastforce
  with assms(1) show ?thesis
    unfolding loop_head_def Let_def by (auto split: prod.splits option.splits)
qed

section \<open>Serving\<close>

lemma reachable_trans:
  assumes "room_reachable E reg w" "room_step E (reg, w) s"
  shows "room_reachable E (fst s) (snd s)"
  using assms by (cases s) (auto intro: room_reachable.step)

lemma loop_head_serves:
  assumes E: "rtc_quiesces E budget" "detector_contract E peers" and reach: "room_reachable E reg w"
  shows "\<exists>fuel reg' sent sleep w'. loop_head E fuel reg w = Some (reg', sent, sleep, w')
    \<and> room_reachable E reg' w' \<and> from_millis 1 \<le> sleep \<and> sleep \<le> from_millis 100"
proof -
  obtain reg1 w1 where 1: "reap_dead E reg w = (reg1, w1)" by fastforce
  have r1: "room_reachable E reg1 w1" using reach room_step.reap [OF 1] by (rule room_reachable.step)
  obtain now w2 where 2: "instant_now w1 = (now, w2)" by fastforce
  have r2: "room_reachable E reg1 w2" using r1 room_step.read_clock [OF 2] by (rule room_reachable.step)
  define fuel where "fuel = Max (insert 0 (set (map (\<lambda>c. budget (c_rtc c)) (r_clients reg1)))) + 2"
  have "\<forall>c \<in> set (r_clients reg1). budget (c_rtc c) + 2 \<le> fuel" by (simp add: fuel_def)
  then obtain reg3 deadline w3 where 3: "poll_all E fuel now reg1 w2 = Some (reg3, deadline, w3)"
    using poll_all_total [OF E(1)] by blast
  have r3: "room_reachable E reg3 w3" using r2 room_step.poll [OF 3] by (rule room_reachable.step)
  obtain reg4 w4 where 4: "fanout_pending E reg3 w3 = Some (reg4, w4)"
    using fanout_pending_ok [OF room_reachable_ok [OF r3 E(2)]] by blast
  have r4: "room_reachable E reg4 w4" using r3 room_step.fan [OF 4] by (rule room_reachable.step)
  define reg5 where "reg5 = emit_publisher_layer_hints E reg4 w4"
  have r5: "room_reachable E reg5 w4" unfolding reg5_def using r4 room_step.hints by (rule room_reachable.step)
  obtain reg6 out where 6: "drain_transmits reg5 = (reg6, out)" by fastforce
  have r6: "room_reachable E reg6 w4" using r5 room_step.drain [OF 6] by (rule room_reachable.step)
  obtain now' w7 where 7: "instant_now w4 = (now', w7)" by fastforce
  have r7: "room_reachable E reg6 w7" using r6 room_step.read_clock [OF 7] by (rule room_reachable.step)
  have "loop_head E fuel reg w
      = Some (reg6, map (\<lambda>t. (out_contents t, out_destination t)) out, loop_sleep deadline now', w7)"
    by (simp add: loop_head_def 1 2 3 4 6 7 flush_transmits_def reg5_def [symmetric] Let_def)
  moreover have "from_millis 1 \<le> loop_sleep deadline now' \<and> loop_sleep deadline now' \<le> from_millis 100"
    by (simp add: loop_sleep_def MAX_SLEEP_def from_millis_def)
  ultimately show ?thesis using r7 by blast
qed

lemma loop_branch_reachable:
  assumes "room_reachable E reg w" "loop_branch E addr b reg w = (reg', w')"
  shows "room_reachable E reg' w'"
proof -
  obtain now v where now: "instant_now w = (now, v)" by fastforce
  have r: "room_reachable E reg v" using assms(1) room_step.read_clock [OF now] by (rule room_reachable.step)
  show ?thesis
  proof (cases b)
    case SleepElapsed
    with assms(2) now room_reachable.step [OF r room_step.clock] show ?thesis by auto
  next
    case AsoTick
    obtain reg1 w1 where 1: "tick_active_speaker E now reg v = (reg1, w1)" by fastforce
    from room_reachable.step [OF room_reachable.step [OF r room_step.speaker [OF 1]] room_step.scores]
    show ?thesis using AsoTick assms(2) now 1 by auto
  next
    case (Received payload src)
    obtain reg1 x w1 where 1: "handle_incoming E reg src addr (take RECV_BUFFER_BYTES payload) w = (reg1, x, w1)"
      by (metis prod.exhaust)
    from room_reachable.step [OF assms(1) room_step.incoming [OF 1]]
    show ?thesis using Received assms(2) 1 by auto
  qed (use assms in auto)
qed

text \<open>
  C2: The receive loop keeps serving. From every reachable room and for every sequence of wake-ups,
  there is an amount of fuel from which on the loop completes: it gets stuck in no iteration and
  panics in none, it stays in reachable rooms, it parks between 1 ms and 100 ms per iteration, and it
  runs one iteration per wake-up up to and including the first shutdown.
\<close>

theorem serve_socket_serves:
  assumes "rtc_quiesces E budget" "detector_contract E peers" "room_reachable E reg w"
  shows "\<exists>n. \<forall>fuel \<ge> n. \<exists>reg' sent sleeps w'. serve_socket E fuel addr bs reg w = Some (reg', sent, sleeps, w')
    \<and> room_reachable E reg' w' \<and> (\<forall>s \<in> set sleeps. from_millis 1 \<le> s \<and> s \<le> from_millis 100)
    \<and> length sleeps = min (length bs) (Suc (length (takeWhile (\<lambda>b. b \<noteq> Shutdown) bs)))"
  using assms(3)
proof (induction bs arbitrary: reg w)
  case Nil
  then show ?case by auto
next
  case (Cons b bs)
  obtain n reg1 sent sleep w1 where
    head: "loop_head E n reg w = Some (reg1, sent, sleep, w1)" and r1: "room_reachable E reg1 w1"
    and sleep: "from_millis 1 \<le> sleep" "sleep \<le> from_millis 100"
    using loop_head_serves [OF assms(1,2) Cons.prems] by blast
  note head' = loop_head_mono [OF head]
  show ?case
  proof (cases "b = Shutdown")
    case True
    with head' r1 sleep show ?thesis by (intro exI [of _ n]) auto
  next
    case False
    obtain reg2 w2 where b: "loop_branch E addr b reg1 w1 = (reg2, w2)" by fastforce
    note r2 = loop_branch_reachable [OF r1 b]
    obtain n' where n': "\<forall>fuel \<ge> n'. \<exists>reg' sent sleeps w'. serve_socket E fuel addr bs reg2 w2 = Some (reg', sent, sleeps, w')
        \<and> room_reachable E reg' w' \<and> (\<forall>s \<in> set sleeps. from_millis 1 \<le> s \<and> s \<le> from_millis 100)
        \<and> length sleeps = min (length bs) (Suc (length (takeWhile (\<lambda>b. b \<noteq> Shutdown) bs)))"
      using Cons.IH [OF r2] by blast
    show ?thesis
    proof (intro exI [of _ "max n n'"] allI impI)
      fix fuel assume "max n n' \<le> fuel"
      then have "n \<le> fuel" "n' \<le> fuel" by auto
      from n' [rule_format, OF this(2)] obtain reg' sent' sleeps w' where
        "serve_socket E fuel addr bs reg2 w2 = Some (reg', sent', sleeps, w')" "room_reachable E reg' w'"
        "\<forall>s \<in> set sleeps. from_millis 1 \<le> s \<and> s \<le> from_millis 100"
        "length sleeps = min (length bs) (Suc (length (takeWhile (\<lambda>b. b \<noteq> Shutdown) bs)))" by blast
      with head' [OF \<open>n \<le> fuel\<close>] False b sleep show "\<exists>reg' sent sleeps w'.
          serve_socket E fuel addr (b # bs) reg w = Some (reg', sent, sleeps, w')
          \<and> room_reachable E reg' w' \<and> (\<forall>s \<in> set sleeps. from_millis 1 \<le> s \<and> s \<le> from_millis 100)
          \<and> length sleeps = min (length (b # bs)) (Suc (length (takeWhile (\<lambda>b. b \<noteq> Shutdown) (b # bs))))"
        by auto
    qed
  qed
qed

text \<open>
  A session that gathers a track and wants to be woken at 40 ms, and one that has disconnected: polling at 5 ms returns 40 ms.
\<close>

definition waiting_room :: "(script, u64 list, unit, unit) Registry \<times> world" where
  "waiting_room = join_room (True, [OutEvent (MediaAdded (Mid [1]) Video), OutTimeout (from_millis 40)])
     (join_room (True, [OutEvent IceDisconnected]) empty_room)"

lemma waiting_room_polled:
  "\<exists>reg' dl w'. poll_all script_env 9 (from_millis 5) (fst waiting_room) (snd waiting_room) = Some (reg', dl, w')
     \<and> map c_rtc (r_clients reg') = [(False, []), (True, [OutTimeout (from_millis 40)])]"
  by (simp add: waiting_room_def join_room_def the_client_def Client_new_def SubscriberPacer_new_def with_config_def
      try_with_config_default next_client_id_def insert_client_def now_ms_def empty_room_def Registry_new_def
      script_world_def poll_all_def eval_nat_numeral poll_output_def client_is_alive_def script_env_def
      track_in_added_def arc_new_def poll_media_def is_relay_def Let_def split_beta)

theorem poll_all_returns_witness:
  "\<exists>reg' w'. poll_all script_env 9 (from_millis 5) (fst waiting_room) (snd waiting_room) = Some (reg', from_millis 40, w')"
proof -
  obtain reg dl v where p: "poll_all script_env 9 (from_millis 5) (fst waiting_room) (snd waiting_room) = Some (reg, dl, v)"
    and rtcs: "map c_rtc (r_clients reg) = [(False, []), (True, [OutTimeout (from_millis 40)])]"
    using waiting_room_polled by (elim exE conjE)
  have b: "\<forall>c \<in> set (r_clients (fst waiting_room)). length (snd (c_rtc c)) + 2 \<le> 9"
    by (simp add: waiting_room_def join_room_def the_client_def Client_new_def SubscriberPacer_new_def with_config_def
        try_with_config_default next_client_id_def insert_client_def now_ms_def empty_room_world Let_def split_beta
        foldl_track_open)
  have "{script_wake (c_rtc c) | c. c \<in> set (r_clients reg) \<and> client_is_alive script_env c}
      = script_wake ` {r \<in> set (map c_rtc (r_clients reg)). fst r}"
    by (auto simp: client_is_alive_def script_env_def)
  also have "\<dots> = {from_millis 40}" unfolding rtcs by (auto intro: rev_image_eqI [of "(True, [OutTimeout (from_millis 40)])"])
  finally have "dl = from_millis 40"
    using poll_all_returns [OF script_quiesces script_rests b, of "from_millis 5" "snd waiting_room"] p
    by (simp add: from_millis_def)
  with p show ?thesis by (intro exI) simp
qed

theorem serve_socket_serves_witness:
  "\<exists>n. \<forall>fuel \<ge> n. \<exists>reg' sent sleeps w'.
     serve_socket script_env fuel (0, 3478) [SleepElapsed, AsoTick, Shutdown, SleepElapsed] (fst demo_room) (snd demo_room)
       = Some (reg', sent, sleeps, w')
    \<and> room_reachable script_env reg' w' \<and> (\<forall>s \<in> set sleeps. from_millis 1 \<le> s \<and> s \<le> from_millis 100)
    \<and> length sleeps = 3"
proof -
  have "min (length [SleepElapsed, AsoTick, Shutdown, SleepElapsed])
      (Suc (length (takeWhile (\<lambda>b. b \<noteq> Shutdown) [SleepElapsed, AsoTick, Shutdown, SleepElapsed]))) = 3" by simp
  with serve_socket_serves [OF script_quiesces script_contract demo_room_reachable,
      of "(0, 3478)" "[SleepElapsed, AsoTick, Shutdown, SleepElapsed]"] show ?thesis by (simp only:)
qed

end
