(* ===== verification/Process.thy ===== *)
theory Process
  imports Serving Metrics_Text
begin

text \<open>
  The outermost layer: building a session (\<^verbatim>\<open>rtc.rs\<close>, \<^verbatim>\<open>raw.rs\<close>), the default congestion-control hook
  (\<^verbatim>\<open>cc.rs\<close>), and binding a socket and running the loop on it (\<^verbatim>\<open>udp_loop.rs\<close>). Sockets, Prometheus and str0m's configuration are parameters.
\<close>

section \<open>Building a session (rtc.rs, raw.rs)\<close>

text \<open>str0m's \<^verbatim>\<open>RtcConfig\<close>: its default, enabling bandwidth estimation with an initial bitrate, and building.\<close>

record ('k, 'r) rtc_config_ops =
  cfg_default :: 'k
  cfg_enable_bwe :: "'k \<Rightarrow> u64 option \<Rightarrow> 'k"
  cfg_build :: "'k \<Rightarrow> instant \<Rightarrow> 'r"

datatype 'k SfuRtcBuilder = SfuRtcBuilder (inner: 'k)

datatype 'r SfuRtc = SfuRtc (sfu_rtc: 'r)

definition SfuRtcBuilder_new :: "('k, 'r) rtc_config_ops \<Rightarrow> 'k SfuRtcBuilder" where
  "SfuRtcBuilder_new C = SfuRtcBuilder (cfg_default C)"

definition enable_bwe :: "('k, 'r) rtc_config_ops \<Rightarrow> 'k SfuRtcBuilder \<Rightarrow> u64 \<Rightarrow> 'k SfuRtcBuilder" where
  "enable_bwe C b initial_bitrate_bps = SfuRtcBuilder (cfg_enable_bwe C (inner b) (Some initial_bitrate_bps))"

definition build :: "('k, 'r) rtc_config_ops \<Rightarrow> 'k SfuRtcBuilder \<Rightarrow> world \<Rightarrow> 'r SfuRtc \<times> world" where
  "build C b w = (let (now, w) = instant_now w in (SfuRtc (cfg_build C (inner b) now), w))"

definition from_raw :: "'r \<Rightarrow> 'r SfuRtc" where
  "from_raw rtc = SfuRtc rtc"

definition rtc_config :: "('k, 'r) rtc_config_ops \<Rightarrow> 'k" where
  "rtc_config C = cfg_default C"

text \<open>
  The builder is the raw path with the two steps in order: what \<^verbatim>\<open>build\<close> returns is what wrapping the
  raw configuration at the same instant returns, and it costs one reading of the clock.
\<close>

lemma builder_is_raw:
  "build C (enable_bwe C (SfuRtcBuilder_new C) bps) w =
     (from_raw (cfg_build C (cfg_enable_bwe C (rtc_config C) (Some bps)) (fst (instant_now w))), snd (instant_now w))"
  by (simp add: build_def enable_bwe_def SfuRtcBuilder_new_def from_raw_def rtc_config_def split_beta)

section \<open>The congestion-control hook (cc.rs)\<close>

text \<open>
  The trait has two methods; the implementation that the kit ships leaves congestion control to str0m.
\<close>

datatype DefaultGoogCC = DefaultGoogCC

definition cc_on_twcc_feedback :: "DefaultGoogCC \<Rightarrow> u64 \<Rightarrow> u8 list \<Rightarrow> instant \<Rightarrow> DefaultGoogCC" where
  "cc_on_twcc_feedback cc peer_id payload now = cc"

definition cc_egress_estimate_bps :: "DefaultGoogCC \<Rightarrow> u64 \<Rightarrow> u64 option" where
  "cc_egress_estimate_bps cc peer_id = None"

text \<open>Whatever feedback it is fed, it never offers an estimate of its own.\<close>

lemma default_cc_silent:
  "cc_egress_estimate_bps (foldl (\<lambda>cc (i, payload, now). cc_on_twcc_feedback cc i payload now) cc fs) peer_id = None"
  by (simp add: cc_egress_estimate_bps_def)

section \<open>Binding and running (udp\_loop.rs)\<close>

record 's net =
  udp_bind :: "string \<Rightarrow> 's option"
  udp_local_addr :: "'s \<Rightarrow> socket_addr option"

definition bind_addr :: "SfuConfig \<Rightarrow> string" where
  "bind_addr cfg = bind_address cfg @ '':'' @ nat_to_string (unat (udp_port cfg))"

definition bind :: "'s net \<Rightarrow> SfuConfig \<Rightarrow> string + 's" where
  "bind N cfg =
     (case udp_bind N (bind_addr cfg) of
        None \<Rightarrow> Inl (''failed to bind UDP socket at '' @ bind_addr cfg)
      | Some socket \<Rightarrow> (case udp_local_addr N socket of
                          None \<Rightarrow> Inl ''failed to read local_addr''
                        | Some _ \<Rightarrow> Inr socket))"

text \<open>
  \<^verbatim>\<open>serve\<close> reads the local address once more before the loop starts. The outcome is an error, or the
  state in which the loop stopped, what it sent and how long it parked; \<open>None\<close> is a panic, or a loop
  that has not ended.
\<close>

definition serve_bound ::
    "('r, 'd, 'p, 't) env \<Rightarrow> nat \<Rightarrow> 's net \<Rightarrow> 's \<Rightarrow> branch list \<Rightarrow> nat \<Rightarrow> world
     \<Rightarrow> (string + ('r, 'd, 'p, 't) Registry \<times> (u8 list \<times> socket_addr) list \<times> duration list \<times> world) option" where
  "serve_bound E fuel N socket bs metrics w =
     (case udp_local_addr N socket of
        None \<Rightarrow> Some (Inl ''failed to read local_addr'')
      | Some local_addr \<Rightarrow> map_option Inr (serve E fuel local_addr bs metrics w))"

definition run_udp_loop ::
    "('r, 'd, 'p, 't) env \<Rightarrow> nat \<Rightarrow> 'g option \<Rightarrow> (metric_opts \<Rightarrow> bool) \<Rightarrow> ('g \<Rightarrow> metric_opts \<Rightarrow> 'g option)
     \<Rightarrow> 's net \<Rightarrow> SfuConfig \<Rightarrow> branch list \<Rightarrow> nat \<Rightarrow> world
     \<Rightarrow> (string + ('r, 'd, 'p, 't) Registry \<times> (u8 list \<times> socket_addr) list \<times> duration list \<times> world) option" where
  "run_udp_loop E fuel new_custom create register N cfg bs metrics w =
     (case SfuMetrics_new_default new_custom create register of
        None \<Rightarrow> None
      | Some _ \<Rightarrow> (case bind N cfg of
                     Inl e \<Rightarrow> Some (Inl e)
                   | Inr socket \<Rightarrow> serve_bound E fuel N socket bs metrics w))"

section \<open>A loop that owns its room\<close>

lemma fanout_empty: "fanout E p [] w = ([], w)"
  by (simp add: fanout_def split: Propagated.split option.split)

lemma fanout_one_empty:
  assumes "r_clients reg = []"
  shows "\<exists>reg' w'. fanout_one E now p reg w = Some (reg', w') \<and> r_clients reg' = []"
  using assms
  by (cases p) (simp_all add: fanout_one_def update_pacer_layers_def fanout_empty)

lemma fanout_loop_empty:
  "r_clients reg = [] \<Longrightarrow> \<exists>reg' w'. fanout_loop E now reg w = Some (reg', w') \<and> r_clients reg' = []"
proof (induction E now reg w rule: fanout_loop.induct)
  case (1 E now reg w)
  show ?case
  proof (cases "r_to_propagate reg")
    case Nil
    with 1 show ?thesis by (simp add: fanout_loop.simps)
  next
    case (Cons p ps)
    obtain reg1 w1 where "fanout_one E now p (reg\<lparr>r_to_propagate := ps\<rparr>) w = Some (reg1, w1)" "r_clients reg1 = []"
      using fanout_one_empty [of "reg\<lparr>r_to_propagate := ps\<rparr>" E now p w] "1.prems" by auto
    with 1 Cons show ?thesis by (simp add: fanout_loop.simps [of E now reg])
  qed
qed

definition park_ok :: "duration \<Rightarrow> bool" where
  "park_ok d \<longleftrightarrow> from_millis 1 \<le> d \<and> d \<le> from_millis 100"

lemma loop_head_empty:
  assumes "r_clients reg = []"
  shows "\<exists>reg' sleep w'. loop_head E fuel reg w = Some (reg', [], sleep, w') \<and> r_clients reg' = [] \<and> park_ok sleep"
proof -
  define v where "v = w\<lparr>clock_reads := Suc (clock_reads w)\<rparr>"
  have reap: "reap_dead E reg w = (reg, w)" using assms by (simp add: reap_dead_def)
  obtain dl where poll: "poll_all E fuel (clock w (clock_reads w)) reg v = Some (reg, dl, v)"
    using assms by (simp add: poll_all_def)
  obtain reg' w' where fan: "fanout_pending E reg v = Some (reg', w')" "r_clients reg' = []"
    using fanout_loop_empty [OF assms, of E "fst (instant_now v)" "snd (instant_now v)"]
    by (auto simp: fanout_pending_def split_beta)
  have flush: "flush_transmits rg = (rg\<lparr>r_clients := []\<rparr>, [])" if "r_clients rg = []" for rg :: "('a, 'b, 'c, 'd) Registry"
    using that by (simp add: flush_transmits_def drain_transmits_def)
  have "r_clients (emit_publisher_layer_hints E reg' w') = []"
    by (simp add: emit_publisher_layer_hints_def foldl_push_back fan(2))
  note f = flush [OF this]
  have "park_ok (loop_sleep dl now)" for now
    by (simp add: park_ok_def loop_sleep_def MAX_SLEEP_def from_millis_def)
  with fan(1) f show ?thesis
    by (simp add: loop_head_def reap instant_now_def Let_def poll [unfolded v_def] v_def)
qed

lemma loop_branch_empty:
  assumes "r_clients reg = []"
  shows "r_clients (fst (loop_branch E a b reg w)) = []"
  using assms
  by (cases b) (auto simp: tick_def tick_active_speaker_def push_back_def handle_incoming_def Let_def split_beta
      split: option.splits)

lemma serve_socket_empty:
  "r_clients reg = [] \<Longrightarrow> \<exists>reg' sleeps w'. serve_socket E fuel a bs reg w = Some (reg', [], sleeps, w')
     \<and> r_clients reg' = [] \<and> list_all park_ok sleeps
     \<and> length sleeps = min (length bs) (Suc (length (takeWhile (\<lambda>b. b \<noteq> Shutdown) bs)))"
proof (induction bs arbitrary: reg w)
  case (Cons b bs)
  obtain reg1 sleep w1 where h: "loop_head E fuel reg w = Some (reg1, [], sleep, w1)" "r_clients reg1 = []" "park_ok sleep"
    using loop_head_empty [OF Cons.prems] by blast
  obtain reg2 w2 where b: "loop_branch E a b reg1 w1 = (reg2, w2)" by fastforce
  with loop_branch_empty [OF h(2), of E a b w1] have "r_clients reg2 = []" by simp
  from Cons.IH [OF this, of w2] h b show ?case by fastforce
qed simp

lemma serve_empty:
  "\<exists>reg sleeps w'. serve E fuel a bs m w = Some (reg, [], sleeps, w') \<and> r_clients reg = [] \<and> list_all park_ok sleeps
     \<and> length sleeps = min (length bs) (Suc (length (takeWhile (\<lambda>b. b \<noteq> Shutdown) bs)))"
  unfolding serve_def Registry_new_def split_beta Let_def fst_conv snd_conv by (rule serve_socket_empty) simp

text \<open>
  C39: \<^verbatim>\<open>run_udp_loop\<close> never panics, fails only when the socket does, and otherwise runs until it is shut down.
  Given a Prometheus registry that accepts well-formed metrics, it returns the error that names the address
  when binding fails and the error of the local address when that cannot be read; otherwise it runs one iteration for
  each wake-up, receive errors included, up to and including the first shutdown, and ends only then. But the
  room it serves is its own: no client can be inserted, so from any sequence of datagrams and ticks nothing is ever
  sent and the room stays empty, and each iteration parks between 1 and 100 ms.
\<close>

theorem run_udp_loop_outcome:
  assumes "registry_contract names create register" "names g = {}"
  shows "case udp_bind N (bind_addr cfg) of
      None \<Rightarrow> run_udp_loop E fuel (Some g) create register N cfg bs m w
        = Some (Inl (''failed to bind UDP socket at '' @ bind_addr cfg))
    | Some s \<Rightarrow>
        (case udp_local_addr N s of
           None \<Rightarrow> run_udp_loop E fuel (Some g) create register N cfg bs m w = Some (Inl ''failed to read local_addr'')
         | Some a \<Rightarrow> \<exists>reg sleeps w'. run_udp_loop E fuel (Some g) create register N cfg bs m w
             = Some (Inr (reg, [], sleeps, w')) \<and> r_clients reg = [] \<and> list_all park_ok sleeps
             \<and> length sleeps = min (length bs) (Suc (length (takeWhile (\<lambda>b. b \<noteq> Shutdown) bs))))"
proof -
  obtain g' where "SfuMetrics_new_default (Some g) create register = Some g'"
    using SfuMetrics_new_ok [OF assms] by (auto simp: SfuMetrics_new_default_def)
  then show ?thesis
    using serve_empty [of E fuel _ bs m w]
    by (fastforce simp: run_udp_loop_def bind_def serve_bound_def split: option.split)
qed

theorem run_udp_loop_outcome_witness:
  "\<exists>reg sleeps w'. run_udp_loop script_env 0 (Some []) (\<lambda>_. True)
       (\<lambda>g opt. if opt_name opt \<in> set g then None else Some (opt_name opt # g))
       \<lparr>udp_bind = \<lambda>addr. if addr = ''0.0.0.0:3478'' then Some () else None, udp_local_addr = \<lambda>_. Some (0, 3478)\<rparr>
       SfuConfig_default [SleepElapsed, RecvError, Received [1, 2, 3] (1, 9), Shutdown, SleepElapsed] 0 script_world
     = Some (Inr (reg, [], sleeps, w')) \<and> r_clients reg = [] \<and> list_all park_ok sleeps \<and> length sleeps = 4"
proof -
  let ?accept = "\<lambda>g opt. if opt_name opt \<in> set g then None else Some (opt_name opt # g)"
  have c: "registry_contract set (\<lambda>_. True) ?accept" by (simp add: registry_contract_def)
  have a: "bind_addr SfuConfig_default = ''0.0.0.0:3478''"
    by (simp add: bind_addr_def SfuConfig_default_def nat_to_string.simps char_of_def bit_0)
  have four: "Suc (Suc (Suc (Suc 0))) = 4" by simp
  show ?thesis
    using run_udp_loop_outcome [OF c, where g = "[]" and cfg = SfuConfig_default and E = script_env and fuel = 0
      and N = "\<lparr>udp_bind = \<lambda>addr. if addr = ''0.0.0.0:3478'' then Some () else None, udp_local_addr = \<lambda>_. Some (0, 3478)\<rparr>"
      and bs = "[SleepElapsed, RecvError, Received [1, 2, 3] (1, 9), Shutdown, SleepElapsed]" and m = 0 and w = script_world]
    by (simp add: a four)
qed

end
