(* ===== verification/Builds.thy ===== *)
theory Builds
  imports Room
begin

text \<open>
  What differs between builds of the crate. The model is the build with every feature on; this theory
  holds the code that other choices of features compile instead: the compile-time guards, the pacer
  driven from \<^verbatim>\<open>poll_all\<close> when \<^verbatim>\<open>kalman-bwe\<close> is off (\<^verbatim>\<open>registry/drive.rs\<close>), and the metrics that do
  nothing when Prometheus is off (\<^verbatim>\<open>metrics/noop.rs\<close>).
\<close>

section \<open>Guards\<close>

record features =
  pacer :: bool
  kalman_bwe :: bool
  googcc_bwe :: bool

text \<open>The constant assertion in \<^verbatim>\<open>drive.rs\<close>, present when \<^verbatim>\<open>pacer\<close> is on, and the \<^verbatim>\<open>compile_error!\<close> of \<^verbatim>\<open>registry/mod.rs\<close>.\<close>

definition poll_all_drives :: "features \<Rightarrow> bool" where
  "poll_all_drives f \<longleftrightarrow> pacer f \<and> \<not> kalman_bwe f"

definition update_pacer_layers_drives :: "features \<Rightarrow> bool" where
  "update_pacer_layers_drives f \<longleftrightarrow> pacer f \<and> kalman_bwe f"

definition PACER_SINGLE_DRIVER_GUARD :: "features \<Rightarrow> bool" where
  "PACER_SINGLE_DRIVER_GUARD f \<longleftrightarrow> (pacer f \<longrightarrow> poll_all_drives f \<noteq> update_pacer_layers_drives f)"

definition registry_compiles :: "features \<Rightarrow> bool" where
  "registry_compiles f \<longleftrightarrow> \<not> (googcc_bwe f \<and> \<not> kalman_bwe f)"

text \<open>The first guard never fires: with the pacer on, exactly one of the two places drives it.\<close>

lemma single_driver: "PACER_SINGLE_DRIVER_GUARD f"
  by (simp add: PACER_SINGLE_DRIVER_GUARD_def poll_all_drives_def update_pacer_layers_drives_def)

text \<open>The unit test that repeats the assertion at run time, in a build with the pacer.\<close>

definition exactly_one_pacer_driver :: "features \<Rightarrow> bool" where
  "exactly_one_pacer_driver f \<longleftrightarrow> poll_all_drives f \<noteq> update_pacer_layers_drives f"

lemma driver_test_passes: "pacer f \<Longrightarrow> exactly_one_pacer_driver f"
  using single_driver [of f] by (simp add: exactly_one_pacer_driver_def PACER_SINGLE_DRIVER_GUARD_def)

section \<open>The pacer driven by \<open>poll_all\<close>\<close>

text \<open>
  The arm of \<^verbatim>\<open>poll_all\<close> on a bandwidth estimate when \<^verbatim>\<open>kalman-bwe\<close> is off: the client, the events to queue and
  the new world; \<open>None\<close> is a panic of the pacer.
\<close>

definition poll_drive ::
    "nat \<Rightarrow> client_id \<Rightarrow> BandwidthEstimate \<Rightarrow> 'r Client \<Rightarrow> world
     \<Rightarrow> ('r Client \<times> ('p, 't) Propagated list \<times> world) option" where
  "poll_drive m peer_id estimate c w =
     (case drive_pacer c (be_bps estimate) of
        None \<Rightarrow> None
      | Some (c, action) \<Rightarrow>
          let (event, suspend) = apply_pacer_action action peer_id;
              (c, w) = (case suspend of
                          Some s \<Rightarrow> (set_suspended c s, emit m (inc_suspend_video (if s then ''enter'' else ''exit'')) w)
                        | None \<Rightarrow> (c, w))
          in Some (c, case event of Some event \<Rightarrow> [event] | None \<Rightarrow> [], w))"

text \<open>
  It never panics, keeps the pacer and the flag that stops video in step, and leaves identity and tracks
  alone, as the other driver does.
\<close>

lemma poll_drive_ok:
  fixes c :: "'r Client"
  assumes "client_ok c"
  shows "\<exists>c' evs w'. poll_drive m i e c w = Some (c', evs :: ('p, 't) Propagated list, w')
    \<and> client_ok c' \<and> ident c' = ident c \<and> quiet w w'"
proof -
  obtain c2 a where d: "drive_pacer c (be_bps e) = Some (c2, a)" "ident c2 = ident c" "pacer_inv (c_pacer c2)"
    "suspended (c_pacer c2) = (case suspend_effect a of Some s \<Rightarrow> s | None \<Rightarrow> c_suspended c)"
    "c_suspended c2 = c_suspended c" "c_tracks_out c2 = c_tracks_out c" "c_id c2 = c_id c"
    using drive_pacer_ok [OF assms] by metis
  obtain ev suspend where ap: "(apply_pacer_action a i :: ('p, 't) Propagated option \<times> bool option) = (ev, suspend)"
    by fastforce
  have eff: "suspend = suspend_effect a"
    using snd_apply_pacer_action [of a i] ap by (metis snd_conv)
  have "client_ok (case suspend of Some s \<Rightarrow> set_suspended c2 s | None \<Rightarrow> c2)"
    using d eff assms by (auto simp: client_ok_def set_suspended_def split: option.splits)
  moreover have "ident (case suspend of Some s \<Rightarrow> set_suspended c2 s | None \<Rightarrow> c2) = ident c"
    using d(2) by (auto simp: ident_def set_suspended_def arc_ids_def is_relay_def split: option.splits)
  ultimately show ?thesis
    using d(1) ap by (auto simp: poll_drive_def Let_def intro!: quiet_intros split: option.splits)
qed

section \<open>Metrics without Prometheus\<close>

text \<open>The operations that the rest of the crate calls on \<^verbatim>\<open>SfuMetrics\<close>, which two modules implement.\<close>

record metrics_api =
  api_inc_forwarded_packets :: "string \<Rightarrow> prom_call list"
  api_observe_forward_latency :: "string \<Rightarrow> f64 \<Rightarrow> prom_call list"
  api_inc_layer_selection :: "string \<Rightarrow> prom_call list"
  api_inc_suspend_video :: "string \<Rightarrow> prom_call list"
  api_inc_pacer_tick_throttled :: "prom_call list"
  api_reap_video_frames_dropped :: "u64 \<Rightarrow> prom_call list"
  api_inc_client_connect :: "prom_call list"
  api_inc_client_disconnect :: "prom_call list"
  api_inc_active_participants :: "prom_call list"
  api_dec_active_participants :: "prom_call list"
  api_inc_dominant_speaker_changes :: "prom_call list"
  api_update_peer_rtcp :: "u64 \<Rightarrow> f32 \<Rightarrow> f64 \<Rightarrow> f64 \<Rightarrow> prom_call list"
  api_update_peer_bwe :: "u64 \<Rightarrow> u64 \<Rightarrow> prom_call list"
  api_update_peer_binding_term :: "u64 \<Rightarrow> string \<Rightarrow> prom_call list"
  api_update_peer_speaker_scores :: "u64 \<Rightarrow> f64 \<Rightarrow> f64 \<Rightarrow> f64 \<Rightarrow> prom_call list"
  api_add_track_bytes_in :: "string \<Rightarrow> u64 \<Rightarrow> prom_call list"
  api_add_track_bytes_out :: "string \<Rightarrow> u64 \<Rightarrow> prom_call list"
  api_inc_rtcp_pli :: "string \<Rightarrow> prom_call list"
  api_reap_dead_peer :: "u64 \<Rightarrow> prom_call list"

definition prom_metrics :: metrics_api where
  "prom_metrics =
     \<lparr>api_inc_forwarded_packets = inc_forwarded_packets, api_observe_forward_latency = observe_forward_latency,
      api_inc_layer_selection = inc_layer_selection, api_inc_suspend_video = inc_suspend_video,
      api_inc_pacer_tick_throttled = inc_pacer_tick_throttled,
      api_reap_video_frames_dropped = reap_video_frames_dropped, api_inc_client_connect = inc_client_connect,
      api_inc_client_disconnect = inc_client_disconnect, api_inc_active_participants = inc_active_participants,
      api_dec_active_participants = dec_active_participants,
      api_inc_dominant_speaker_changes = inc_dominant_speaker_changes, api_update_peer_rtcp = update_peer_rtcp,
      api_update_peer_bwe = update_peer_bwe, api_update_peer_binding_term = update_peer_binding_term,
      api_update_peer_speaker_scores = update_peer_speaker_scores, api_add_track_bytes_in = add_track_bytes_in,
      api_add_track_bytes_out = add_track_bytes_out, api_inc_rtcp_pli = inc_rtcp_pli,
      api_reap_dead_peer = reap_dead_peer\<rparr>"

definition noop_metrics :: metrics_api where
  "noop_metrics =
     \<lparr>api_inc_forwarded_packets = \<lambda>_. [], api_observe_forward_latency = \<lambda>_ _. [],
      api_inc_layer_selection = \<lambda>_. [], api_inc_suspend_video = \<lambda>_. [], api_inc_pacer_tick_throttled = [],
      api_reap_video_frames_dropped = \<lambda>_. [], api_inc_client_connect = [], api_inc_client_disconnect = [],
      api_inc_active_participants = [], api_dec_active_participants = [], api_inc_dominant_speaker_changes = [],
      api_update_peer_rtcp = \<lambda>_ _ _ _. [], api_update_peer_bwe = \<lambda>_ _. [], api_update_peer_binding_term = \<lambda>_ _. [],
      api_update_peer_speaker_scores = \<lambda>_ _ _ _. [], api_add_track_bytes_in = \<lambda>_ _. [],
      api_add_track_bytes_out = \<lambda>_ _. [], api_inc_rtcp_pli = \<lambda>_. [], api_reap_dead_peer = \<lambda>_. []\<rparr>"

text \<open>Only the second has an operation for dropped frames: with Prometheus on, a client counts them on a handle of its own.\<close>

definition noop_inc_video_frames_dropped :: "u64 \<Rightarrow> prom_call list" where
  "noop_inc_video_frames_dropped peer_id = []"

text \<open>Both implementations make only calls that fit the registered schema; the second makes none.\<close>

lemma metrics_api_calls_ok:
  assumes "api \<in> {prom_metrics, noop_metrics}"
  shows "list_all call_ok (api_inc_forwarded_packets api k @ api_observe_forward_latency api k x
    @ api_inc_layer_selection api k @ api_inc_suspend_video api k @ api_inc_pacer_tick_throttled api
    @ api_reap_video_frames_dropped api p @ api_inc_client_connect api @ api_inc_client_disconnect api
    @ api_inc_active_participants api @ api_dec_active_participants api @ api_inc_dominant_speaker_changes api
    @ api_update_peer_rtcp api p l r j @ api_update_peer_bwe api p n
    @ api_update_peer_binding_term api p (BindingTerm_as_str t) @ api_update_peer_speaker_scores api p x y z
    @ api_add_track_bytes_in api k n @ api_add_track_bytes_out api k n @ api_inc_rtcp_pli api k
    @ api_reap_dead_peer api p)"
proof -
  have "api = prom_metrics \<or> api = noop_metrics" using assms by simp
  then show ?thesis
    by (elim disjE) (simp_all add: prom_metrics_def noop_metrics_def metric_ops_ok)
qed

end
