(* ===== verification/Forwarding.thy ===== *)
theory Forwarding
  imports Scripted "HOL-Library.Multiset"
begin

text \<open>
  What reaches a subscriber, and how often the slow control loops act: the forwarding decision of
  \<^verbatim>\<open>client/fanout.rs\<close> against a declarative predicate, the layer hints of \<^verbatim>\<open>registry/drive.rs\<close>, and
  the minimum gap between two keyframe requests on a track.
\<close>

section \<open>Which packets are forwarded\<close>

definition layer_admits :: "('r, 'd, 'p, 't) env \<Rightarrow> 'r Client \<Rightarrow> ('p, 't) SfuMediaPayload \<Rightarrow> bool" where
  "layer_admits E c d \<longleftrightarrow> mp_rid d \<in> {None, Some (best_fit_select (c_desired_layer c) (active_rids E c))}"

definition temporal_admits :: "'r Client \<Rightarrow> ('p, 't) SfuMediaPayload \<Rightarrow> bool" where
  "temporal_admits c d \<longleftrightarrow>
     pred_option (\<lambda>dd. av1_temporal_id dd \<le> c_max_temporal_layer c) (mp_av1_dd d)
     \<and> pred_option (\<lambda>fm. vfm_temporal_id fm \<le> c_max_vfm_temporal_layer c) (mp_vfm_fm d)"

text \<open>The subscriber mirrors the packet's track and knows it to be audio.\<close>

definition known_audio :: "world \<Rightarrow> 'r Client \<Rightarrow> client_id \<Rightarrow> ('p, 't) SfuMediaPayload \<Rightarrow> bool" where
  "known_audio w c origin d \<longleftrightarrow>
     (case find (track_matches w origin (SfuMid_to_str0m (mp_mid d))) (c_tracks_out c) of
        Some t \<Rightarrow> map_option ti_kind (upgrade w (to_track_in t)) = Some Audio
      | None \<Rightarrow> False)"

definition forwards ::
    "('r, 'd, 'p, 't) env \<Rightarrow> world \<Rightarrow> client_id \<Rightarrow> ('p, 't) SfuMediaPayload \<Rightarrow> 'r Client \<Rightarrow> bool" where
  "forwards E w origin d c \<longleftrightarrow>
     (if c_suspended c then known_audio w c origin d else True) \<and> layer_admits E c d \<and> temporal_admits c d"

lemma find_map_kind:
  "find_map (\<lambda>trk. case upgrade w (to_track_in trk) of None \<Rightarrow> None
        | Some i \<Rightarrow> if ti_origin i = origin \<and> ti_mid i = m then Some (ti_kind i = Video) else None) ts
     = map_option (\<lambda>t. map_option ti_kind (upgrade w (to_track_in t)) = Some Video) (find (track_matches w origin m) ts)"
  by (induction ts) (auto simp: track_matches_def split: option.splits)

lemma suspended_is_video_iff: "suspended_is_video w c origin d \<longleftrightarrow> \<not> known_audio w c origin d"
proof (cases "find (track_matches w origin (SfuMid_to_str0m (mp_mid d))) (c_tracks_out c)")
  case None
  then show ?thesis by (simp add: suspended_is_video_def known_audio_def find_map_kind)
next
  case (Some t)
  then have "track_matches w origin (SfuMid_to_str0m (mp_mid d)) t" by (auto simp: find_Some_iff)
  then obtain i where "upgrade w (to_track_in t) = Some i" by (auto simp: track_matches_def split: option.splits)
  moreover have "ti_kind i = Video \<longleftrightarrow> ti_kind i \<noteq> Audio" by (cases "ti_kind i") auto
  ultimately show ?thesis
    using Some by (simp add: suspended_is_video_def known_audio_def find_map_kind)
qed

text \<open>What the metrics say about forwarding: packets counted as forwarded, frames counted as dropped.\<close>

fun counts_forwarded :: "prom_call \<Rightarrow> nat" where
  "counts_forwarded (WithLabels forwarded_packets_total _ Inc) = 1"
| "counts_forwarded _ = 0"

fun counts_dropped :: "prom_call \<Rightarrow> nat" where
  "counts_dropped (Handle video_frames_dropped_total _ Inc) = 1"
| "counts_dropped _ = 0"

definition prom_total :: "(prom_call \<Rightarrow> nat) \<Rightarrow> world \<Rightarrow> nat" where
  "prom_total f w = sum_list (map (f \<circ> snd) (prom w))"

lemma prom_total_emit [simp]: "prom_total f (emit m calls w) = prom_total f w + sum_list (map f calls)"
  by (simp add: prom_total_def emit_def comp_def)

lemma prom_total_clock [simp]: "prom_total f (w\<lparr>clock_reads := n\<rparr>) = prom_total f w"
  by (simp add: prom_total_def)

lemma forward_metrics_totals:
  "prom_total counts_forwarded (forward_metrics m k d w) = prom_total counts_forwarded w + 1
   \<and> prom_total counts_dropped (forward_metrics m k d w) = prom_total counts_dropped w"
  by (simp add: forward_metrics_def Let_def metric_ops split: option.splits)

lemma forward_to_writer_delivers:
  assumes "forward_to_writer E origin d c w = (c', w')"
  shows "c' = c\<lparr>c_delivered_media := c_delivered_media c + 1, c_rtc := c_rtc c', c_chosen_rid := c_chosen_rid c'\<rparr>"
    and "prom_total counts_forwarded w' = prom_total counts_forwarded w + 1"
    and "prom_total counts_dropped w' = prom_total counts_dropped w"
  using assms
  by (auto simp: forward_to_writer_def write_parts_def Let_def forward_metrics_totals observe_forward_latency_def
      split_beta split: if_splits option.splits)

lemma handle_media_data_out_cases:
  assumes "handle_media_data_out E origin d c w = (c', w')"
  shows "if forwards E w origin d c
      then c' = c\<lparr>c_delivered_media := c_delivered_media c + 1, c_rtc := c_rtc c', c_chosen_rid := c_chosen_rid c'\<rparr>
      else c' = c"
    and "prom_total counts_forwarded w' = prom_total counts_forwarded w + of_bool (forwards E w origin d c)"
    and "prom_total counts_dropped w' = prom_total counts_dropped w + of_bool (c_suspended c \<and> \<not> known_audio w c origin d)"
proof -
  have "\<not> layer_admits E c d \<longleftrightarrow> (case mp_rid d of None \<Rightarrow> False
      | Some rid \<Rightarrow> rid \<noteq> best_fit_select (c_desired_layer c) (active_rids E c))"
    by (auto simp: layer_admits_def split: option.splits)
  moreover have "\<not> temporal_admits c d \<longleftrightarrow>
      (case mp_av1_dd d of Some dd \<Rightarrow> c_max_temporal_layer c < av1_temporal_id dd | None \<Rightarrow> False)
      \<or> (case mp_vfm_fm d of Some fm \<Rightarrow> c_max_vfm_temporal_layer c < vfm_temporal_id fm | None \<Rightarrow> False)"
    by (auto simp: temporal_admits_def not_le split: option.splits)
  ultimately have out: "handle_media_data_out E origin d c w =
      (if c_suspended c \<and> \<not> known_audio w c origin d
       then (c, emit (fst (c_video_frames_dropped c))
                 [Handle video_frames_dropped_total [peer_label (snd (c_video_frames_dropped c))] Inc] w)
       else if forwards E w origin d c then forward_to_writer E origin d c w else (c, w))"
    unfolding handle_media_data_out_def forwards_def Let_def by (auto simp: suspended_is_video_iff)
  have no: "\<not> forwards E w origin d c" if "c_suspended c \<and> \<not> known_audio w c origin d"
    using that by (simp add: forwards_def)
  from assms forward_to_writer_delivers(1) no
  show "if forwards E w origin d c
      then c' = c\<lparr>c_delivered_media := c_delivered_media c + 1, c_rtc := c_rtc c', c_chosen_rid := c_chosen_rid c'\<rparr>
      else c' = c" unfolding out by (auto split: if_splits)
  from assms forward_to_writer_delivers(2) no
  show "prom_total counts_forwarded w' = prom_total counts_forwarded w + of_bool (forwards E w origin d c)"
    unfolding out by (auto split: if_splits)
  from assms forward_to_writer_delivers(3) no
  show "prom_total counts_dropped w' = prom_total counts_dropped w + of_bool (c_suspended c \<and> \<not> known_audio w c origin d)"
    unfolding out by (auto split: if_splits)
qed

lemma known_audio_quiet:
  assumes "quiet w w'"
  shows "known_audio w' c i d = known_audio w c i d"
proof -
  have "track_matches w' = track_matches w"
    by (simp add: track_matches_def quiet_upgrade [OF assms] fun_eq_iff)
  then show ?thesis
    by (simp only: known_audio_def quiet_upgrade [OF assms])
qed

lemma forwards_quiet: "quiet w w' \<Longrightarrow> forwards E w' = forwards E w"
  by (simp add: forwards_def known_audio_quiet fun_eq_iff)

definition receives ::
    "('r, 'd, 'p, 't) env \<Rightarrow> world \<Rightarrow> client_id \<Rightarrow> ('p, 't) SfuMediaPayload \<Rightarrow> 'r Client \<Rightarrow> bool" where
  "receives E w origin d c \<longleftrightarrow> c_id c \<noteq> origin \<and> forwards E w origin d c"

definition loses ::
    "world \<Rightarrow> client_id \<Rightarrow> ('p, 't) SfuMediaPayload \<Rightarrow> 'r Client \<Rightarrow> bool" where
  "loses w origin d c \<longleftrightarrow> c_id c \<noteq> origin \<and> c_suspended c \<and> \<not> known_audio w c origin d"

lemma fanout_client_media:
  assumes "fanout_client E (MediaDataEv origin d) origin c w = (c', w')" "quiet v w"
  shows "if receives E v origin d c
      then c' = c\<lparr>c_delivered_media := c_delivered_media c + 1, c_rtc := c_rtc c', c_chosen_rid := c_chosen_rid c'\<rparr>
      else c' = c"
    and "prom_total counts_forwarded w' = prom_total counts_forwarded w + of_bool (receives E v origin d c)"
    and "prom_total counts_dropped w' = prom_total counts_dropped w + of_bool (loses v origin d c)"
  using assms(1) handle_media_data_out_cases [of E origin d c w c' w']
  by (auto simp: fanout_client_def receives_def loses_def forwards_quiet [OF assms(2)] known_audio_quiet [OF assms(2)]
      split: if_splits)

lemma for_clients_media:
  assumes "for_clients (fanout_client E (MediaDataEv origin d) origin) cs w = (cs', w')" "quiet v w"
  shows "list_all2 (\<lambda>c c'. if receives E v origin d c
      then c' = c\<lparr>c_delivered_media := c_delivered_media c + 1, c_rtc := c_rtc c', c_chosen_rid := c_chosen_rid c'\<rparr>
      else c' = c) cs cs'
    \<and> prom_total counts_forwarded w' = prom_total counts_forwarded w + length (filter (receives E v origin d) cs)
    \<and> prom_total counts_dropped w' = prom_total counts_dropped w + length (filter (loses v origin d) cs)"
  using assms
proof (induction cs arbitrary: w cs')
  case (Cons c cs)
  obtain c1 w1 where f: "fanout_client E (MediaDataEv origin d) origin c w = (c1, w1)" by fastforce
  obtain cs1 where r: "for_clients (fanout_client E (MediaDataEv origin d) origin) cs w1 = (cs1, w')" "cs' = c1 # cs1"
    using Cons.prems(1) f by (auto split: prod.splits)
  have "quiet v w1"
    using Cons.prems(2) fanout_client_frame [OF f] quiet_trans by fastforce
  from Cons.IH [OF r(1) this] fanout_client_media [OF f Cons.prems(2)] show ?case
    by (simp add: r(2))
qed simp

text \<open>
  C3: Fanning one media packet out changes exactly the clients that should get it. Every client
  other than the publisher whose filters admit the packet (not suspended or the track known to be
  audio; the packet's layer is the one the selector picks, or it has no layer; its AV1 and frame-marking
  temporal ids are within the caps) has one more delivered packet and nothing else but its session and
  last forwarded layer touched; every other client is left as it was, the publisher included. The metrics
  agree: one packet is counted as forwarded per client that receives it, and one frame as dropped
  per suspended client, other than the publisher, that does not know the track to be audio.
\<close>

theorem fanout_media_exact:
  "case fanout E (MediaDataEv origin d) cs w of (cs', w') \<Rightarrow>
     list_all2 (\<lambda>c c'. if receives E w origin d c
       then c' = c\<lparr>c_delivered_media := c_delivered_media c + 1, c_rtc := c_rtc c', c_chosen_rid := c_chosen_rid c'\<rparr>
       else c' = c) cs cs'
     \<and> prom_total counts_forwarded w' = prom_total counts_forwarded w + length (filter (receives E w origin d) cs)
     \<and> prom_total counts_dropped w' = prom_total counts_dropped w + length (filter (loses w origin d) cs)"
proof (cases "fanout E (MediaDataEv origin d) cs w")
  case (Pair cs' w')
  then have "for_clients (fanout_client E (MediaDataEv origin d) origin) cs w = (cs', w')"
    by (simp add: fanout_def)
  from for_clients_media [OF this quiet_refl] Pair show ?thesis by simp
qed

section \<open>A lone subscriber\<close>

definition lone_client :: "script Client" where
  "lone_client = fst (the_client subscriber script_world)"

lemma lone_client_fields: "c_id lone_client = 0" "c_pacer lone_client = default_pacer"
  "c_last_pacer_drive lone_client = None" "c_suspended lone_client = False"
  by (simp_all add: lone_client_def the_client_def Client_new_def SubscriberPacer_new_def with_config_def
      try_with_config_default next_client_id_def script_world_def)

lemma lone_client_tracks: "c_tracks_out lone_client = []" "c_tracks_in lone_client = []" "c_origin lone_client = Local"
  by (simp_all add: lone_client_def the_client_def Client_new_def SubscriberPacer_new_def with_config_def
      try_with_config_default next_client_id_def script_world_def)

section \<open>Keyframe requests\<close>

text \<open>
  A str0m that is wrapped so that every call of \<^verbatim>\<open>request_keyframe\<close> on a writer is written down, and the
  number of calls made for a track.
\<close>

definition recording :: "('r, 'd, 'p, 't) env \<Rightarrow> ('r \<times> Mid list, 'd, 'p, 't) env" where
  "recording E =
     \<lparr>rtc_is_alive = (\<lambda>(r, _). rtc_is_alive E r),
      rtc_disconnect = apfst (rtc_disconnect E),
      rtc_handle_input = (\<lambda>(r, l) i. apfst (\<lambda>r. (r, l)) (rtc_handle_input E r i)),
      rtc_accepts = (\<lambda>(r, _). rtc_accepts E r),
      rtc_poll_output = (\<lambda>(r, l). apfst (\<lambda>r. (r, l)) (rtc_poll_output E r)),
      rtc_writer = (\<lambda>(r, _). rtc_writer E r),
      writer_match_params = (\<lambda>(r, _). writer_match_params E r),
      writer_write = (\<lambda>(r, l) mid k pt nt rt data. apfst (\<lambda>r. (r, l)) (writer_write E r mid k pt nt rt data)),
      writer_request_keyframe =
        (\<lambda>(r, l) mid rid kind. apfst (\<lambda>r. (r, l @ [mid])) (writer_request_keyframe E r mid rid kind)),
      datagram_parses = datagram_parses E, codec_is_video = codec_is_video E,
      media_time_as_seconds = media_time_as_seconds E, det_new = det_new E, det_add_peer = det_add_peer E,
      det_remove_peer = det_remove_peer E, det_record_level = det_record_level E, det_tick = det_tick E,
      det_peer_scores = det_peer_scores E, rid_hash_order = rid_hash_order E, id_hash_order = id_hash_order E\<rparr>"

definition asked :: "Mid \<Rightarrow> ('r \<times> Mid list) Client \<Rightarrow> nat" where
  "asked mid c = length (filter ((=) mid) (snd (c_rtc c)))"

text \<open>
  The requests made for the track \<open>mid\<close> while the client handles a sequence of events of its session, each at the
  last reading of the clock in its event: the one that follows the request.
\<close>

fun gap_requests ::
    "('r \<times> Mid list, 'd, 'p, 't) env \<Rightarrow> Mid \<Rightarrow> ('p, 't) event list \<Rightarrow> ('r \<times> Mid list) Client \<Rightarrow> world \<Rightarrow> instant list" where
  "gap_requests E mid [] c w = []"
| "gap_requests E mid (e # es) c w =
     (let (c', _ :: ('p, 't) Propagated, w') = handle_event E c e w
      in replicate (asked mid c' - asked mid c) (clock w' (clock_reads w' - 1)) @ gap_requests E mid es c' w')"

text \<open>When a keyframe was last asked for on the track \<open>mid\<close>, as the client remembers it, and whether it may ask again.\<close>

definition last_request :: "world \<Rightarrow> Mid \<Rightarrow> 'r Client \<Rightarrow> instant option" where
  "last_request w mid c = Option.bind (find (entry_has_mid w mid) (c_tracks_in c)) last_keyframe_request"

definition request_due :: "('r, 'd, 'p, 't) env \<Rightarrow> world \<Rightarrow> Mid \<Rightarrow> 'r Client \<Rightarrow> bool" where
  "request_due E w mid c \<longleftrightarrow>
     rtc_writer E (c_rtc c) mid \<and> find (entry_has_mid w mid) (c_tracks_in c) \<noteq> None
     \<and> (case last_request w mid c of None \<Rightarrow> True | Some s \<Rightarrow> s + from_secs 1 \<le> clock w (clock_reads w))"

lemma find_update_first:
  "(\<And>x. P (f x) = P x) \<Longrightarrow> find P (update_first P f xs) = map_option f (find P xs)"
  by (induction xs) auto

lemma find_update_first_other:
  "(\<And>x. P (f x) = P x) \<Longrightarrow> (\<And>x. Q x \<Longrightarrow> \<not> P x) \<Longrightarrow> find P (update_first Q f xs) = find P xs"
  by (induction xs) auto

lemma entry_has_mid_clock [simp]: "entry_has_mid (w\<lparr>clock_reads := n\<rparr>) mid = entry_has_mid w mid"
  by (simp add: entry_has_mid_def upgrade_def fun_eq_iff)

lemma entry_has_mid_quiet: "quiet w w' \<Longrightarrow> entry_has_mid w' mid = entry_has_mid w mid"
  by (simp add: entry_has_mid_def quiet_upgrade fun_eq_iff)

lemma entry_has_mid_stamp [simp]: "entry_has_mid w mid (e\<lparr>last_keyframe_request := s\<rparr>) = entry_has_mid w mid e"
  by (simp add: entry_has_mid_def)

text \<open>One call: nothing is asked, or one request is written down and the track stamped with the reading that follows.\<close>

lemma request_recorded:
  assumes "request_keyframe_throttled (recording E) c mid rid kind w = (c', w')" "mono (clock w)"
    and t: "t = clock w' (clock_reads w' - 1)"
  shows "if request_due (recording E) w mid c
    then clock w (clock_reads w) \<le> t \<and> snd (c_rtc c') = snd (c_rtc c) @ [mid]
      \<and> c_tracks_in c' = update_first (entry_has_mid w mid) (\<lambda>e. e\<lparr>last_keyframe_request := Some t\<rparr>) (c_tracks_in c)
    else c' = c"
proof (cases "rtc_writer (recording E) (c_rtc c) mid")
  case False
  with assms(1) show ?thesis by (simp add: request_keyframe_throttled_def request_due_def)
next
  case writer: True
  show ?thesis
  proof (cases "find (entry_has_mid w mid) (c_tracks_in c)")
    case None
    with assms(1) writer show ?thesis by (simp add: request_keyframe_throttled_def request_due_def)
  next
    case (Some e)
    have asks: "writer_request_keyframe (recording E) r mid rid kind
        = ((fst (writer_request_keyframe E (fst r) mid rid kind), snd r @ [mid]), snd (writer_request_keyframe E (fst r) mid rid kind))" for r
      by (cases "writer_request_keyframe E (fst r) mid rid kind") (simp add: recording_def split_beta)
    have step: "clock w n \<le> clock w (Suc n)" for n using assms(2) by (simp add: mono_def)
    show ?thesis
      using assms(1) writer Some step t
      by (auto simp: request_keyframe_throttled_def request_due_def last_request_def asks Let_def split_beta
          duration_since_def KEYFRAME_REQUEST_MIN_GAP_def from_secs_def split: option.splits if_splits)
  qed
qed

lemma request_other_mid:
  assumes "request_keyframe_throttled (recording E) c m rid kind w = (c', w')" "mono (clock w)" "m \<noteq> mid"
  shows "asked mid c' = asked mid c \<and> last_request w' mid c' = last_request w mid c"
proof -
  note r = request_recorded [OF assms(1,2) refl]
  have "entry_has_mid w m e \<Longrightarrow> \<not> entry_has_mid w mid e" for e
    using assms(3) by (auto simp: entry_has_mid_def split: option.splits)
  then show ?thesis
    using r assms(3) request_keyframe_frame(3) [OF assms(1)]
    by (auto simp: asked_def last_request_def entry_has_mid_quiet find_update_first_other split: if_splits)
qed

lemma request_same_mid:
  assumes "request_keyframe_throttled (recording E) c mid rid kind w = (c', w')" "mono (clock w)"
  shows "if request_due (recording E) w mid c
    then asked mid c' = Suc (asked mid c) \<and> last_request w' mid c' = Some (clock w' (clock_reads w' - 1))
      \<and> clock w (clock_reads w) \<le> clock w' (clock_reads w' - 1)
    else asked mid c' = asked mid c \<and> last_request w' mid c' = last_request w mid c"
  using request_recorded [OF assms refl] request_keyframe_frame(3) [OF assms(1)]
  by (auto simp: asked_def last_request_def entry_has_mid_quiet find_update_first request_due_def split: if_splits)

text \<open>The stamps that one event may leave: none new, or one at least a second after the latest.\<close>

definition gap_step :: "Mid \<Rightarrow> ('r \<times> Mid list) Client \<Rightarrow> world \<Rightarrow> ('r \<times> Mid list) Client \<Rightarrow> world \<Rightarrow> bool" where
  "gap_step mid c w c' w' \<longleftrightarrow>
     asked mid c' = asked mid c \<and> last_request w' mid c' = last_request w mid c
     \<or> asked mid c' = Suc (asked mid c) \<and> last_request w' mid c' = Some (clock w' (clock_reads w' - 1))
       \<and> (\<forall>s. last_request w mid c = Some s \<longrightarrow> s + from_secs 1 \<le> clock w' (clock_reads w' - 1))"

lemma gap_step_refl: "gap_step mid c w c w"
  by (simp add: gap_step_def)

lemma gap_step_request:
  assumes "request_keyframe_throttled (recording E) c m rid kind w = (c', w')" "mono (clock w)"
  shows "gap_step mid c w c' w'"
proof (cases "m = mid")
  case True
  with request_same_mid [OF assms [unfolded True]] show ?thesis
    by (fastforce simp: gap_step_def request_due_def split: if_splits)
next
  case False
  with request_other_mid [OF assms] show ?thesis by (simp add: gap_step_def)
qed

definition arcs_known :: "'r Client \<Rightarrow> world \<Rightarrow> bool" where
  "arcs_known c w \<longleftrightarrow> list_all (\<lambda>a. a < next_arc w) (arc_ids c)"

lemma gap_step_added:
  assumes "track_in_added c m kind w = (c', p :: ('p, 't) Propagated, w')" "arcs_known c w"
  shows "gap_step mid c w c' w' \<and> arcs_known c' w'"
proof -
  have old: "entry_has_mid w' mid e = entry_has_mid w mid e" if "e \<in> set (c_tracks_in c)" for e
    using that assms by (auto simp: track_in_added_def arc_new_def entry_has_mid_def upgrade_def arcs_known_def
        arc_ids_def list_all_iff Let_def)
  obtain e where e: "c_tracks_in c' = c_tracks_in c @ [e]" "last_keyframe_request e = None"
    using assms(1) by (auto simp: track_in_added_def Let_def split: prod.splits)
  have "find (entry_has_mid w' mid) (c_tracks_in c) = find (entry_has_mid w mid) (c_tracks_in c)"
    using old by (intro find_cong) auto
  then have "last_request w' mid c' = last_request w mid c"
    using e by (simp add: last_request_def find_snoc split: option.split)
  moreover have "asked mid c' = asked mid c"
    using assms(1) by (auto simp: track_in_added_def asked_def Let_def split: prod.splits)
  moreover have "arcs_known c' w'"
    using assms by (auto simp: track_in_added_def arc_new_def arcs_known_def arc_ids_def list_all_iff Let_def less_SucI)
  ultimately show ?thesis by (simp add: gap_step_def)
qed

lemma gap_step_cong:
  assumes "gap_step mid c w c1 w1" "c_rtc c2 = c_rtc c1" "c_tracks_in c2 = c_tracks_in c1" "arcs w2 = arcs w1"
    "clock w2 = clock w1" "clock_reads w2 = clock_reads w1"
  shows "gap_step mid c w c2 w2"
proof -
  have "entry_has_mid w2 mid = entry_has_mid w1 mid"
    using assms(4) by (simp add: entry_has_mid_def upgrade_def fun_eq_iff)
  with assms show ?thesis by (simp add: gap_step_def last_request_def asked_def)
qed

lemma gap_step_media:
  assumes "track_in_media (recording E) c d w = (c', p, w')" "mono (clock w)"
  shows "gap_step mid c w c' w'"
proof -
  obtain c1 w1 where 1: "(if \<not> md_contiguous d then request_keyframe_throttled (recording E) c (md_mid d) (md_rid d) Fir w
      else (c, w)) = (c1, w1)" by (metis prod.exhaust)
  then have "gap_step mid c w c1 w1"
    using gap_step_request [OF _ assms(2)] by (auto simp: gap_step_refl split: if_splits)
  then show ?thesis
    by (rule gap_step_cong) (use assms(1) 1 in \<open>auto simp: track_in_media_def Let_def split: option.splits\<close>)
qed

lemma gap_step_event:
  assumes "handle_event (recording E) c e w = (c', p :: ('p, 't) Propagated, w')" "mono (clock w)" "arcs_known c w"
  shows "gap_step mid c w c' w' \<and> arcs_known c' w' \<and> clock w' = clock w"
proof -
  have frame: "arcs_known c' w' \<and> clock w' = clock w" if "arc_ids c' = arc_ids c" "quiet w w'"
    using that assms(3) by (simp add: arcs_known_def quiet_def)
  show ?thesis
  proof (cases e)
    case (MediaAdded m kind)
    moreover from this assms(1) have "clock w' = clock w" by (auto simp: track_in_added_def arc_new_def Let_def)
    ultimately show ?thesis using gap_step_added [of c m kind w c' p w' mid] assms by simp
  next
    case (MediaDataEvent d)
    with gap_step_media [of E c d w c' p w' mid] track_in_media_frame [of "recording E" c d w c' p w'] assms frame
    show ?thesis by simp
  next
    case (KeyframeRequestEvent req)
    with assms(1) have "c' = c" "quiet w w'"
      using incoming_keyframe_req_frame [of c req w] by (auto split: prod.splits)
    with frame show ?thesis by (simp add: gap_step_def asked_def last_request_def entry_has_mid_quiet)
  qed (use assms in \<open>auto simp: gap_step_def asked_def last_request_def arcs_known_def arc_ids_def recording_def\<close>)
qed

lemma gap_requests_spaced:
  assumes "arcs_known c w" "mono (clock w)"
  shows "sorted_wrt (\<lambda>s t. s + from_secs 1 \<le> t) (gap_requests (recording E) mid es c w)
    \<and> (\<forall>l. last_request w mid c = Some l \<longrightarrow> list_all (\<lambda>t. l + from_secs 1 \<le> t) (gap_requests (recording E) mid es c w))"
  using assms
proof (induction es arbitrary: c w)
  case (Cons e es)
  obtain c' w' and p :: "('c, 'd) Propagated" where e: "handle_event (recording E) c e w = (c', p, w')"
    by (metis prod.exhaust)
  note s = gap_step_event [OF e Cons.prems(2,1), of mid]
  then have IH: "sorted_wrt (\<lambda>s t. s + from_secs 1 \<le> t) (gap_requests (recording E) mid es c' w')"
    "\<forall>l. last_request w' mid c' = Some l \<longrightarrow> list_all (\<lambda>t. l + from_secs 1 \<le> t) (gap_requests (recording E) mid es c' w')"
    using Cons.IH [of c' w'] Cons.prems(2) by simp_all
  from s have "gap_step mid c w c' w'" by simp
  then show ?case
    using IH by (auto simp: e gap_step_def list_all_iff split: if_splits) (fastforce+)?
qed simp

text \<open>
  C26: Keyframe requests triggered by gaps in a publisher's stream are made when they are due and throttled per track. Take a clock
  that does not run backwards and a client whose tracks are allocated, as in every reachable room. Over any sequence of
  events of its session (media of any track, tracks added, requests and reports of the peer), the calls
  that ask str0m for a keyframe of one track are at least one second apart, each at the reading of the clock
  that follows it. A packet asks for one, exactly once, when it reports a gap, the track is known and has a writer, and no request
  was made on the track within the second before; no other packet does.
\<close>

theorem keyframe_requests_spaced:
  assumes "list_all (\<lambda>a. a < next_arc w) (arc_ids c)" and "mono (clock w)"
  shows "sorted_wrt (\<lambda>s t. s + from_secs 1 \<le> t) (gap_requests (recording E) mid es c w)
    \<and> length (gap_requests (recording E) mid [MediaDataEvent d] c w)
        = of_bool (\<not> md_contiguous d \<and> md_mid d = mid \<and> request_due (recording E) w mid c)"
proof
  show "sorted_wrt (\<lambda>s t. s + from_secs 1 \<le> t) (gap_requests (recording E) mid es c w)"
    using gap_requests_spaced [of c w E mid es] assms by (simp add: arcs_known_def)
  obtain c1 w1 where 1: "(if \<not> md_contiguous d then request_keyframe_throttled (recording E) c (md_mid d) (md_rid d) Fir w
      else (c, w)) = (c1, w1)" by (metis prod.exhaust)
  obtain c' w' and p :: "('c, 'd) Propagated" where m: "track_in_media (recording E) c d w = (c', p, w')"
    by (metis prod.exhaust)
  then have "asked mid c' = asked mid c1"
    using 1 by (auto simp: track_in_media_def asked_def Let_def split: option.splits)
  moreover have "asked mid c1 = asked mid c + of_bool (\<not> md_contiguous d \<and> md_mid d = mid \<and> request_due (recording E) w mid c)"
    using 1 request_other_mid [of E c "md_mid d" "md_rid d" Fir w c1 w1 mid]
      request_same_mid [of E c mid "md_rid d" Fir w c1 w1] assms(2)
    by (cases "md_mid d = mid") (auto split: if_splits)
  ultimately show "length (gap_requests (recording E) mid [MediaDataEvent d] c w)
      = of_bool (\<not> md_contiguous d \<and> md_mid d = mid \<and> request_due (recording E) w mid c)"
    using m by simp
qed

text \<open>A publisher whose stream has gaps, one of them after another track was added.\<close>

definition gap_client :: "(script \<times> Mid list) Client" where
  "gap_client = fst (the (Client_new (subscriber, []) 0 script_world))\<lparr>c_tracks_in := [\<lparr>te_id = 0, last_keyframe_request = None\<rparr>]\<rparr>"

definition gap_world :: world where
  "gap_world = script_world\<lparr>arcs := [(0, \<lparr>ti_origin = 0, ti_mid = Mid [1], ti_kind = Video, ti_relay_source = False\<rparr>)],
     next_arc := 1\<rparr>"

definition gap_packet :: "(unit, unit) MediaData" where
  "gap_packet = \<lparr>md_mid = Mid [1], md_pt = Pt 96, md_rid = None, md_params = (), md_time = (),
     md_network_time = 0, md_data = [1, 2, 3], md_contiguous = False, md_audio_level = None, md_key_epoch = None\<rparr>"

lemma gap_client_fields: "c_tracks_in gap_client = [\<lparr>te_id = 0, last_keyframe_request = None\<rparr>]" "c_rtc gap_client = (subscriber, [])"
  by (simp_all add: gap_client_def Client_new_def SubscriberPacer_new_def with_config_def try_with_config_default
      next_client_id_def Let_def)

theorem keyframe_requests_spaced_witness:
  "length (gap_requests (recording script_env) (Mid [1]) [MediaDataEvent gap_packet] gap_client gap_world) = 1
   \<and> sorted_wrt (\<lambda>s t. s + from_secs 1 \<le> t) (gap_requests (recording script_env) (Mid [1])
        [MediaDataEvent gap_packet, MediaAdded (Mid [2]) Video, MediaDataEvent gap_packet] gap_client gap_world)"
proof -
  have "list_all (\<lambda>a. a < next_arc gap_world) (arc_ids gap_client)" "mono (clock gap_world)"
    by (simp_all add: arc_ids_def gap_client_fields gap_world_def script_world_def mono_def from_millis_def)
  note facts = keyframe_requests_spaced [OF this, of script_env "Mid [1]" _ gap_packet]
  have "request_due (recording script_env) gap_world (Mid [1]) gap_client" "md_mid gap_packet = Mid [1]" "\<not> md_contiguous gap_packet"
    by (simp_all add: request_due_def recording_def script_env_def gap_client_fields entry_has_mid_def upgrade_def
        gap_world_def last_request_def gap_packet_def)
  with facts show ?thesis by (simp del: gap_requests.simps)
qed

section \<open>Layer hints for publishers\<close>

text \<open>The subscribers of a publisher: the clients that mirror a live track of it.\<close>

definition subscribers :: "world \<Rightarrow> 'r Client list \<Rightarrow> client_id \<Rightarrow> 'r Client list" where
  "subscribers w cs i =
     filter (\<lambda>s. list_ex (\<lambda>t. map_option ti_origin (upgrade w (to_track_in t)) = Some i) (c_tracks_out s)) cs"

lemma live_origins_iff:
  "i \<in> set (live_origins w s) \<longleftrightarrow> list_ex (\<lambda>t. map_option ti_origin (upgrade w (to_track_in t)) = Some i) (c_tracks_out s)"
  by (force simp: live_origins_def list_ex_iff List.map_filter_def image_iff)

text \<open>What the scan has recorded for publisher \<open>i\<close> once the subscribers \<open>ss\<close> have been seen.\<close>

definition hint_ok :: "SfuRid option \<Rightarrow> 'r Client list \<Rightarrow> bool" where
  "hint_ok r ss \<longleftrightarrow>
     (case r of
        None \<Rightarrow> ss = []
      | Some r \<Rightarrow> ss \<noteq> [] \<and> r \<in> insert LOW (c_desired_layer ` set ss)
                  \<and> rank r = Max (rank ` c_desired_layer ` set ss))"

lemma rank_LOW: "rank LOW = 0"
  by (simp add: rank_def)

lemma raise_max_lookup:
  "map_of (raise_max r m i) j =
     (if j = i then Some (let e = (case map_of m i of Some e \<Rightarrow> e | None \<Rightarrow> LOW) in if rank e < rank r then r else e)
      else map_of m j)"
  by (simp add: raise_max_def Let_def update_conv')

lemma raise_all_lookup:
  "map_of (foldl (raise_max r) m is) j =
     (if j \<in> set is then Some (let e = (case map_of m j of Some e \<Rightarrow> e | None \<Rightarrow> LOW) in if rank e < rank r then r else e)
      else map_of m j)"
  by (induction "is" arbitrary: m) (auto simp: raise_max_lookup Let_def)

lemma hint_ok_snoc:
  assumes "hint_ok r ss"
  shows "hint_ok (Some (let e = (case r of Some e \<Rightarrow> e | None \<Rightarrow> LOW) in
     if rank e < rank (c_desired_layer s) then c_desired_layer s else e)) (ss @ [s])"
proof (cases r)
  case None
  with assms show ?thesis by (auto simp: hint_ok_def Let_def rank_LOW)
next
  case (Some e)
  with assms have e: "ss \<noteq> []" "e \<in> insert LOW (c_desired_layer ` set ss)"
    "Max (rank ` c_desired_layer ` set ss) = rank e" by (simp_all add: hint_ok_def)
  have "Max (rank ` c_desired_layer ` set (ss @ [s]))
      = max (rank (c_desired_layer s)) (Max (rank ` c_desired_layer ` set ss))"
    using e(1) by (simp add: image_insert)
  then have "Max (rank ` c_desired_layer ` set (ss @ [s])) = max (rank (c_desired_layer s)) (rank e)"
    by (simp only: e(3))
  moreover have "insert LOW (c_desired_layer ` set (ss @ [s])) = insert (c_desired_layer s) (insert LOW (c_desired_layer ` set ss))"
    by auto
  ultimately show ?thesis
    unfolding Some hint_ok_def Let_def option.case using e(2) by simp
qed

lemma max_per_publisher_ok: "hint_ok (map_of (max_per_publisher w cs) i) (subscribers w cs i)"
proof (induction cs rule: rev_induct)
  case Nil
  then show ?case by (simp add: max_per_publisher_def subscribers_def hint_ok_def)
next
  case (snoc s cs)
  have "max_per_publisher w (cs @ [s]) =
      foldl (raise_max (c_desired_layer s)) (max_per_publisher w cs) (live_origins w s)"
    by (simp add: max_per_publisher_def)
  with snoc hint_ok_snoc [OF snoc, of s] show ?case
    by (auto simp: raise_all_lookup subscribers_def live_origins_iff)
qed

lemma wf_max_per_publisher: "distinct (map fst (max_per_publisher w cs))"
proof -
  have "distinct (map fst m) \<Longrightarrow> distinct (map fst (foldl (raise_max r) m is))" for m r "is"
    by (induction "is" arbitrary: m) (simp_all add: raise_max_def distinct_update Let_def)
  then have "distinct (map fst m) \<Longrightarrow>
      distinct (map fst (foldl (\<lambda>m s. foldl (raise_max (c_desired_layer s)) m (live_origins w s)) m cs))" for m
    by (induction cs arbitrary: m) simp_all
  then show ?thesis by (simp add: max_per_publisher_def)
qed

lemma layer_hint_eq:
  "layer_hint cs = (\<lambda>(i, r). if \<exists>c \<in> set cs. c_id c = i \<and> is_relay c
     then PublisherLayerHintForUpstream i r else PublisherLayerHint i r)"
  by (auto simp: layer_hint_def list_ex_iff fun_eq_iff)

text \<open>
  C28: \<^verbatim>\<open>emit_publisher_layer_hints\<close> queues, in the iteration order of the hash map, one hint per
  publisher that some client subscribes to through a live track, and none for any other, and changes nothing else. The hint carries
  the highest layer wanted by a subscriber, or LOW, of the same rank; it is \<^verbatim>\<open>PublisherLayerHintForUpstream\<close> when a relay
  with that id is in the room and \<^verbatim>\<open>PublisherLayerHint\<close> otherwise. The iteration order is a parameter, assumed to be a
  permutation. The documentation says that a hint is sent when the maximum changes; the code keeps no earlier maximum
  and sends every hint on every call.
\<close>

theorem layer_hints_exact:
  assumes "\<And>xs. mset (id_hash_order E xs) = mset xs"
  shows "\<exists>hs. emit_publisher_layer_hints E reg w = reg\<lparr>r_to_propagate := r_to_propagate reg
        @ map (\<lambda>(i, r). if \<exists>c \<in> set (r_clients reg). c_id c = i \<and> is_relay c
                         then PublisherLayerHintForUpstream i r else PublisherLayerHint i r) hs\<rparr>
     \<and> distinct (map fst hs) \<and> (\<forall>i. hint_ok (map_of hs i) (subscribers w (r_clients reg) i))"
proof (intro exI conjI allI)
  let ?m = "max_per_publisher w (r_clients reg)"
  show "emit_publisher_layer_hints E reg w = reg\<lparr>r_to_propagate := r_to_propagate reg
      @ map (\<lambda>(i, r). if \<exists>c \<in> set (r_clients reg). c_id c = i \<and> is_relay c
                       then PublisherLayerHintForUpstream i r else PublisherLayerHint i r) (id_hash_order E ?m)\<rparr>"
    unfolding layer_hint_eq [symmetric] by (simp add: emit_publisher_layer_hints_def foldl_push_back)
  have "mset (map fst (id_hash_order E ?m)) = mset (map fst ?m)"
    using assms by (simp add: mset_map)
  then show dist: "distinct (map fst (id_hash_order E ?m))"
    using wf_max_per_publisher mset_eq_imp_distinct_iff by blast
  have "set (id_hash_order E ?m) = set ?m" using assms by (metis set_mset_mset)
  then have "map_of (id_hash_order E ?m) = map_of ?m"
    using dist wf_max_per_publisher map_of_inject_set by blast
  then show "hint_ok (map_of (id_hash_order E ?m) i) (subscribers w (r_clients reg) i)" for i
    using max_per_publisher_ok by metis
qed

text \<open>
  A subscriber that wants the highest layer mirrors a track of the local client 1 and one of the relay 2: one hint goes to each,
  the relay's upstream.
\<close>

definition hint_world :: world where
  "hint_world = script_world\<lparr>arcs := [(0, \<lparr>ti_origin = 1, ti_mid = Mid [1], ti_kind = Video, ti_relay_source = False\<rparr>),
     (1, \<lparr>ti_origin = 2, ti_mid = Mid [2], ti_kind = Video, ti_relay_source = True\<rparr>)]\<rparr>"

definition hint_room :: "(script, u64 list, unit, unit) Registry" where
  "hint_room = (fst empty_room)\<lparr>r_clients :=
     [lone_client\<lparr>c_id := 1\<rparr>, lone_client\<lparr>c_id := 2, c_origin := RelayFromSfu ''sfu''\<rparr>,
      lone_client\<lparr>c_id := 3, c_desired_layer := HIGH, c_tracks_out :=
        [\<lparr>to_track_in = 0, to_state = ToOpen\<rparr>, \<lparr>to_track_in = 1, to_state = ToOpen\<rparr>]\<rparr>]\<rparr>"

lemma hint_room_subscribers:
  "subscribers hint_world (r_clients hint_room) 1 = [r_clients hint_room ! 2]"
  "subscribers hint_world (r_clients hint_room) 2 = [r_clients hint_room ! 2]"
  by (simp_all add: subscribers_def hint_room_def hint_world_def upgrade_def lone_client_tracks)

theorem layer_hints_exact_witness:
  "{PublisherLayerHint 1 HIGH, PublisherLayerHintForUpstream 2 HIGH}
     \<subseteq> set (r_to_propagate (emit_publisher_layer_hints script_env hint_room hint_world))"
proof -
  have "mset (id_hash_order script_env xs) = mset xs" for xs by (simp add: script_env_def)
  from layer_hints_exact [OF this, of hint_room hint_world] obtain hs where
    q: "emit_publisher_layer_hints script_env hint_room hint_world = hint_room\<lparr>r_to_propagate := r_to_propagate hint_room
        @ map (\<lambda>(i, r). if \<exists>c \<in> set (r_clients hint_room). c_id c = i \<and> is_relay c
                         then PublisherLayerHintForUpstream i r else PublisherLayerHint i r) hs\<rparr>"
    and ok: "\<forall>i. hint_ok (map_of hs i) (subscribers hint_world (r_clients hint_room) i)"
    by blast
  have "rank HIGH \<noteq> rank LOW" "c_desired_layer (r_clients hint_room ! 2) = HIGH"
    by (simp_all add: rank_def hint_room_def)
  then have h: "hint_ok r [r_clients hint_room ! 2] \<Longrightarrow> r = Some HIGH" for r
    by (auto simp: hint_ok_def split: option.splits)
  have "map_of hs 1 = Some HIGH" "map_of hs 2 = Some HIGH"
    using ok hint_room_subscribers h by metis+
  then have hs: "(1, HIGH) \<in> set hs" "(2, HIGH) \<in> set hs" by (auto dest: map_of_SomeD)
  have relay: "(\<exists>c \<in> set (r_clients hint_room). c_id c = 2 \<and> is_relay c)"
    "\<not> (\<exists>c \<in> set (r_clients hint_room). c_id c = 1 \<and> is_relay c)"
    by (auto simp: hint_room_def is_relay_def lone_client_tracks)
  have "\<forall>h \<in> set hs. (case h of (i, r) \<Rightarrow> if \<exists>c \<in> set (r_clients hint_room). c_id c = i \<and> is_relay c
      then PublisherLayerHintForUpstream i r else PublisherLayerHint i r)
      \<in> set (r_to_propagate (emit_publisher_layer_hints script_env hint_room hint_world))"
    unfolding q by simp
  from bspec [OF this hs(1)] bspec [OF this hs(2)] show ?thesis by (simp only: prod.case if_P [OF relay(1)] if_not_P [OF relay(2)]) simp
qed

section \<open>Audio-only operation\<close>

lemma drive_pacer_restore:
  assumes "client_ok c" "drive_pacer c b = Some (c', RestoreVideo)"
  shows "current_layer (c_pacer c') = LOW \<and> c_desired_layer c' = c_desired_layer c"
proof -
  obtain p where u: "update (c_pacer c) b = Some (p, RestoreVideo)" and c': "c' = c\<lparr>c_pacer := p\<rparr>"
    using assms(2) by (auto simp: drive_pacer_def Let_def split: PacerAction.splits)
  have "mode_step (config (c_pacer c)) b (mode_of (c_pacer c)) RestoreVideo (mode_of p)"
    using update_mode_step [OF _ u] assms(1) by (simp add: client_ok_def)
  then have "mode_of p = FullVideo LOW" by (auto elim: mode_step.cases)
  then show ?thesis by (auto simp: c' mode_of_def split: if_splits)
qed

text \<open>
  C12: Audio-only mode does not stop video. For a client whose pacer is in audio-only mode, every packet
  that the layer and temporal filters admit, video included, is forwarded and counted as forwarded,
  and nothing is counted as dropped; the event that announces the mode changes no client when it is
  fanned out; and when video is restored, the pacer starts again from the lowest layer while the layer that the client
  forwards stays what it was before. The documentation of the event asks for video to stop.
\<close>

theorem audio_only_forwards_video:
  assumes "client_ok c" "mode_of (c_pacer c) = AudioOnly" "layer_admits E c d" "temporal_admits c d"
    and "handle_media_data_out E origin d c w = (c', w')"
  shows "c_delivered_media c' = c_delivered_media c + 1
    \<and> prom_total counts_forwarded w' = prom_total counts_forwarded w + 1
    \<and> prom_total counts_dropped w' = prom_total counts_dropped w
    \<and> fanout E (AudioOnlyMode (c_id c) b) cs w = (cs, w)
    \<and> (\<forall>bps r. drive_pacer c bps = Some (r, RestoreVideo) \<longrightarrow>
         current_layer (c_pacer r) = LOW \<and> c_desired_layer r = c_desired_layer c)"
proof -
  have "\<not> c_suspended c" using assms(1,2) by (auto simp: client_ok_def mode_of_def split: if_splits)
  then have f: "forwards E w origin d c" using assms(3,4) by (simp add: forwards_def)
  have "for_clients (fanout_client E (AudioOnlyMode (c_id c) b) i) cs w = (cs, w)" for i
    by (induction cs) (simp_all add: fanout_client_def)
  then have "fanout E (AudioOnlyMode (c_id c) b) cs w = (cs, w)"
    by (simp add: fanout_def split: option.split)
  moreover have "c_delivered_media c' = c_delivered_media c + 1"
    using arg_cong [OF handle_media_data_out_cases(1) [OF assms(5), unfolded if_P [OF f]], of c_delivered_media] by simp
  ultimately show ?thesis
    using handle_media_data_out_cases(2,3) [OF assms(5)] f drive_pacer_restore [OF assms(1)] \<open>\<not> c_suspended c\<close> by simp
qed

text \<open>A client in audio-only mode that forwarded the highest layer before.\<close>

definition quiet_client :: "script Client" where
  "quiet_client = lone_client\<lparr>c_pacer := default_pacer\<lparr>audio_only := True\<rparr>, c_desired_layer := HIGH\<rparr>"

definition video_payload :: "(unit, unit) SfuMediaPayload" where
  "video_payload = SfuMediaPayload_from_str0m
     \<lparr>md_mid = Mid [1], md_pt = Pt 96, md_rid = None, md_params = (), md_time = (), md_network_time = 0,
      md_data = [1, 2, 3], md_contiguous = True, md_audio_level = None, md_key_epoch = None\<rparr>"

lemma quiet_client_ok: "client_ok quiet_client" "mode_of (c_pacer quiet_client) = AudioOnly"
proof -
  have "pacer_inv (default_pacer\<lparr>audio_only := True\<rparr>)"
    using default_pacer_inv by (simp add: pacer_inv_def default_pacer_def)
  moreover have "c_tracks_out lone_client = []"
    by (simp add: lone_client_def the_client_def Client_new_def SubscriberPacer_new_def with_config_def
        try_with_config_default next_client_id_def script_world_def)
  ultimately show "client_ok quiet_client" "mode_of (c_pacer quiet_client) = AudioOnly"
    by (simp_all add: quiet_client_def client_ok_def mode_of_def lone_client_fields default_pacer_running default_pacer_def)
qed

lemma quiet_client_admits: "layer_admits script_env quiet_client video_payload" "temporal_admits quiet_client video_payload"
  by (simp_all add: layer_admits_def temporal_admits_def video_payload_def SfuMediaPayload_from_str0m_def)

theorem audio_only_forwards_video_witness:
  "prom_total counts_forwarded (snd (handle_media_data_out script_env 7 video_payload quiet_client script_world)) = 1
   \<and> (\<exists>r. drive_pacer quiet_client 200000 = Some (r, RestoreVideo)
        \<and> current_layer (c_pacer r) = LOW \<and> c_desired_layer r = HIGH)"
proof -
  note facts = audio_only_forwards_video [OF quiet_client_ok quiet_client_admits prod.collapse [symmetric],
      of 7 script_world True "[]"]
  have "\<exists>r. drive_pacer quiet_client 200000 = Some (r, RestoreVideo)"
    by (simp add: drive_pacer_def quiet_client_def update_def default_defs)
  moreover have "prom_total counts_forwarded script_world = 0" by (simp add: prom_total_def script_world_def)
  moreover have "c_desired_layer quiet_client = HIGH" by (simp add: quiet_client_def)
  ultimately show ?thesis using facts by auto
qed

end
