(* ===== verification/Synthetic_Room.thy ===== *)
theory Synthetic_Room
  imports Forwarding Test_Seams
begin

text \<open>
  The load generator \<^verbatim>\<open>examples/synthetic_room.rs\<close>: \<open>N\<close> peers that each publish one video track are seated in a
  room, and until a deadline every peer publishes a packet per round that is fanned out to the others.
  Prometheus, str0m's session builder, the histogram of \<^verbatim>\<open>hdrhistogram\<close> and \<^verbatim>\<open>getrusage\<close> are parameters; the line it
  prints is the record \<open>synthetic_report\<close>, and sleeping is recorded as the time slept.
\<close>

section \<open>The program\<close>

record Args =
  a_peers :: nat
  a_duration_secs :: u64
  a_packet_rate_pps :: u64
  a_bitrate_bps :: u64

definition Args_default :: Args where
  "Args_default = \<lparr>a_peers = 8, a_duration_secs = 30, a_packet_rate_pps = 30, a_bitrate_bps = 1500000\<rparr>"

record rusage =
  ru_maxrss :: int
  ru_utime :: "int \<times> int"
  ru_stime :: "int \<times> int"

record ('g, 'r, 'p, 't, 'h) lab =
  lab_registry :: "'g option"
  lab_create :: "metric_opts \<Rightarrow> bool"
  lab_register :: "'g \<Rightarrow> metric_opts \<Rightarrow> 'g option"
  lab_rtc :: "instant \<Rightarrow> 'r"
  lab_mid :: "u8 \<Rightarrow> Mid"
  lab_params :: 'p
  lab_time :: 't
  hist_new :: "u64 \<Rightarrow> u64 \<Rightarrow> u8 \<Rightarrow> 'h option"
  hist_record :: "'h \<Rightarrow> u64 \<Rightarrow> 'h option"
  hist_quantile :: "'h \<Rightarrow> f64 \<Rightarrow> u64"
  getrusage :: rusage

text \<open>Peak memory in megabytes (the kernel reports kilobytes), user and system time in seconds.\<close>

definition i64_as_f64 :: "int \<Rightarrow> f64" where
  "i64_as_f64 n = rnd64 (of_int n)"

definition timeval_secs :: "int \<times> int \<Rightarrow> f64" where
  "timeval_secs tv = i64_as_f64 (fst tv) + i64_as_f64 (snd tv) / Fin 1000000"

definition read_rusage :: "rusage \<Rightarrow> f64 \<times> f64 \<times> f64" where
  "read_rusage ru =
     (i64_as_f64 (ru_maxrss ru) / Fin 1024, timeval_secs (ru_utime ru), timeval_secs (ru_stime ru))"

text \<open>\<^verbatim>\<open>Duration::from_micros\<close>; the ids of the peers count from 1000.\<close>

definition from_micros :: "nat \<Rightarrow> duration" where
  "from_micros n = n * 1000"

definition peer_ids :: "nat \<Rightarrow> client_id list" where
  "peer_ids n = map (\<lambda>i. 1000 + word_of_nat i) [0..<n]"

text \<open>Seating one peer; \<open>None\<close> is a panic of one of the constructors. Every peer brings a metrics instance of its own.\<close>

definition seat_peer ::
    "('g, 'r, 'p, 't, 'h) lab \<Rightarrow> ('r, 'd, 'p, 't) env \<Rightarrow> nat \<times> client_id
     \<Rightarrow> ('r, 'd, 'p, 't) Registry \<times> world \<Rightarrow> (('r, 'd, 'p, 't) Registry \<times> world) option" where
  "seat_peer L E peer s =
     (case (peer, s) of ((idx, i), reg, w) \<Rightarrow>
        let (now, w) = instant_now w
        in case SfuMetrics_new_default (lab_registry L) (lab_create L) (lab_register L) of
             None \<Rightarrow> None
           | Some _ \<Rightarrow>
               (case new_client (lab_rtc L now) (Suc (r_metrics reg + idx)) i w of
                  None \<Rightarrow> None
                | Some (client, w) \<Rightarrow>
                    let (client, _, w) = seed_track_in (lab_mid L) client (word_of_nat idx) Video w
                    in Some (insert_client E reg client w)))"

fun seat_peers ::
    "('g, 'r, 'p, 't, 'h) lab \<Rightarrow> ('r, 'd, 'p, 't) env \<Rightarrow> (nat \<times> client_id) list
     \<Rightarrow> ('r, 'd, 'p, 't) Registry \<times> world \<Rightarrow> (('r, 'd, 'p, 't) Registry \<times> world) option" where
  "seat_peers L E [] s = Some s"
| "seat_peers L E (peer # peers) s = Option.bind (seat_peer L E peer s) (seat_peers L E peers)"

text \<open>One publisher of a round, the rounds, and the whole run. The loop has fuel; \<open>None\<close> is a panic, or a loop that has not ended.\<close>

record ('r, 'd, 'p, 't, 'h) drive_state =
  ds_registry :: "('r, 'd, 'p, 't) Registry"
  ds_hist :: 'h
  packets_forwarded :: u64
  ds_slept :: "duration list"
  ds_world :: world

definition publish ::
    "('g, 'r, 'p, 't, 'h) lab \<Rightarrow> ('r, 'd, 'p, 't) env \<Rightarrow> nat \<Rightarrow> nat \<times> client_id
     \<Rightarrow> ('r, 'd, 'p, 't, 'h) drive_state \<Rightarrow> ('r, 'd, 'p, 't, 'h) drive_state" where
  "publish L E peers p s =
     (case p of (idx, publisher_id) \<Rightarrow>
        let (data, w) = make_media_data (lab_mid L) (lab_params L) (lab_time L) (word_of_nat idx) None (ds_world s);
            (t0, w) = instant_now w;
            (reg, w) = fanout_for_tests E (MediaDataEv publisher_id data) (ds_registry s) w;
            (t1, w) = instant_now w;
            elapsed_us = word_of_nat (as_micros (duration_since t1 t0));
            hist = (case hist_record L (ds_hist s) (max elapsed_us 1) of Some h \<Rightarrow> h | None \<Rightarrow> ds_hist s)
        in s\<lparr>ds_registry := reg, ds_hist := hist,
             packets_forwarded := packets_forwarded s + word_of_nat (peers - 1), ds_world := w\<rparr>)"

fun drive_loop ::
    "('g, 'r, 'p, 't, 'h) lab \<Rightarrow> ('r, 'd, 'p, 't) env \<Rightarrow> nat \<Rightarrow> duration \<Rightarrow> instant \<Rightarrow> nat
     \<Rightarrow> ('r, 'd, 'p, 't, 'h) drive_state \<Rightarrow> ('r, 'd, 'p, 't, 'h) drive_state option" where
  "drive_loop L E peers interval deadline 0 s = None"
| "drive_loop L E peers interval deadline (Suc fuel) s =
     (let (now, w) = instant_now (ds_world s)
      in if \<not> now < deadline then Some (s\<lparr>ds_world := w\<rparr>)
         else let (iter_start, w) = instant_now w;
                  s = foldl (\<lambda>s p. publish L E peers p s) (s\<lparr>ds_world := w\<rparr>) (enumerate 0 (peer_ids peers));
                  (t, w) = instant_now (ds_world s);
                  elapsed = duration_since t iter_start;
                  s = s\<lparr>ds_world := w, ds_slept := ds_slept s @ (if elapsed < interval then [interval - elapsed] else [])\<rparr>
              in drive_loop L E peers interval deadline fuel s)"

record synthetic_report =
  rep_peers :: nat
  rep_duration_s :: u64
  rep_packets_forwarded :: u64
  rep_peak_rss_mb :: f64
  rep_cpu_percent :: f64
  rep_latency_us :: "u64 \<times> u64 \<times> u64"

definition make_report ::
    "('g, 'r, 'p, 't, 'h) lab \<Rightarrow> Args \<Rightarrow> duration \<Rightarrow> ('r, 'd, 'p, 't, 'h) drive_state \<Rightarrow> synthetic_report" where
  "make_report L args wall_elapsed s =
     (let (peak_rss_mb, cpu_user_s, cpu_sys_s) = read_rusage (getrusage L)
      in \<lparr>rep_peers = a_peers args, rep_duration_s = f64_as_u64 (as_secs_f64 wall_elapsed),
          rep_packets_forwarded = packets_forwarded s, rep_peak_rss_mb = peak_rss_mb,
          rep_cpu_percent = (cpu_user_s + cpu_sys_s) / as_secs_f64 wall_elapsed * Fin 100,
          rep_latency_us = (hist_quantile L (ds_hist s) (Fin (1 / 2)), hist_quantile L (ds_hist s) (rnd64 (95 / 100)),
                            hist_quantile L (ds_hist s) (rnd64 (99 / 100)))\<rparr>)"

text \<open>
  \<^verbatim>\<open>Instant + Duration\<close> panics when the sum is not representable: on Unix an instant holds its seconds in an \<^verbatim>\<open>i64\<close>.
\<close>

definition instant_limit :: instant where
  "instant_limit = from_secs (2 ^ 63)"

definition instant_add :: "instant \<Rightarrow> duration \<Rightarrow> instant option" where
  "instant_add t d = (if t + d < instant_limit then Some (t + d) else None)"

definition synthetic_main ::
    "('g, 'r, 'p, 't, 'h) lab \<Rightarrow> ('r, 'd, 'p, 't) env \<Rightarrow> nat \<Rightarrow> Args \<Rightarrow> nat \<Rightarrow> world
     \<Rightarrow> (synthetic_report \<times> ('r, 'd, 'p, 't, 'h) drive_state) option" where
  "synthetic_main L E metrics args fuel w =
     (if \<not> 2 \<le> a_peers args \<or> \<not> 0 < a_packet_rate_pps args then None
      else case SfuMetrics_new_default (lab_registry L) (lab_create L) (lab_register L) of
        None \<Rightarrow> None
      | Some _ \<Rightarrow>
          (case seat_peers L E (enumerate 0 (peer_ids (a_peers args))) (Registry_new E metrics w) of
             None \<Rightarrow> None
           | Some (reg, w) \<Rightarrow>
               (case hist_new L 1 1000000 3 of
                  None \<Rightarrow> None
                | Some hist \<Rightarrow>
                    let interval = from_micros (1000000 div unat (a_packet_rate_pps args));
                        (now, w) = instant_now w
                    in case instant_add now (from_secs (unat (a_duration_secs args))) of
                         None \<Rightarrow> None
                       | Some deadline \<Rightarrow>
                           let (wall_start, w) = instant_now w
                           in case drive_loop L E (a_peers args) interval deadline fuel
                                     \<lparr>ds_registry = reg, ds_hist = hist, packets_forwarded = 0, ds_slept = [], ds_world = w\<rparr> of
                                None \<Rightarrow> None
                              | Some s \<Rightarrow>
                                  let (t, w) = instant_now (ds_world s); s = s\<lparr>ds_world := w\<rparr>
                                  in Some (make_report L args (duration_since t wall_start) s, s))))"

section \<open>One packet in a room of unopened tracks\<close>

text \<open>
  The kind under which a packet is counted, and the calls its delivery makes. A client whose outgoing
  tracks have not been opened counts the packet and returns before the writer.
\<close>

definition kind_label :: "world \<Rightarrow> client_id \<Rightarrow> Mid \<Rightarrow> 'r Client \<Rightarrow> string" where
  "kind_label w origin mid c =
     (case Option.bind (find (track_matches w origin mid) (c_tracks_out c)) (\<lambda>t. upgrade w (to_track_in t)) of
        Some t \<Rightarrow> kind_str (ti_kind t) | None \<Rightarrow> ''other'')"

definition delivery_calls :: "world \<Rightarrow> client_id \<Rightarrow> ('p, 't) SfuMediaPayload \<Rightarrow> 'r Client \<Rightarrow> prom_call list" where
  "delivery_calls w origin d c =
     (if c_id c = origin then []
      else let k = kind_label w origin (SfuMid_to_str0m (mp_mid d)) c
           in inc_forwarded_packets k @ (if k = ''other'' then [] else add_track_bytes_out k (word_of_nat (length (mp_data d)))))"

definition bump :: "client_id \<Rightarrow> 'r Client \<Rightarrow> 'r Client" where
  "bump origin c = (if c_id c = origin then c else c\<lparr>c_delivered_media := c_delivered_media c + 1\<rparr>)"

definition unopened :: "nat \<Rightarrow> 'r Client \<Rightarrow> bool" where
  "unopened m c \<longleftrightarrow> \<not> c_suspended c \<and> c_metrics c = m \<and> list_all (\<lambda>t. to_state t = ToOpen) (c_tracks_out c)"

definition plain :: "('p, 't) SfuMediaPayload \<Rightarrow> bool" where
  "plain d \<longleftrightarrow> mp_rid d = None \<and> mp_av1_dd d = None \<and> mp_vfm_fm d = None"

lemma bump_simps [simp]:
  "c_id (bump origin c) = c_id c" "c_tracks_out (bump origin c) = c_tracks_out c"
  "c_tracks_in (bump origin c) = c_tracks_in c" "unopened m (bump origin c) = unopened m c"
  by (simp_all add: bump_def unopened_def)

lemma emit_append: "emit m ys (emit m xs w) = emit m (xs @ ys) w"
  by (simp add: emit_def)

lemma emit_Nil [simp]: "emit m [] w = w"
  by (simp add: emit_def)

lemma kind_label_emit: "kind_label (emit m xs w) = kind_label w"
  by (intro ext) (simp add: kind_label_def track_matches_def upgrade_def cong: find_cong)

lemma deliver_unopened:
  assumes "unopened m c" "plain d"
  shows "fanout_client E (MediaDataEv origin d) origin c w = (bump origin c, emit m (delivery_calls w origin d c) w)"
proof (cases "c_id c = origin")
  case True
  then show ?thesis by (simp add: fanout_client_def bump_def delivery_calls_def)
next
  case False
  let ?t = "find (track_matches w origin (SfuMid_to_str0m (mp_mid d))) (c_tracks_out c)"
  have "TrackOut_mid t = None" if "?t = Some t" for t
    using that assms(1) by (auto simp: find_Some_iff unopened_def list_all_length TrackOut_mid_def)
  then have "Option.bind ?t TrackOut_mid = None" by (cases ?t) simp_all
  with assms False show ?thesis
    by (simp add: fanout_client_def handle_media_data_out_def unopened_def plain_def Let_def forward_to_writer_def
        bump_def delivery_calls_def forward_metrics_def emit_append flip: kind_label_def)
qed

lemma fanout_unopened:
  assumes "list_all (unopened m) cs" "plain d"
  shows "fanout E (MediaDataEv origin d) cs w
    = (map (bump origin) cs, emit m (concat (map (delivery_calls w origin d) cs)) w)"
proof -
  have calls: "delivery_calls (emit m xs w) origin d = delivery_calls w origin d" for xs w
    by (intro ext) (simp add: delivery_calls_def kind_label_emit)
  have "for_clients (fanout_client E (MediaDataEv origin d) origin) cs w
      = (map (bump origin) cs, emit m (concat (map (delivery_calls w origin d) cs)) w)"
    using assms(1)
  proof (induction cs arbitrary: w)
    case (Cons c cs)
    then show ?case using assms(2) by (simp add: deliver_unopened [of m] calls emit_append)
  qed simp
  then show ?thesis by (simp add: fanout_def)
qed

section \<open>The room after seating\<close>

definition seated_track :: "('g, 'r, 'p, 't, 'h) lab \<Rightarrow> nat \<Rightarrow> TrackIn" where
  "seated_track L j = \<lparr>ti_origin = 1000 + word_of_nat j, ti_mid = lab_mid L (word_of_nat j), ti_kind = Video,
     ti_relay_source = False\<rparr>"

text \<open>
  \<open>n\<close> peers are seated, the track of peer \<open>i\<close> in the allocation \<open>a + i\<close>: peer \<open>i\<close> mirrors the tracks of the peers
  before it, none of them open.
\<close>

definition seated ::
    "('g, 'r, 'p, 't, 'h) lab \<Rightarrow> nat \<Rightarrow> arc \<Rightarrow> nat \<Rightarrow> ('r, 'd, 'p, 't) Registry \<Rightarrow> world \<Rightarrow> bool" where
  "seated L m a n reg w \<longleftrightarrow>
     r_metrics reg = m \<and> map c_id (r_clients reg) = peer_ids n \<and> list_all (unopened m) (r_clients reg)
     \<and> map (\<lambda>c. map to_track_in (c_tracks_out c)) (r_clients reg) = map (\<lambda>i. [a..<a + i]) [0..<n]
     \<and> map te_id (concat (map c_tracks_in (r_clients reg))) = [a..<a + n]
     \<and> (\<forall>j < n. upgrade w (a + j) = Some (seated_track L j))"

lemma seated_tracks:
  assumes "seated L m a n reg w"
  shows "map (\<lambda>c. length (c_tracks_out c)) (r_clients reg) = [0..<n]"
proof -
  have "map length (map (\<lambda>c. map to_track_in (c_tracks_out c)) (r_clients reg)) = map length (map (\<lambda>i. [a..<a + i]) [0..<n])"
    using assms by (simp only: seated_def)
  then show ?thesis by (simp add: comp_def)
qed

lemma peer_ids_Suc: "peer_ids (Suc n) = peer_ids n @ [1000 + word_of_nat n]"
  by (simp add: peer_ids_def)

lemma length_peer_ids [simp]: "length (peer_ids n) = n"
  by (simp add: peer_ids_def)

lemma seated_length:
  assumes "seated L m a n reg w"
  shows "length (r_clients reg) = n"
proof -
  have "length (map c_id (r_clients reg)) = length (peer_ids n)" using assms by (simp only: seated_def)
  then show ?thesis by simp
qed

lemma seated_id:
  assumes "seated L m a n reg w" "i < n"
  shows "c_id (r_clients reg ! i) = 1000 + word_of_nat i"
proof -
  have "map c_id (r_clients reg) ! i = peer_ids n ! i" using assms(1) by (simp only: seated_def)
  then show ?thesis using assms(2) seated_length [OF assms(1)] by (simp add: peer_ids_def)
qed

lemma enumerate_peers: "enumerate 0 (peer_ids n) = map (\<lambda>i. (i, 1000 + word_of_nat i)) [0..<n]"
  by (simp add: peer_ids_def enumerate_eq_zip zip_map2 comp_def zip_same_conv_map)

lemma open_all:
  "map to_track_in (c_tracks_out (foldl (\<lambda>c e. handle_track_open c (te_id e)) c es))
     = map to_track_in (c_tracks_out c) @ map te_id es"
  "unopened m c \<Longrightarrow> unopened m (foldl (\<lambda>c e. handle_track_open c (te_id e)) c es)"
  "c_id (foldl (\<lambda>c e. handle_track_open c (te_id e)) c es) = c_id c"
  "c_tracks_in (foldl (\<lambda>c e. handle_track_open c (te_id e)) c es) = c_tracks_in c"
  "c_origin (foldl (\<lambda>c e. handle_track_open c (te_id e)) c es) = c_origin c"
  "c_delivered_media (foldl (\<lambda>c e. handle_track_open c (te_id e)) c es) = c_delivered_media c"
  by (induction es arbitrary: c) (simp_all add: handle_track_open_def unopened_def)

text \<open>What seating needs of the world: the next allocation, and which calls it makes on Prometheus.\<close>

definition uncounted :: "(prom_call \<Rightarrow> nat) \<Rightarrow> bool" where
  "uncounted f \<longleftrightarrow> (\<forall>i. sum_list (map f (peer_drop_counter i)) = 0)
     \<and> sum_list (map f inc_client_connect) = 0 \<and> sum_list (map f inc_active_participants) = 0"

lemma insert_seated:
  assumes s: "seated L m a n reg w" "\<forall>c \<in> set (r_clients reg). c_delivered_media c = 0"
    and w: "upgrade w (a + n) = Some (seated_track L n)"
    and k: "c_id k = 1000 + word_of_nat n" "map te_id (c_tracks_in k) = [a + n]" "c_tracks_out k = []"
      "c_origin k = Local" "\<not> c_suspended k" "c_delivered_media k = 0"
    and i: "insert_client E reg k w = (reg', w')"
  shows "seated L m a (Suc n) reg' w'" and "\<forall>c \<in> set (r_clients reg'). c_delivered_media c = 0"
    and "next_arc w' = next_arc w" "clock w' = clock w" "clock_reads w' = Suc (clock_reads w)"
    "uncounted f \<Longrightarrow> prom_total f w' = prom_total f w"
proof -
  let ?es = "concat (map c_tracks_in (r_clients reg))"
  let ?k = "foldl (\<lambda>c e. handle_track_open c (te_id e)) (k\<lparr>c_metrics := m, c_video_frames_dropped := (m, c_id k)\<rparr>) ?es"
  have m: "r_metrics reg = m" using s(1) by (simp add: seated_def)
  have relay: "\<not> is_relay ?k" using k(4) by (simp add: is_relay_def open_all)
  have r: "r_clients reg' = r_clients reg @ [?k\<lparr>c_in_speaker_detector := True\<rparr>]" "r_metrics reg' = m" "arcs w' = arcs w"
    using i m relay by (auto simp: insert_client_def now_ms_def Let_def split_beta)
  show "next_arc w' = next_arc w" "clock w' = clock w" "clock_reads w' = Suc (clock_reads w)" "uncounted f \<Longrightarrow> prom_total f w' = prom_total f w"
    using i m relay by (auto simp: insert_client_def now_ms_def instant_now_def Let_def uncounted_def split_beta)
  show "\<forall>c \<in> set (r_clients reg'). c_delivered_media c = 0" using s(2) k r by (simp add: open_all)
  have "unopened m ?k" using k by (intro open_all(2)) (simp add: unopened_def)
  then have "unopened m (?k\<lparr>c_in_speaker_detector := True\<rparr>)" by (simp add: unopened_def)
  moreover have "upgrade w' = upgrade w" using r(3) by (simp add: upgrade_def fun_eq_iff)
  ultimately show "seated L m a (Suc n) reg' w'"
    using s(1) k w r by (auto simp: seated_def open_all peer_ids_Suc less_Suc_eq map_concat comp_def)
qed

lemma seat_peer_seated:
  assumes s: "seated L m a n reg w" "\<forall>c \<in> set (r_clients reg). c_delivered_media c = 0" and "next_arc w = a + n"
    and "SfuMetrics_new_default (lab_registry L) (lab_create L) (lab_register L) = Some g"
  shows "\<exists>reg' w'. seat_peer L E (n, 1000 + word_of_nat n) (reg, w) = Some (reg', w')
    \<and> seated L m a (Suc n) reg' w' \<and> (\<forall>c \<in> set (r_clients reg'). c_delivered_media c = 0)
    \<and> next_arc w' = a + Suc n \<and> clock w' = clock w \<and> clock_reads w' = clock_reads w + 2
    \<and> (\<forall>f. uncounted f \<longrightarrow> prom_total f w' = prom_total f w)"
proof -
  define w1 where "w1 = w\<lparr>clock_reads := Suc (clock_reads w)\<rparr>"
  obtain c w2 where c: "Client_new (lab_rtc L (clock w (clock_reads w))) (Suc (m + n)) w1 = Some (c, w2)"
    using Client_new_total by metis
  have f: "c_tracks_in c = []" "c_tracks_out c = []" "c_origin c = Local" "\<not> c_suspended c" "c_delivered_media c = 0"
    "arcs w2 = arcs w" "next_arc w2 = a + n" "clock w2 = clock w" "clock_reads w2 = Suc (clock_reads w)"
    "uncounted f \<Longrightarrow> prom_total f w2 = prom_total f w" for f
    using c assms(3) by (auto simp: Client_new_def next_client_id_def Let_def w1_def uncounted_def prom_total_def emit_def comp_def)
  let ?k = "c\<lparr>c_id := 1000 + word_of_nat n, c_mid_to_kind := AList.update (lab_mid L (word_of_nat n)) Video (c_mid_to_kind c),
    c_tracks_in := [\<lparr>te_id = a + n, last_keyframe_request = None\<rparr>]\<rparr>"
  define w3 where "w3 = w2\<lparr>arcs := (a + n, seated_track L n) # arcs w, next_arc := Suc (a + n)\<rparr>"
  obtain reg' w' where i: "insert_client E reg ?k w3 = (reg', w')" by fastforce
  have u: "upgrade w3 = (upgrade w)(a + n \<mapsto> seated_track L n)" by (simp add: upgrade_def w3_def fun_eq_iff)
  have s3: "seated L m a n reg w3" using s(1) u by (simp add: seated_def)
  have seed: "seed_track_in (lab_mid L) (c\<lparr>c_id := 1000 + word_of_nat n\<rparr>) (word_of_nat n) Video w2 = (?k, a + n, w3)"
    by (simp add: seed_track_in_def arc_new_def Let_def f w3_def seated_track_def)
  have "r_metrics reg = m" using s(1) by (simp add: seated_def)
  then have "seat_peer L E (n, 1000 + word_of_nat n) (reg, w) = Some (reg', w')"
    using c by (simp only: seat_peer_def instant_now_def prod.case Let_def assms(4) option.case new_client_def
        w1_def [symmetric] option.map seed i)
  moreover have k: "c_id ?k = 1000 + word_of_nat n" "map te_id (c_tracks_in ?k) = [a + n]" "c_tracks_out ?k = []"
      "c_origin ?k = Local" "\<not> c_suspended ?k" "c_delivered_media ?k = 0"
    using f(2-5) by simp_all
  have u': "upgrade w3 (a + n) = Some (seated_track L n)" using u by simp
  moreover have "next_arc w3 = a + Suc n" "clock w3 = clock w" "clock_reads w3 = Suc (clock_reads w)" "\<forall>f. prom_total f w3 = prom_total f w2"
    using f(8,9) by (simp_all add: prom_total_def w3_def)
  ultimately show ?thesis using f(10) insert_seated [OF s3 s(2) u' k i] by auto
qed

lemma seat_peers_seated:
  assumes "SfuMetrics_new_default (lab_registry L) (lab_create L) (lab_register L) = Some g"
    and "seated L m a n reg w" "\<forall>c \<in> set (r_clients reg). c_delivered_media c = 0" "next_arc w = a + n"
  shows "\<exists>reg' w'. seat_peers L E (map (\<lambda>i. (i, 1000 + word_of_nat i)) [n..<n + k]) (reg, w) = Some (reg', w')
    \<and> seated L m a (n + k) reg' w' \<and> (\<forall>c \<in> set (r_clients reg'). c_delivered_media c = 0)
    \<and> clock w' = clock w \<and> clock_reads w' = clock_reads w + 2 * k \<and> (\<forall>f. uncounted f \<longrightarrow> prom_total f w' = prom_total f w)"
  using assms(2-)
proof (induction k arbitrary: n reg w)
  case (Suc k)
  obtain reg1 w1 where 1: "seat_peer L E (n, 1000 + word_of_nat n) (reg, w) = Some (reg1, w1)"
    "seated L m a (Suc n) reg1 w1" "\<forall>c \<in> set (r_clients reg1). c_delivered_media c = 0"
    "next_arc w1 = a + Suc n" "clock w1 = clock w" "clock_reads w1 = clock_reads w + 2" "\<forall>f. uncounted f \<longrightarrow> prom_total f w1 = prom_total f w"
    using seat_peer_seated [OF Suc.prems assms(1)] by metis
  have "[n..<n + Suc k] = n # [Suc n..<Suc n + k]" by (simp add: upt_conv_Cons)
  with Suc.IH [OF 1(2-4)] 1 show ?case by (auto simp del: upt_Suc)
qed simp

section \<open>A round\<close>

fun forwarded_as :: "string \<Rightarrow> prom_call \<Rightarrow> nat" where
  "forwarded_as k (WithLabels forwarded_packets_total [l] Inc) = of_bool (l = k)"
| "forwarded_as k _ = 0"

lemma peer_id_inject: "i < 2 ^ 64 \<Longrightarrow> j < 2 ^ 64 \<Longrightarrow> (1000 + word_of_nat i :: u64) = 1000 + word_of_nat j \<longleftrightarrow> i = j"
  by (simp add: word_of_nat_eq_iff take_bit_nat_eq_self)

text \<open>A peer knows the tracks of the peers seated before it; a packet of a later peer has no kind.\<close>

lemma seated_label:
  assumes s: "seated L m a n reg w" and "i < n" "j < n" "n \<le> 2 ^ 64"
  shows "kind_label w (1000 + word_of_nat j) (lab_mid L (word_of_nat j)) (r_clients reg ! i)
    = (if j < i then ''video'' else ''other'')"
proof -
  let ?c = "r_clients reg ! i" and ?P = "track_matches w (1000 + word_of_nat j) (lab_mid L (word_of_nat j))"
  have "length (r_clients reg) = n" using seated_length [OF s] .
  then have ts: "map to_track_in (c_tracks_out ?c) = [a..<a + i]"
    using s \<open>i < n\<close> by (auto simp: seated_def dest: arg_cong [where f = "\<lambda>xs. xs ! i"])
  have P: "?P t \<longleftrightarrow> to_track_in t = a + j \<and> j < i" if "t \<in> set (c_tracks_out ?c)" for t
  proof -
    have "to_track_in t \<in> set [a..<a + i]" using that by (simp flip: ts)
    then obtain j' where j': "to_track_in t = a + j'" "j' < i"
      by (metis atLeastLessThan_upt atLeastLessThan_iff le_iff_add nat_add_left_cancel_less)
    then have "upgrade w (to_track_in t) = Some (seated_track L j')"
      using s assms(2) by (simp add: seated_def)
    then show ?thesis using j' peer_id_inject [of j' j] assms(2-) by (auto simp: track_matches_def seated_track_def)
  qed
  show ?thesis
  proof (cases "j < i")
    case True
    then have "a + j \<in> set (map to_track_in (c_tracks_out ?c))" by (simp add: ts)
    then obtain t where t: "find ?P (c_tracks_out ?c) = Some t"
      using P True by (cases "find ?P (c_tracks_out ?c)") (auto simp: find_None_iff)
    then have "to_track_in t = a + j" using P by (metis find_Some_iff nth_mem)
    moreover have "upgrade w (a + j) = Some (seated_track L j)" using s \<open>j < n\<close> by (simp add: seated_def)
    ultimately show ?thesis using t True by (simp add: kind_label_def seated_track_def)
  next
    case False
    then have "find ?P (c_tracks_out ?c) = None" using P by (simp add: find_None_iff)
    with False show ?thesis by (simp add: kind_label_def)
  qed
qed

lemma sum_list_map_concat: "sum_list (map f (concat xss)) = (\<Sum>xs\<leftarrow>xss. sum_list (map f xs))"
  by (induction xss) simp_all

lemma fanout_seated:
  assumes s: "seated L m a n reg w" and "j < n" "n \<le> 2 ^ 64" and d: "plain d" "mp_mid d = SfuMid_from_str0m (lab_mid L (word_of_nat j))"
  shows "\<exists>w'. fanout_for_tests E (MediaDataEv (1000 + word_of_nat j) d) reg w
      = (reg\<lparr>r_clients := map (bump (1000 + word_of_nat j)) (r_clients reg)\<rparr>, w')
    \<and> upgrade w' = upgrade w \<and> clock w' = clock w \<and> clock_reads w' = clock_reads w
    \<and> prom_total (forwarded_as ''video'') w' = prom_total (forwarded_as ''video'') w + (n - 1 - j)
    \<and> prom_total (forwarded_as ''other'') w' = prom_total (forwarded_as ''other'') w + j"
proof -
  let ?o = "1000 + word_of_nat j :: u64" and ?cs = "r_clients reg"
  let ?calls = "concat (map (delivery_calls w ?o d) ?cs)"
  have l: "length ?cs = n" using seated_length [OF s] .
  have f: "fanout_for_tests E (MediaDataEv ?o d) reg w = (reg\<lparr>r_clients := map (bump ?o) ?cs\<rparr>, emit m ?calls w)"
    using fanout_unopened [of m ?cs d E ?o w] s d(1) by (simp add: fanout_for_tests_def seated_def)
  have one: "sum_list (map (forwarded_as k) (delivery_calls w ?o d (?cs ! i)))
      = of_bool (i \<noteq> j \<and> (k = ''video'' \<and> j < i \<or> k = ''other'' \<and> \<not> j < i))" if "i < n" for i k
    using that assms(2,3) seated_label [OF s that assms(2,3)] peer_id_inject [of i j] seated_id [OF s that] d(2)
    by (auto simp: delivery_calls_def Let_def metric_ops)
  have "sum_list (map (forwarded_as k) ?calls) = (\<Sum>i\<leftarrow>[0..<n]. of_bool (i \<noteq> j \<and> (k = ''video'' \<and> j < i \<or> k = ''other'' \<and> \<not> j < i)))" for k
  proof -
    have "map (delivery_calls w ?o d) ?cs = map (\<lambda>i. delivery_calls w ?o d (?cs ! i)) [0..<n]"
      by (rule nth_equalityI) (simp_all add: l)
    then have "sum_list (map (forwarded_as k) ?calls)
        = (\<Sum>i\<leftarrow>[0..<n]. sum_list (map (forwarded_as k) (delivery_calls w ?o d (?cs ! i))))"
      by (simp add: sum_list_map_concat comp_def)
    also have "\<dots> = (\<Sum>i\<leftarrow>[0..<n]. of_bool (i \<noteq> j \<and> (k = ''video'' \<and> j < i \<or> k = ''other'' \<and> \<not> j < i)))"
      by (intro arg_cong [where f = sum_list] map_cong refl one) simp
    finally show ?thesis .
  qed
  note sums = this [of "''video''"] this [of "''other''"]
  have "(\<Sum>i\<leftarrow>[0..<n]. of_bool (i \<noteq> j \<and> j < i)) = n - 1 - j" "(\<Sum>i\<leftarrow>[0..<n]. of_bool (i \<noteq> j \<and> \<not> j < i)) = min j n"
    by (induction n) auto
  with sums \<open>j < n\<close> have "sum_list (map (forwarded_as ''video'') ?calls) = n - 1 - j" "sum_list (map (forwarded_as ''other'') ?calls) = j"
    by simp_all
  then show ?thesis
    using f by (intro exI [of _ "emit m ?calls w"]) (simp add: upgrade_def fun_eq_iff)
qed

text \<open>
  After \<open>k\<close> rounds every peer has been delivered \<open>k * (n - 1)\<close> packets, and of the packets counted as forwarded half were
  counted as video and half without a kind. \<open>v\<close> and \<open>u\<close> are the counts at the start.
\<close>

definition after_rounds ::
    "('g, 'r, 'p, 't, 'h) lab \<Rightarrow> nat \<Rightarrow> arc \<Rightarrow> nat \<Rightarrow> nat \<Rightarrow> nat \<Rightarrow> nat \<Rightarrow> ('r, 'd, 'p, 't, 'h) drive_state \<Rightarrow> bool" where
  "after_rounds L m a n v u k s \<longleftrightarrow>
     seated L m a n (ds_registry s) (ds_world s)
     \<and> list_all (\<lambda>c. c_delivered_media c = word_of_nat (k * (n - 1))) (r_clients (ds_registry s))
     \<and> packets_forwarded s = word_of_nat (k * n * (n - 1))
     \<and> 2 * prom_total (forwarded_as ''video'') (ds_world s) = 2 * v + k * n * (n - 1)
     \<and> 2 * prom_total (forwarded_as ''other'') (ds_world s) = 2 * u + k * n * (n - 1)"

lemma publish_seated:
  fixes L :: "('g, 'r, 'p, 't, 'h) lab" and s :: "('r, 'd, 'p, 't, 'h) drive_state"
  assumes s: "seated L m a n (ds_registry s) (ds_world s)" and "j < n" "n \<le> 2 ^ 64"
    and s': "s' = publish L E n (j, 1000 + word_of_nat j) s"
  shows "seated L m a n (ds_registry s') (ds_world s')"
    and "r_clients (ds_registry s') = map (bump (1000 + word_of_nat j)) (r_clients (ds_registry s))"
    and "packets_forwarded s' = packets_forwarded s + word_of_nat (n - 1)"
    and "clock (ds_world s') = clock (ds_world s)" "clock_reads (ds_world s) \<le> clock_reads (ds_world s')"
    and "prom_total (forwarded_as ''video'') (ds_world s') = prom_total (forwarded_as ''video'') (ds_world s) + (n - 1 - j)"
    and "prom_total (forwarded_as ''other'') (ds_world s') = prom_total (forwarded_as ''other'') (ds_world s) + j"
proof -
  let ?w = "ds_world s"
  let ?w2 = "?w\<lparr>clock_reads := Suc (Suc (clock_reads ?w))\<rparr>"
  define d where "d = fst (make_media_data (lab_mid L) (lab_params L) (lab_time L) (word_of_nat j) None ?w)"
  have d: "plain d" "mp_mid d = SfuMid_from_str0m (lab_mid L (word_of_nat j))"
    by (simp_all add: d_def make_media_data_def SfuMediaPayload_from_str0m_def plain_def split_beta)
  have mk: "make_media_data (lab_mid L) (lab_params L) (lab_time L) (word_of_nat j) None ?w
      = (d, ?w\<lparr>clock_reads := Suc (clock_reads ?w)\<rparr>)"
    by (simp add: d_def make_media_data_def instant_now_def)
  have "upgrade ?w2 = upgrade ?w" by (simp add: upgrade_def fun_eq_iff)
  then have "seated L m a n (ds_registry s) ?w2" using s by (simp add: seated_def)
  from fanout_seated [OF this assms(2,3) d, of E] obtain w'
    where f: "fanout_for_tests E (MediaDataEv (1000 + word_of_nat j) d) (ds_registry s) ?w2
        = (ds_registry s\<lparr>r_clients := map (bump (1000 + word_of_nat j)) (r_clients (ds_registry s))\<rparr>, w')"
      and w': "upgrade w' = upgrade ?w2" "clock w' = clock ?w2" "clock_reads w' = clock_reads ?w2"
        "prom_total (forwarded_as ''video'') w' = prom_total (forwarded_as ''video'') ?w2 + (n - 1 - j)"
        "prom_total (forwarded_as ''other'') w' = prom_total (forwarded_as ''other'') ?w2 + j" by blast
  have r: "ds_registry s' = ds_registry s\<lparr>r_clients := map (bump (1000 + word_of_nat j)) (r_clients (ds_registry s))\<rparr>"
    "ds_world s' = w'\<lparr>clock_reads := Suc (clock_reads w')\<rparr>"
    "packets_forwarded s' = packets_forwarded s + word_of_nat (n - 1)"
    using f by (simp_all add: s' publish_def mk instant_now_def Let_def)
  have "upgrade (ds_world s') = upgrade ?w" using w'(1) r(2) by (simp add: upgrade_def fun_eq_iff)
  then show "seated L m a n (ds_registry s') (ds_world s')"
    using s r(1) by (simp add: seated_def comp_def list_all_length)
  show "r_clients (ds_registry s') = map (bump (1000 + word_of_nat j)) (r_clients (ds_registry s))"
    and "packets_forwarded s' = packets_forwarded s + word_of_nat (n - 1)"
    and "clock (ds_world s') = clock (ds_world s)" "clock_reads (ds_world s) \<le> clock_reads (ds_world s')"
    and "prom_total (forwarded_as ''video'') (ds_world s') = prom_total (forwarded_as ''video'') (ds_world s) + (n - 1 - j)"
    and "prom_total (forwarded_as ''other'') (ds_world s') = prom_total (forwarded_as ''other'') (ds_world s) + j"
    using r w' by simp_all
qed

text \<open>The first \<open>k\<close> publishers of a round, from a state where every peer has been delivered \<open>x\<close> packets.\<close>

lemma publishers_seated:
  fixes L :: "('g, 'r, 'p, 't, 'h) lab" and s :: "('r, 'd, 'p, 't, 'h) drive_state"
  assumes s: "seated L m a n (ds_registry s) (ds_world s)" "list_all (\<lambda>c. c_delivered_media c = x) (r_clients (ds_registry s))"
    and "n \<le> 2 ^ 64" "k \<le> n"
    and s': "s' = foldl (\<lambda>s p. publish L E n p s) s (map (\<lambda>i. (i, 1000 + word_of_nat i)) [0..<k])"
  shows "seated L m a n (ds_registry s') (ds_world s')
    \<and> map c_delivered_media (r_clients (ds_registry s')) = map (\<lambda>i. x + word_of_nat (k - of_bool (i < k))) [0..<n]
    \<and> packets_forwarded s' = packets_forwarded s + word_of_nat (k * (n - 1))
    \<and> clock (ds_world s') = clock (ds_world s) \<and> clock_reads (ds_world s) \<le> clock_reads (ds_world s')
    \<and> prom_total (forwarded_as ''video'') (ds_world s') = prom_total (forwarded_as ''video'') (ds_world s) + (\<Sum>j<k. n - 1 - j)
    \<and> prom_total (forwarded_as ''other'') (ds_world s') = prom_total (forwarded_as ''other'') (ds_world s) + (\<Sum>j<k. j)"
  using assms(4) s'
proof (induction k arbitrary: s')
  case 0
  have "length (r_clients (ds_registry s)) = n" using seated_length [OF s(1)] .
  then have "map c_delivered_media (r_clients (ds_registry s)) = map (\<lambda>i. x) [0..<n]"
    using s(2) by (intro nth_equalityI) (auto simp: list_all_length)
  with 0 s(1) show ?case by simp
next
  case (Suc k)
  let ?s = "foldl (\<lambda>s p. publish L E n p s) s (map (\<lambda>i. (i, 1000 + word_of_nat i)) [0..<k])"
  note IH = Suc.IH [OF _ refl]
  have k: "k < n" "k < 2 ^ 64" using Suc.prems(1) assms(3) by simp_all
  have IH: "seated L m a n (ds_registry ?s) (ds_world ?s)"
    "map c_delivered_media (r_clients (ds_registry ?s)) = map (\<lambda>i. x + word_of_nat (k - of_bool (i < k))) [0..<n]"
    "packets_forwarded ?s = packets_forwarded s + word_of_nat (k * (n - 1))"
    "clock (ds_world ?s) = clock (ds_world s)" "clock_reads (ds_world s) \<le> clock_reads (ds_world ?s)"
    "prom_total (forwarded_as ''video'') (ds_world ?s) = prom_total (forwarded_as ''video'') (ds_world s) + (\<Sum>j<k. n - 1 - j)"
    "prom_total (forwarded_as ''other'') (ds_world ?s) = prom_total (forwarded_as ''other'') (ds_world s) + (\<Sum>j<k. j)"
    using IH k(1) by simp_all
  have eq: "s' = publish L E n (k, 1000 + word_of_nat k) ?s" using Suc.prems(2) by simp
  note p = publish_seated [OF IH(1) k(1) assms(3) eq]
  let ?cs = "r_clients (ds_registry ?s)"
  have l: "length ?cs = n" using seated_length [OF IH(1)] .
  have "map c_delivered_media (map (bump (1000 + word_of_nat k)) ?cs) ! i
      = map (\<lambda>i. x + word_of_nat (Suc k - of_bool (i < Suc k))) [0..<n] ! i" if "i < n" for i
  proof -
    have "c_id (?cs ! i) = 1000 + word_of_nat i" using seated_id [OF IH(1) that] .
    moreover have "map c_delivered_media ?cs ! i = map (\<lambda>i. x + word_of_nat (k - of_bool (i < k))) [0..<n] ! i"
      by (simp only: IH(2))
    moreover have "word_of_nat (k - 1) + 1 = (word_of_nat k :: u64)" if "i < k"
      using that by (metis One_nat_def Suc_diff_1 add.commute gr_implies_not0 not_gr_zero of_nat_Suc)
    ultimately show ?thesis
      using that l peer_id_inject [of i k] k assms(3) by (auto simp: bump_def less_Suc_eq algebra_simps)
  qed
  then have "map c_delivered_media (map (bump (1000 + word_of_nat k)) ?cs)
      = map (\<lambda>i. x + word_of_nat (Suc k - of_bool (i < Suc k))) [0..<n]"
    by (intro nth_equalityI) (simp_all add: l)
  moreover have "(word_of_nat (Suc k * (n - 1)) :: u64) = word_of_nat (k * (n - 1)) + word_of_nat (n - 1)"
    by (simp only: mult_Suc of_nat_add add.commute)
  ultimately show ?case
    using p IH(3-) by (simp only: sum.lessThan_Suc add.assoc) (auto intro: order.trans)
qed

lemma sum_publishers: "2 * (\<Sum>j<n. n - 1 - j) = n * (n - 1)" "2 * (\<Sum>j<n. j) = n * (n - 1 :: nat)"
proof -
  show o: "2 * (\<Sum>j<n. j) = n * (n - 1)" by (induction n) (auto simp: algebra_simps)
  have "(\<Sum>j<n. n - 1 - j) = (\<Sum>j<n. j)"
    using sum.nat_diff_reindex [of "\<lambda>j. j" n] by simp
  with o show "2 * (\<Sum>j<n. n - 1 - j) = n * (n - 1)" by simp
qed

lemma round_counts:
  fixes L :: "('g, 'r, 'p, 't, 'h) lab" and s :: "('r, 'd, 'p, 't, 'h) drive_state"
  assumes "after_rounds L m a n v u k s" "n \<le> 2 ^ 64"
    and s': "s' = foldl (\<lambda>s p. publish L E n p s) s (enumerate 0 (peer_ids n))"
  shows "after_rounds L m a n v u (Suc k) s'" "clock (ds_world s') = clock (ds_world s)"
    "clock_reads (ds_world s) \<le> clock_reads (ds_world s')"
proof -
  let ?x = "word_of_nat (k * (n - 1)) :: u64"
  have s: "seated L m a n (ds_registry s) (ds_world s)" "list_all (\<lambda>c. c_delivered_media c = ?x) (r_clients (ds_registry s))"
    "packets_forwarded s = word_of_nat (k * n * (n - 1))"
    "2 * prom_total (forwarded_as ''video'') (ds_world s) = 2 * v + k * n * (n - 1)"
    "2 * prom_total (forwarded_as ''other'') (ds_world s) = 2 * u + k * n * (n - 1)"
    using assms(1) by (simp_all add: after_rounds_def)
  have p: "seated L m a n (ds_registry s') (ds_world s')"
    "map c_delivered_media (r_clients (ds_registry s')) = map (\<lambda>i. ?x + word_of_nat (n - of_bool (i < n))) [0..<n]"
    "packets_forwarded s' = packets_forwarded s + word_of_nat (n * (n - 1))"
    "prom_total (forwarded_as ''video'') (ds_world s') = prom_total (forwarded_as ''video'') (ds_world s) + (\<Sum>j<n. n - 1 - j)"
    "prom_total (forwarded_as ''other'') (ds_world s') = prom_total (forwarded_as ''other'') (ds_world s) + (\<Sum>j<n. j)"
    and "clock (ds_world s') = clock (ds_world s)" "clock_reads (ds_world s) \<le> clock_reads (ds_world s')"
    using publishers_seated [OF s(1,2) assms(2) order.refl s' [unfolded enumerate_peers]] by blast+
  then show "clock (ds_world s') = clock (ds_world s)" "clock_reads (ds_world s) \<le> clock_reads (ds_world s')" by blast+
  have x: "?x + word_of_nat (n - 1) = word_of_nat (Suc k * (n - 1))"
    by (simp only: mult_Suc of_nat_add add.commute)
  have "\<forall>y \<in> set (map c_delivered_media (r_clients (ds_registry s'))). y = word_of_nat (Suc k * (n - 1))"
    using x by (auto simp: p(2))
  then have "list_all (\<lambda>c. c_delivered_media c = word_of_nat (Suc k * (n - 1))) (r_clients (ds_registry s'))"
    by (simp add: list_all_iff)
  moreover have "packets_forwarded s' = word_of_nat (Suc k * n * (n - 1))"
    unfolding p(3) s(3) by (simp only: mult_Suc add_mult_distrib of_nat_add add.commute mult.assoc)
  moreover have "2 * prom_total (forwarded_as ''video'') (ds_world s') = 2 * v + Suc k * n * (n - 1)"
    "2 * prom_total (forwarded_as ''other'') (ds_world s') = 2 * u + Suc k * n * (n - 1)"
    using s(4,5) sum_publishers [of n] by (simp_all only: p(4,5) add_mult_distrib2 mult_Suc add_mult_distrib)
  ultimately show "after_rounds L m a n v u (Suc k) s'" using p(1) by (simp add: after_rounds_def)
qed

section \<open>The loop ends\<close>

lemma after_rounds_cong:
  "after_rounds L m a n v u k s \<Longrightarrow> after_rounds L m a n v u k (s\<lparr>ds_world := ds_world s\<lparr>clock_reads := r\<rparr>, ds_slept := z\<rparr>)"
  "after_rounds L m a n v u k s \<Longrightarrow> after_rounds L m a n v u k (s\<lparr>ds_world := ds_world s\<lparr>clock_reads := r\<rparr>\<rparr>)"
  by (simp_all add: after_rounds_def seated_def upgrade_def)

lemma drive_loop_ends:
  fixes L :: "('g, 'r, 'p, 't, 'h) lab" and s :: "('r, 'd, 'p, 't, 'h) drive_state"
  assumes "after_rounds L m a n v u k s" "n \<le> 2 ^ 64"
    and "\<forall>r \<ge> r0. deadline \<le> clock (ds_world s) r" "r0 \<le> clock_reads (ds_world s) + fuel"
  shows "\<exists>k' s'. drive_loop L E n interval deadline (Suc fuel) s = Some s' \<and> after_rounds L m a n v u k' s'"
  using assms(1,3,4)
proof (induction fuel arbitrary: k s)
  case (0 k s)
  then have "drive_loop L E n interval deadline (Suc 0) s
      = Some (s\<lparr>ds_world := ds_world s\<lparr>clock_reads := Suc (clock_reads (ds_world s))\<rparr>\<rparr>)"
    by (simp add: instant_now_def not_less)
  then show ?case using after_rounds_cong(2) [OF "0.prems"(1)] by blast
next
  case (Suc fuel k s)
  let ?r = "clock_reads (ds_world s)"
  show ?case
  proof (cases "clock (ds_world s) ?r < deadline")
    case False
    then have "drive_loop L E n interval deadline (Suc (Suc fuel)) s
        = Some (s\<lparr>ds_world := ds_world s\<lparr>clock_reads := Suc ?r\<rparr>\<rparr>)"
      by (simp add: instant_now_def)
    then show ?thesis using after_rounds_cong(2) [OF Suc.prems(1)] by blast
  next
    case True
    define s1 where "s1 = s\<lparr>ds_world := ds_world s\<lparr>clock_reads := Suc (Suc ?r)\<rparr>\<rparr>"
    define s2 where "s2 = foldl (\<lambda>s p. publish L E n p s) s1 (enumerate 0 (peer_ids n))"
    let ?e = "duration_since (clock (ds_world s2) (clock_reads (ds_world s2))) (clock (ds_world s) (Suc ?r))"
    define s3 where "s3 = s2\<lparr>ds_world := ds_world s2\<lparr>clock_reads := Suc (clock_reads (ds_world s2))\<rparr>,
      ds_slept := ds_slept s2 @ (if ?e < interval then [interval - ?e] else [])\<rparr>"
    have step: "drive_loop L E n interval deadline (Suc (Suc fuel)) s = drive_loop L E n interval deadline (Suc fuel) s3"
      unfolding drive_loop.simps(2) [of L E n interval deadline "Suc fuel" s] instant_now_def Let_def prod.case
      using True by (simp add: s1_def s2_def s3_def del: drive_loop.simps)
    have "after_rounds L m a n v u k s1" unfolding s1_def by (rule after_rounds_cong(2) [OF Suc.prems(1)])
    note r = round_counts [OF this assms(2) s2_def]
    have "after_rounds L m a n v u (Suc k) s3" unfolding s3_def by (rule after_rounds_cong(1) [OF r(1)])
    moreover have "clock (ds_world s3) = clock (ds_world s)" "?r < clock_reads (ds_world s3)"
      using r(2,3) by (simp_all add: s3_def s1_def)
    ultimately show ?thesis using Suc.IH [of "Suc k" s3] Suc.prems(2,3) step by simp
  qed
qed

section \<open>Setting up\<close>

lemma synthetic_setup:
  fixes L :: "('g, 'r, 'p, 't, 'h) lab" and E :: "('r, 'd, 'p, 't) env"
  assumes "registry_contract names (lab_create L) (lab_register L)" "lab_registry L = Some g" "names g = {}"
    and "hist_new L 1 1000000 3 \<noteq> None" "2 \<le> a_peers args" "0 < a_packet_rate_pps args"
  shows "\<exists>a s0 start. after_rounds L m a (a_peers args) (prom_total (forwarded_as ''video'') w) (prom_total (forwarded_as ''other'') w) 0 s0
    \<and> clock (ds_world s0) = clock w
    \<and> (\<forall>fuel. synthetic_main L E m args fuel w =
        (case instant_add (clock w (clock_reads w + 2 + 2 * a_peers args)) (from_secs (unat (a_duration_secs args))) of
           None \<Rightarrow> None
         | Some deadline \<Rightarrow>
             map_option (\<lambda>s. let w = ds_world s; s = s\<lparr>ds_world := w\<lparr>clock_reads := Suc (clock_reads w)\<rparr>\<rparr>
                 in (make_report L args (duration_since (clock w (clock_reads w)) start) s, s))
               (drive_loop L E (a_peers args) (from_micros (1000000 div unat (a_packet_rate_pps args))) deadline fuel s0)))"
proof -
  let ?n = "a_peers args" and ?v = "prom_total (forwarded_as ''video'') w" and ?u = "prom_total (forwarded_as ''other'') w"
  obtain g' where g: "SfuMetrics_new_default (lab_registry L) (lab_create L) (lab_register L) = Some g'"
    using SfuMetrics_new_ok [OF assms(1,3)] by (auto simp: SfuMetrics_new_default_def assms(2))
  obtain hist where h: "hist_new L 1 1000000 3 = Some hist" using assms(4) by blast
  obtain reg0 w0 where new: "Registry_new E m w = (reg0, w0)" by fastforce
  have r0: "r_clients reg0 = []" "r_metrics reg0 = m" "clock w0 = clock w" "clock_reads w0 = clock_reads w + 2"
    "prom w0 = prom w"
    using new by (auto simp: Registry_new_def instant_now_def Let_def)
  have unc: "uncounted (forwarded_as k)" for k by (simp add: uncounted_def metric_ops)
  have "seated L m (next_arc w0) 0 reg0 w0" by (simp add: seated_def r0 peer_ids_def)
  from seat_peers_seated [OF g this, where k = ?n and E = E] obtain reg w1
    where seat: "seat_peers L E (enumerate 0 (peer_ids ?n)) (reg0, w0) = Some (reg, w1)"
      "seated L m (next_arc w0) ?n reg w1" "\<forall>c \<in> set (r_clients reg). c_delivered_media c = 0"
      "clock w1 = clock w" "clock_reads w1 = clock_reads w + 2 + 2 * ?n"
      "\<forall>f. uncounted f \<longrightarrow> prom_total f w1 = prom_total f w0"
    by (auto simp: r0 enumerate_peers)
  define s0 where "s0 = \<lparr>ds_registry = reg, ds_hist = hist, packets_forwarded = 0, ds_slept = [],
    ds_world = w1\<lparr>clock_reads := Suc (Suc (clock_reads w1))\<rparr>\<rparr>"
  have pt: "prom_total f w0 = prom_total f w" for f by (simp add: prom_total_def r0)
  have "after_rounds L m (next_arc w0) ?n ?v ?u 0 s0"
    using seat unc by (simp add: after_rounds_def s0_def seated_def upgrade_def list_all_iff pt)
  moreover have "clock (ds_world s0) = clock w" by (simp add: s0_def seat)
  ultimately show ?thesis
    using assms(5,6) g h new seat(1)
    by - (rule exI [of _ "next_arc w0"], rule exI [of _ s0], rule exI [of _ "clock w (Suc (clock_reads w1))"],
      simp add: synthetic_main_def instant_now_def Let_def s0_def seat(4,5) split: option.split del: drive_loop.simps)
qed

section \<open>Property\<close>

text \<open>
  C38: the load generator ends, and its report is what was delivered, but the subscription graph it sets up is half
  of what it claims, and a run that is asked to last too long panics before it begins. Take at least two peers and a
  rate above zero, a Prometheus registry that accepts well-formed metrics, and a clock that goes past every instant that
  can be represented. The deadline is the reading of the clock after seating, plus the duration. If it is not
  representable - a duration of \<^verbatim>\<open>u64::MAX\<close> seconds is enough - \<^verbatim>\<open>main\<close> panics, whatever the fuel. If it is, \<^verbatim>\<open>main\<close> returns a
  report, without a panic (in a release build, where the count of packets wraps around), after some number \<open>k\<close> of rounds.
  Every peer has been delivered a packet of every other peer in each round, and
  \<^verbatim>\<open>packets_forwarded\<close> is the sum. But a peer is told only the tracks of the peers inserted
  before it: peer \<open>i\<close> ends with exactly \<open>i\<close> outgoing tracks, \<open>N(N-1)/2\<close> in all and not the \<open>N(N-1)\<close> of the
  comment, and half of the deliveries are counted under no kind because the receiver does not know the track.
\<close>

theorem synthetic_room_outcome:
  fixes L :: "('g, 'r, 'p, 't, 'h) lab" and E :: "('r, 'd, 'p, 't) env"
  assumes "registry_contract names (lab_create L) (lab_register L)" "lab_registry L = Some g" "names g = {}"
    and "hist_new L 1 1000000 3 \<noteq> None"
    and "2 \<le> a_peers args" "a_peers args < 2 ^ 64" "0 < a_packet_rate_pps args"
    and "\<forall>t < instant_limit. \<exists>r0. \<forall>r \<ge> r0. t \<le> clock w r"
  shows "if clock w (clock_reads w + 2 + 2 * a_peers args) + from_secs (unat (a_duration_secs args)) < from_secs (2 ^ 63)
    then \<exists>fuel k report s. synthetic_main L E m args fuel w = Some (report, s)
      \<and> rep_packets_forwarded report = word_of_nat (k * a_peers args * (a_peers args - 1))
      \<and> map c_delivered_media (r_clients (ds_registry s)) = replicate (a_peers args) (word_of_nat (k * (a_peers args - 1)))
      \<and> map (\<lambda>c. length (c_tracks_out c)) (r_clients (ds_registry s)) = [0..<a_peers args]
      \<and> 2 * prom_total (forwarded_as ''video'') (ds_world s)
          = 2 * prom_total (forwarded_as ''video'') w + k * a_peers args * (a_peers args - 1)
      \<and> 2 * prom_total (forwarded_as ''other'') (ds_world s)
          = 2 * prom_total (forwarded_as ''other'') w + k * a_peers args * (a_peers args - 1)
    else \<forall>fuel. synthetic_main L E m args fuel w = None"
proof -
  let ?n = "a_peers args" and ?v = "prom_total (forwarded_as ''video'') w" and ?u = "prom_total (forwarded_as ''other'') w"
  let ?deadline = "clock w (clock_reads w + 2 + 2 * ?n) + from_secs (unat (a_duration_secs args))"
  obtain a s0 start where s0: "after_rounds L m a ?n ?v ?u 0 s0" "clock (ds_world s0) = clock w"
    and main: "\<And>fuel. synthetic_main L E m args fuel w =
        (case instant_add (clock w (clock_reads w + 2 + 2 * ?n)) (from_secs (unat (a_duration_secs args))) of
           None \<Rightarrow> None
         | Some deadline \<Rightarrow>
             map_option (\<lambda>s. let w = ds_world s; s = s\<lparr>ds_world := w\<lparr>clock_reads := Suc (clock_reads w)\<rparr>\<rparr>
                 in (make_report L args (duration_since (clock w (clock_reads w)) start) s, s))
               (drive_loop L E ?n (from_micros (1000000 div unat (a_packet_rate_pps args))) deadline fuel s0))"
    using synthetic_setup [OF assms(1-5,7), of m w E] by blast
  show ?thesis
  proof (cases "?deadline < from_secs (2 ^ 63)")
    case False
    then show ?thesis by (simp add: main instant_add_def instant_limit_def)
  next
    case True
    then obtain r0 where "\<forall>r \<ge> r0. ?deadline \<le> clock w r" using assms(8) by (auto simp: instant_limit_def)
    then obtain k s1 where loop: "drive_loop L E ?n (from_micros (1000000 div unat (a_packet_rate_pps args)))
          ?deadline (Suc r0) s0 = Some s1" "after_rounds L m a ?n ?v ?u k s1"
      using drive_loop_ends [of L m a ?n ?v ?u 0 s0 r0 ?deadline r0] assms(6) s0 by fastforce
    define s where "s = s1\<lparr>ds_world := ds_world s1\<lparr>clock_reads := Suc (clock_reads (ds_world s1))\<rparr>\<rparr>"
    define report where "report = make_report L args (duration_since (clock (ds_world s1) (clock_reads (ds_world s1))) start) s"
    have run: "synthetic_main L E m args (Suc r0) w = Some (report, s)"
      using True loop(1) by (simp add: main instant_add_def instant_limit_def Let_def s_def report_def del: drive_loop.simps)
    have fin: "after_rounds L m a ?n ?v ?u k s" unfolding s_def by (rule after_rounds_cong(2) [OF loop(2)])
    then have st: "seated L m a ?n (ds_registry s) (ds_world s)" by (simp add: after_rounds_def)
    have "map c_delivered_media (r_clients (ds_registry s)) = replicate ?n (word_of_nat (k * (?n - 1)))"
      using fin seated_length [OF st] by (auto simp: after_rounds_def list_all_iff intro!: replicate_eqI)
    moreover have "rep_packets_forwarded report = packets_forwarded s" by (simp add: report_def make_report_def split_beta)
    ultimately show ?thesis
      using True run fin seated_tracks [OF st]
      by (simp del: map_eq_conv) (intro exI [of _ "Suc r0"] exI [of _ k] exI [of _ report] exI [of _ s], simp add: after_rounds_def)
  qed
qed

definition demo_lab :: "(string list, script, unit, unit, u64 list) lab" where
  "demo_lab =
     \<lparr>lab_registry = Some [], lab_create = \<lambda>_. True,
      lab_register = \<lambda>g opt. if opt_name opt \<in> set g then None else Some (opt_name opt # g),
      lab_rtc = \<lambda>_. subscriber, lab_mid = \<lambda>t. Mid [t], lab_params = (), lab_time = (),
      hist_new = \<lambda>_ _ _. Some [], hist_record = \<lambda>h x. Some (x # h), hist_quantile = \<lambda>h _. if h = [] then 0 else hd h,
      getrusage = \<lparr>ru_maxrss = 2048, ru_utime = (1, 0), ru_stime = (0, 0)\<rparr>\<rparr>"

text \<open>The default run of 30 seconds ends; the same run with the longest duration panics.\<close>

theorem synthetic_room_outcome_witness:
  "(\<exists>fuel k report s. synthetic_main demo_lab script_env 0 Args_default fuel script_world = Some (report, s)
    \<and> rep_packets_forwarded report = word_of_nat (k * 8 * 7)
    \<and> map c_delivered_media (r_clients (ds_registry s)) = replicate 8 (word_of_nat (k * 7))
    \<and> map (\<lambda>c. length (c_tracks_out c)) (r_clients (ds_registry s)) = [0, 1, 2, 3, 4, 5, 6, 7]
    \<and> 2 * prom_total (forwarded_as ''video'') (ds_world s) = k * 8 * 7
    \<and> 2 * prom_total (forwarded_as ''other'') (ds_world s) = k * 8 * 7)
   \<and> (\<forall>fuel. synthetic_main demo_lab script_env 0 (Args_default\<lparr>a_duration_secs := - 1\<rparr>) fuel script_world = None)"
proof -
  have "registry_contract set (\<lambda>_. True) (\<lambda>g opt. if opt_name opt \<in> set g then None else Some (opt_name opt # g))"
    by (simp add: registry_contract_def)
  then have c: "registry_contract set (lab_create demo_lab) (lab_register demo_lab)" by (simp add: demo_lab_def)
  have l: "lab_registry demo_lab = Some []" "set ([] :: string list) = {}" "hist_new demo_lab 1 1000000 3 \<noteq> None"
    by (simp_all add: demo_lab_def)
  have a: "2 \<le> a_peers Args_default" "a_peers Args_default < 2 ^ 64" "0 < a_packet_rate_pps Args_default"
    "2 \<le> a_peers (Args_default\<lparr>a_duration_secs := - 1\<rparr>)" "a_peers (Args_default\<lparr>a_duration_secs := - 1\<rparr>) < 2 ^ 64"
    "0 < a_packet_rate_pps (Args_default\<lparr>a_duration_secs := - 1\<rparr>)"
    by (simp_all add: Args_default_def)
  have "t \<le> clock script_world r" if "t \<le> r" for t r
    using that by (simp add: script_world_def from_millis_def)
  then have t: "\<forall>t < instant_limit. \<exists>r0. \<forall>r \<ge> r0. t \<le> clock script_world r" by blast
  have "prom_total f script_world = 0" "[0..<8] = [0, 1, 2, 3, 4, 5, 6, 7 :: nat]" for f
    by (simp_all add: prom_total_def script_world_def upt_rec)
  moreover have "clock script_world r = from_millis r" "clock_reads script_world = 0" "unat (- 1 :: u64) = 2 ^ 64 - 1" for r
    by (simp_all add: script_world_def unat_minus_one_word)
  ultimately show ?thesis
    using synthetic_room_outcome [OF c l a(1-3) t, of script_env 0] synthetic_room_outcome [OF c l a(4-6) t, of script_env 0]
    by (simp add: Args_default_def from_millis_def from_secs_def)
qed

end
