(* ===== verification/Estimate_Tests.thy ===== *)
theory Estimate_Tests
  imports Registry
begin

text \<open>
  The unit tests of the bandwidth estimation (\<^verbatim>\<open>bwe/\<close>, \<^verbatim>\<open>registry/mod.rs\<close>) that do not hinge on long chains of
  rounded arithmetic, run on the model. A test is the conjunction of its assertions; a reading of the clock is an
  argument, so a test passes whatever the clock shows. The tests of the controllers alone are in \<^theory_text>\<open>Control_Tests\<close>.
\<close>

section \<open>One subscriber (bwe/subscriber.rs)\<close>

text \<open>The subscriber of most tests: fresh, with the two internal estimates set.\<close>

definition sub_with :: "f64 \<Rightarrow> f64 \<Rightarrow> PerSubscriber" where
  "sub_with d l = PerSubscriber_new\<lparr>sub_delay := DelayEstimator_new d, sub_loss := LossEstimator_new l\<rparr>"

definition hinted :: "u64 \<Rightarrow> instant \<Rightarrow> PerSubscriber \<Rightarrow> PerSubscriber" where
  "hinted bps t s = s\<lparr>client_hint := Some \<lparr>hint_bps = bps, received_at = t\<rparr>\<rparr>"

definition combined_bps_takes_minimum_of_delay_and_loss :: "instant \<Rightarrow> bool" where
  "combined_bps_takes_minimum_of_delay_and_loss now \<longleftrightarrow>
     combined_bps (sub_with (Fin 2000000) (Fin 1000000)) now \<le> Fin 1100000"

definition native_estimate_acts_as_ceiling :: "instant \<Rightarrow> bool" where
  "native_estimate_acts_as_ceiling now \<longleftrightarrow>
     combined_bps ((sub_with (Fin 2000000) (Fin 2000000))\<lparr>native_estimate_bps := Some (Fin 500000)\<rparr>) now \<le> Fin 500100"

definition client_hint_acts_as_ceiling_when_fresh :: "instant \<Rightarrow> bool" where
  "client_hint_acts_as_ceiling_when_fresh now \<longleftrightarrow>
     combined_bps (hinted 400000 now (sub_with (Fin 2000000) (Fin 2000000))) now \<le> Fin 400100"

definition stale_client_hint_is_ignored :: "instant \<Rightarrow> instant \<Rightarrow> bool" where
  "stale_client_hint_is_ignored past now \<longleftrightarrow>
     Fin 1000 < combined_bps (hinted 100 past (sub_with (Fin 2000000) (Fin 2000000))) now"

definition combine_terms_value_matches_original_min_chain_including_nan :: bool where
  "combine_terms_value_matches_original_min_chain_including_nan \<longleftrightarrow>
     (let scalars = [Fin 30000, Fin 50000, NaN, Fin 0]; opts = [None, Some (Fin 40000), Some NaN, Some (Fin 0)]
      in list_all (\<lambda>delay. list_all (\<lambda>loss. list_all (\<lambda>native. list_all (\<lambda>gcc. list_all (\<lambda>hint.
           let (got, _) = combine_terms delay loss native gcc hint
           in got = old_min_chain delay loss native gcc hint \<and> \<not> is_nan got) opts) opts) opts) scalars) scalars)"

definition binding_term_is_delay_or_loss_at_boot :: "instant \<Rightarrow> bool" where
  "binding_term_is_delay_or_loss_at_boot now \<longleftrightarrow> snd (combined_bps_with_term PerSubscriber_new now) = Delay"

definition binding_term_loss_when_loss_lower :: "instant \<Rightarrow> bool" where
  "binding_term_loss_when_loss_lower now \<longleftrightarrow>
     (let sub = sub_with (Fin 2000000) (Fin 1000000); (bps, t) = combined_bps_with_term sub now
      in t = Loss \<and> bps = combined_bps sub now)"

definition binding_term_native_when_native_ceiling_lowest :: "instant \<Rightarrow> bool" where
  "binding_term_native_when_native_ceiling_lowest now \<longleftrightarrow>
     snd (combined_bps_with_term ((sub_with (Fin 2000000) (Fin 2000000))\<lparr>native_estimate_bps := Some (Fin 500000)\<rparr>) now)
       = Native"

definition binding_term_client_hint_when_fresh_hint_lowest :: "instant \<Rightarrow> bool" where
  "binding_term_client_hint_when_fresh_hint_lowest now \<longleftrightarrow>
     snd (combined_bps_with_term
       (hinted 400000 now ((sub_with (Fin 2000000) (Fin 2000000))\<lparr>native_estimate_bps := Some (Fin 800000)\<rparr>)) now)
       = ClientHintTerm"

definition binding_term_not_client_hint_when_stale :: "instant \<Rightarrow> instant \<Rightarrow> bool" where
  "binding_term_not_client_hint_when_stale past now \<longleftrightarrow>
     snd (combined_bps_with_term
       (hinted 100 past ((sub_with (Fin 2000000) (Fin 2000000))\<lparr>native_estimate_bps := Some (Fin 600000)\<rparr>)) now)
       = Native"

definition binding_term_as_str_and_all_cover_every_variant :: bool where
  "binding_term_as_str_and_all_cover_every_variant \<longleftrightarrow>
     length BindingTerm_ALL = 5
     \<and> map BindingTerm_as_str BindingTerm_ALL = [''delay'', ''loss'', ''native'', ''googcc'', ''client_hint'']"

definition googcc_acts_as_ceiling_when_set :: "instant \<Rightarrow> bool" where
  "googcc_acts_as_ceiling_when_set now \<longleftrightarrow>
     combined_bps ((sub_with (Fin 5000000) (Fin 5000000))
       \<lparr>googcc := Some (force_bps_for_tests GoogCcEstimator_new 300000)\<rparr>) now \<le> Fin 300100"

definition googcc_none_does_not_affect_combined :: "instant \<Rightarrow> bool" where
  "googcc_none_does_not_affect_combined now \<longleftrightarrow>
     Fin 900000 < combined_bps (sub_with (Fin 1000000) (Fin 1000000)) now"

definition binding_term_googcc_when_googcc_ceiling_lowest :: "instant \<Rightarrow> bool" where
  "binding_term_googcc_when_googcc_ceiling_lowest now \<longleftrightarrow>
     snd (combined_bps_with_term ((sub_with (Fin 5000000) (Fin 5000000))
       \<lparr>native_estimate_bps := Some (Fin 2000000),
        googcc := Some (force_bps_for_tests GoogCcEstimator_new 300000)\<rparr>) now) = GoogCc"

text \<open>What the tests compute with: all numbers are integers, so no rounding is involved.\<close>

lemmas estimate_evals =
  sub_with_def hinted_def combined_bps_def combined_bps_with_term_def combine_terms_def min_update_def
  PerSubscriber_new_def DelayEstimator_new_def LossEstimator_new_def INITIAL_BITRATE_BPS_def
  clamp_def MIN_BITRATE_BPS_def MAX_BITRATE_BPS_def fmax_def fmin_def is_nan_def Let_def
  CLIENT_HINT_MAX_AGE_def from_secs_def duration_since_def u64_as_f64_numeral
  force_bps_for_tests_def googcc_current_bps_def aimd_current_def AimdController_new_def

lemma subscriber_tests_pass:
  "combined_bps_takes_minimum_of_delay_and_loss now"
  "native_estimate_acts_as_ceiling now"
  "client_hint_acts_as_ceiling_when_fresh now"
  "binding_term_is_delay_or_loss_at_boot now"
  "binding_term_loss_when_loss_lower now"
  "binding_term_native_when_native_ceiling_lowest now"
  "binding_term_client_hint_when_fresh_hint_lowest now"
  "googcc_acts_as_ceiling_when_set now"
  "googcc_none_does_not_affect_combined now"
  "binding_term_googcc_when_googcc_ceiling_lowest now"
  by (simp_all add: combined_bps_takes_minimum_of_delay_and_loss_def native_estimate_acts_as_ceiling_def
      client_hint_acts_as_ceiling_when_fresh_def binding_term_is_delay_or_loss_at_boot_def
      binding_term_loss_when_loss_lower_def binding_term_native_when_native_ceiling_lowest_def
      binding_term_client_hint_when_fresh_hint_lowest_def googcc_acts_as_ceiling_when_set_def
      googcc_none_does_not_affect_combined_def binding_term_googcc_when_googcc_ceiling_lowest_def estimate_evals)

text \<open>The tests of stale hints take \<open>past\<close> ten seconds before a reading of the clock; \<open>now\<close> is a later reading.\<close>

lemma stale_hint_tests_pass:
  assumes "past + from_secs 10 \<le> now"
  shows "stale_client_hint_is_ignored past now" "binding_term_not_client_hint_when_stale past now"
  using assms
  by (simp_all add: stale_client_hint_is_ignored_def binding_term_not_client_hint_when_stale_def estimate_evals)

lemma combine_tests_pass:
  "combine_terms_value_matches_original_min_chain_including_nan"
  "binding_term_as_str_and_all_cover_every_variant"
proof -
  have "case combine_terms d l n g h of (got, t) \<Rightarrow> got = old_min_chain d l n g h \<and> \<not> is_nan got" for d l n g h
    using combine_terms_chain [of d l n g h] by (auto simp: is_nan_def dest: flt_le_not_NaN split: prod.split)
  then show "combine_terms_value_matches_original_min_chain_including_nan"
    by (simp add: combine_terms_value_matches_original_min_chain_including_nan_def list_all_iff Let_def)
  show "binding_term_as_str_and_all_cover_every_variant"
    by (simp add: binding_term_as_str_and_all_cover_every_variant_def BindingTerm_ALL_def)
qed

section \<open>The map of subscribers (bwe/estimator.rs)\<close>

definition estimate_returns_none_for_unknown_subscriber :: "instant \<Rightarrow> bool" where
  "estimate_returns_none_for_unknown_subscriber now \<longleftrightarrow> estimate_bps BandwidthEstimator_new 99 now = None"

definition native_estimate_acts_as_ceiling_via_estimator :: "instant \<Rightarrow> bool" where
  "native_estimate_acts_as_ceiling_via_estimator now \<longleftrightarrow>
     (case estimate_bps (record_native_estimate BandwidthEstimator_new 1 (Fin 600000)) 1 now of
        Some bps \<Rightarrow> 0 < bps | None \<Rightarrow> False)"

definition forced :: "client_id \<Rightarrow> BandwidthEstimator" where
  "forced k = with_subscriber BandwidthEstimator_new k
     (\<lambda>s. s\<lparr>sub_delay := DelayEstimator_new (Fin 5000000), sub_loss := LossEstimator_new (Fin 5000000)\<rparr>)"

definition client_hint_caps_estimate :: "instant \<Rightarrow> bool" where
  "client_hint_caps_estimate now \<longleftrightarrow>
     (case estimate_bps (record_client_hint (forced 2) 2 400000 now) 2 now of
        Some bps \<Rightarrow> bps \<le> 400100 | None \<Rightarrow> False)"

definition estimate_with_term_none_for_unknown_subscriber :: "instant \<Rightarrow> bool" where
  "estimate_with_term_none_for_unknown_subscriber now \<longleftrightarrow> estimate_with_term BandwidthEstimator_new 99 now = None"

definition estimate_with_term_reports_client_hint_and_matching_value :: "instant \<Rightarrow> bool" where
  "estimate_with_term_reports_client_hint_and_matching_value now \<longleftrightarrow>
     (let est = record_client_hint (forced 5) 5 400000 now
      in case estimate_with_term est 5 now of
           Some (bps, t) \<Rightarrow> t = ClientHintTerm \<and> Some bps = estimate_bps est 5 now
         | None \<Rightarrow> False)"

text \<open>What reading through the mutable accessor yields.\<close>

definition googcc_of :: "BandwidthEstimator \<Rightarrow> client_id \<Rightarrow> GoogCcEstimator option" where
  "googcc_of e k = Option.bind (map_of e k) googcc"

definition enable_googcc_creates_estimator_when_missing :: bool where
  "enable_googcc_creates_estimator_when_missing \<longleftrightarrow>
     googcc_of BandwidthEstimator_new 10 = None
     \<and> googcc_of (enable_googcc_for_subscriber BandwidthEstimator_new 10) 10 \<noteq> None"

definition enable_googcc_is_idempotent_preserves_state :: bool where
  "enable_googcc_is_idempotent_preserves_state \<longleftrightarrow>
     (let est = enable_googcc_for_subscriber BandwidthEstimator_new 11;
          est = googcc_for_subscriber_mut est 11 (\<lambda>g. fst (on_receive g (Fin 100) (Fin 95) (Fin 0)))
      in map_option googcc_current_bps (googcc_of est 11) \<noteq> None
         \<and> map_option googcc_current_bps (googcc_of (enable_googcc_for_subscriber est 11) 11)
           = map_option googcc_current_bps (googcc_of est 11))"

definition googcc_for_subscriber_mut_returns_none_when_disabled :: bool where
  "googcc_for_subscriber_mut_returns_none_when_disabled \<longleftrightarrow>
     googcc_of (record_native_estimate BandwidthEstimator_new 12 (Fin 1000000)) 12 = None"

definition googcc_for_subscriber_mut_returns_none_for_unknown_subscriber :: bool where
  "googcc_for_subscriber_mut_returns_none_for_unknown_subscriber \<longleftrightarrow> googcc_of BandwidthEstimator_new 99 = None"

text \<open>Twenty packets with 50 percent loss, 10 ms apart.\<close>

definition lossy_packets :: "(f64 \<times> f64 \<times> f32) list" where
  "lossy_packets = map (\<lambda>i. let t = usize_as_f64 i * Fin 10 in (t, t, Fin (1 / 2))) [0..<20]"

definition googcc_ceiling_applies_to_estimate_bps :: "instant \<Rightarrow> bool" where
  "googcc_ceiling_applies_to_estimate_bps now \<longleftrightarrow>
     (let est = force_high_estimate_for_tests BandwidthEstimator_new 13 (Fin 5000000)
      in case estimate_bps est 13 now of
           None \<Rightarrow> False
         | Some before \<Rightarrow>
             let est' = googcc_for_subscriber_mut (enable_googcc_for_subscriber est 13) 13
                          (\<lambda>g. receive_all g lossy_packets)
             in before > 1000000
                \<and> (case estimate_bps est' 13 now of Some after \<Rightarrow> after < before | None \<Rightarrow> False))"

definition reap_dead_removes_subscriber :: "instant \<Rightarrow> bool" where
  "reap_dead_removes_subscriber now \<longleftrightarrow>
     (let est = record_native_estimate BandwidthEstimator_new 3 (Fin 1000000)
      in estimate_bps est 3 now \<noteq> None \<and> estimate_bps (est_reap_dead est 3) 3 now = None)"

definition googcc_coverage_counts_enabled_subscribers :: bool where
  "googcc_coverage_counts_enabled_subscribers \<longleftrightarrow>
     (let est = record_native_estimate BandwidthEstimator_new 1 (Fin 1000000);
          est = record_native_estimate est 2 (Fin 1000000)
      in googcc_coverage est = (0, 2) \<and> googcc_coverage (enable_googcc_for_subscriber est 1) = (1, 2))"

lemmas store_evals =
  estimate_bps_def estimate_with_term_def record_native_estimate_def record_client_hint_def with_subscriber_def
  get_or_insert_def BandwidthEstimator_new_def est_reap_dead_def enable_googcc_for_subscriber_def
  googcc_for_subscriber_mut_def googcc_of_def force_high_estimate_for_tests_def forced_def
  googcc_coverage_def googcc_active_def

lemma estimator_tests_pass:
  "estimate_returns_none_for_unknown_subscriber now"
  "native_estimate_acts_as_ceiling_via_estimator now"
  "client_hint_caps_estimate now"
  "estimate_with_term_none_for_unknown_subscriber now"
  "estimate_with_term_reports_client_hint_and_matching_value now"
  "enable_googcc_creates_estimator_when_missing"
  "enable_googcc_is_idempotent_preserves_state"
  "googcc_for_subscriber_mut_returns_none_when_disabled"
  "googcc_for_subscriber_mut_returns_none_for_unknown_subscriber"
  "reap_dead_removes_subscriber now"
  "googcc_coverage_counts_enabled_subscribers"
  by (simp_all add: estimate_returns_none_for_unknown_subscriber_def native_estimate_acts_as_ceiling_via_estimator_def
      client_hint_caps_estimate_def estimate_with_term_none_for_unknown_subscriber_def
      estimate_with_term_reports_client_hint_and_matching_value_def enable_googcc_creates_estimator_when_missing_def
      enable_googcc_is_idempotent_preserves_state_def googcc_for_subscriber_mut_returns_none_when_disabled_def
      googcc_for_subscriber_mut_returns_none_for_unknown_subscriber_def reap_dead_removes_subscriber_def
      googcc_coverage_counts_enabled_subscribers_def store_evals estimate_evals)

text \<open>GoogCC starts at 500 kbit/s and never exceeds 2.5 Mbit/s, which is below the forced 5 Mbit/s.\<close>

lemma forced_ceiling:
  "case estimate_bps (force_high_estimate_for_tests BandwidthEstimator_new k (Fin 5000000)) k now of
     None \<Rightarrow> False
   | Some before \<Rightarrow> before > 1000000
       \<and> (case estimate_bps (googcc_for_subscriber_mut (enable_googcc_for_subscriber
                (force_high_estimate_for_tests BandwidthEstimator_new k (Fin 5000000)) k) k
                (\<lambda>g. receive_all g lossy_packets)) k now of
            Some after \<Rightarrow> after < before | None \<Rightarrow> False)"
proof -
  let ?g = "receive_all GoogCcEstimator_new lossy_packets"
  let ?forced = "force_high_estimate_for_tests BandwidthEstimator_new k (Fin 5000000)"
  have g: "unat (googcc_current_bps ?g) \<le> 2500000"
    using receive_all_ok [of GoogCcEstimator_new lossy_packets]
    by (auto simp: aimd_ok_def GoogCcEstimator_new_def GoogCc_with_bounds_def AimdController_new_def
        GOOGCC_INITIAL_BPS_def GOOGCC_MIN_BPS_def GOOGCC_MAX_BPS_def googcc_current_bps_def aimd_current_def
        word_le_nat_alt)
  then have r: "u64_as_f64 (googcc_current_bps ?g) = Fin (of_nat (unat (googcc_current_bps ?g)))"
    by (intro u64_as_f64_exact) simp
  have before: "estimate_bps ?forced k now = Some 5000000"
    by (simp add: store_evals estimate_evals)
  have "fst (combine_terms (Fin 5000000) (Fin 5000000) None (Some (Fin (of_nat n))) None) = Fin (of_nat n)"
    if "n \<le> 2500000" for n
    using that by (auto simp: combine_terms_def fmin_def fmax_def is_nan_def)
  with g r have "estimate_bps (googcc_for_subscriber_mut (enable_googcc_for_subscriber ?forced k) k
      (\<lambda>g. receive_all g lossy_packets)) k now = Some (f64_as_u64 (Fin (of_nat (unat (googcc_current_bps ?g)))))"
    by (simp add: store_evals combined_bps_def combined_bps_with_term_def PerSubscriber_new_def
        DelayEstimator_new_def LossEstimator_new_def clamp_def MIN_BITRATE_BPS_def MAX_BITRATE_BPS_def)
  moreover have "f64_as_u64 (Fin (of_nat (unat (googcc_current_bps ?g)))) = googcc_current_bps ?g"
    using f64_as_u64_of_nat [of "unat (googcc_current_bps ?g)"] g
    by (simp add: of_nat_unat del: f64_as_u64.simps)
  moreover have "googcc_current_bps ?g < 5000000"
    using g by (simp add: word_less_nat_alt)
  ultimately show ?thesis
    using before by simp
qed

section \<open>TWCC feedback (bwe/feedback.rs)\<close>

definition make_send_times :: "instant \<Rightarrow> u64 list \<Rightarrow> nat \<Rightarrow> PerSubscriber" where
  "make_send_times base seqs interval_ms =
     foldl (\<lambda>s (i, seq). s\<lparr>send_times := AList.update seq (base + from_millis (i * interval_ms)) (send_times s)\<rparr>)
       PerSubscriber_new (enumerate 0 seqs)"

definition near_zero :: "PerSubscriber \<Rightarrow> bool" where
  "near_zero s \<longleftrightarrow> \<bar>filtered_gradient_us (sub_delay s)\<bar> < Fin 5000"

definition zero_gradient_on_uniform_spacing :: "instant \<Rightarrow> bool" where
  "zero_gradient_on_uniform_spacing base \<longleftrightarrow>
     (let seqs = [10, 11, 12, 13, 14];
          feedback = map (\<lambda>(i, seq). \<lparr>sample_seq = seq, sample_arrival = Some (base + from_millis (20 + i * 10))\<rparr>)
                       (enumerate 0 seqs)
      in near_zero (ingest_twcc (make_send_times base seqs 10) feedback (base + from_millis 70)))"

definition loss_in_middle_does_not_corrupt_gradient :: "instant \<Rightarrow> bool" where
  "loss_in_middle_does_not_corrupt_gradient base \<longleftrightarrow>
     (let feedback = map (\<lambda>(seq, arrival). \<lparr>sample_seq = seq, sample_arrival = map_option (\<lambda>ms. base + from_millis ms) arrival\<rparr>)
                       [(1, Some 5), (2, Some 15), (3, None), (4, Some 35), (5, Some 45)]
      in near_zero (ingest_twcc (make_send_times base [1, 2, 3, 4, 5] 10) feedback (base + from_millis 60)))"

lemma constant_delay_near_zero:
  assumes "constant_delay_state D s" "constant_delay_report D s xs"
  shows "near_zero (ingest_twcc s xs now)"
proof -
  have "kalman_in 0 0 (sub_delay (ingest_twcc s xs now))"
    using foldl_ingest_constant [OF assms]
    by (simp add: ingest_twcc_def Let_def constant_delay_state_def control_kalman_in)
  then show ?thesis by (auto simp: near_zero_def filtered_gradient_us_def kalman_in_def)
qed

lemma constant_delay_state_send_times [simp]:
  "constant_delay_state D (s\<lparr>send_times := m\<rparr>) = constant_delay_state D s"
  by (simp add: constant_delay_state_def)

lemma make_send_times_fresh: "constant_delay_state D (make_send_times base seqs ms)"
proof -
  have "constant_delay_state D (foldl (\<lambda>s (i, seq). s\<lparr>send_times := f i seq s\<rparr>) s xs) = constant_delay_state D s"
    for f s and xs :: "(nat \<times> u64) list"
    by (induction xs arbitrary: s) (simp_all add: split_beta)
  moreover have "constant_delay_state D PerSubscriber_new"
    using DelayEstimator_new_ok [of "Fin 300000"]
    by (simp add: constant_delay_state_def PerSubscriber_new_def new_kalman_in INITIAL_BITRATE_BPS_def)
  ultimately show ?thesis by (simp add: make_send_times_def)
qed

text \<open>The clock is within the range of \<open>instant_ok\<close>, some 600 years.\<close>

lemma feedback_tests_pass:
  assumes "base + from_secs 1 < 2 ^ 94"
  shows "zero_gradient_on_uniform_spacing base" "loss_in_middle_does_not_corrupt_gradient base"
  unfolding zero_gradient_on_uniform_spacing_def loss_in_middle_does_not_corrupt_gradient_def Let_def
  by (rule constant_delay_near_zero [OF make_send_times_fresh [of "from_millis 20"]],
      use assms in \<open>simp add: constant_delay_report_def make_send_times_def instant_ok_def from_millis_def from_secs_def\<close>,
      rule constant_delay_near_zero [OF make_send_times_fresh [of "from_millis 5"]],
      use assms in \<open>simp add: constant_delay_report_def make_send_times_def instant_ok_def from_millis_def from_secs_def\<close>)

section \<open>Bounds of the controllers (bwe/googcc, bwe/kalman.rs)\<close>

lemma funpow_invariant: "P x \<Longrightarrow> (\<And>y. P y \<Longrightarrow> P (f y)) \<Longrightarrow> P ((f ^^ n) x)"
  by (induction n) auto

definition bitrate_never_exceeds_max :: bool where
  "bitrate_never_exceeds_max \<longleftrightarrow>
     aimd_current (((\<lambda>c. update_loss c (Fin 0)) ^^ 100) (AimdController_new 1900000 100000 2000000)) \<le> 2000000"

definition bitrate_never_goes_below_min :: bool where
  "bitrate_never_goes_below_min \<longleftrightarrow>
     100000 \<le> aimd_current ((on_overuse ^^ 100) (AimdController_new 200000 100000 2000000))"

definition stable_arrival_times_stay_normal :: bool where
  "stable_arrival_times_stay_normal \<longleftrightarrow>
     tl_state (((\<lambda>t. TrendlineDetector_update t (Fin 20) (Fin 20)) ^^ 25) TrendlineDetector_new) = Normal"

definition insufficient_samples_stay_normal :: bool where
  "insufficient_samples_stay_normal \<longleftrightarrow>
     tl_state (TrendlineDetector_update (TrendlineDetector_update TrendlineDetector_new (Fin 100) (Fin 0)) (Fin 200) (Fin 0))
       = Normal"

definition window_limits_sample_count :: bool where
  "window_limits_sample_count \<longleftrightarrow>
     length (deltas (((\<lambda>t. TrendlineDetector_update t (Fin 20) (Fin 20)) ^^ (WINDOW + 10)) TrendlineDetector_new)) \<le> WINDOW"

definition initial_bitrate_is_default :: bool where
  "initial_bitrate_is_default \<longleftrightarrow> googcc_current_bps GoogCcEstimator_new = GOOGCC_INITIAL_BPS"

definition with_bounds_respects_min_max :: bool where
  "with_bounds_respects_min_max \<longleftrightarrow>
     googcc_current_bps (receive_all (GoogCc_with_bounds 200000 100000 300000)
       (map (\<lambda>i. let t = Fin 20 * (Fin 1 + usize_as_f64 i) in (t, t, Fin 0)) [0..<100])) \<le> 300000"

definition rate_respects_floor_and_ceiling :: "instant \<Rightarrow> bool" where
  "rate_respects_floor_and_ceiling now \<longleftrightarrow>
     (let est = ((\<lambda>d. update_kalman d (Fin 200000)) ^^ 100) (DelayEstimator_new MIN_BITRATE_BPS);
          est = ((\<lambda>d. delay_apply_rate_control d now) ^^ 20) est;
          est2 = ((\<lambda>d. update_kalman d (Fin (- 1000000))) ^^ 100) (DelayEstimator_new MAX_BITRATE_BPS);
          est2 = ((\<lambda>d. delay_apply_rate_control d now) ^^ 1000) est2
      in MIN_BITRATE_BPS \<le> delay_bitrate_bps est \<and> delay_bitrate_bps est2 \<le> MAX_BITRATE_BPS)"

lemma aimd_start:
  "aimd_ok (AimdController_new i lo hi) \<longleftrightarrow> lo \<le> i \<and> i \<le> hi \<and> unat hi \<le> 2 ^ 53"
  "min_bps (AimdController_new i lo hi) = lo" "max_bps (AimdController_new i lo hi) = hi"
  by (simp_all add: AimdController_new_def aimd_ok_def)

lemma aimd_tests_pass: "bitrate_never_exceeds_max" "bitrate_never_goes_below_min"
proof -
  let ?c = "((\<lambda>c. update_loss c (Fin 0)) ^^ 100) (AimdController_new 1900000 100000 2000000)"
  let ?d = "(on_overuse ^^ 100) (AimdController_new 200000 100000 2000000)"
  have "aimd_ok ?c \<and> max_bps ?c = 2000000"
    by (rule funpow_invariant) (simp_all add: update_loss_ok aimd_start)
  then have "aimd_bitrate_bps ?c \<le> 2000000" unfolding aimd_ok_def by metis
  then show "bitrate_never_exceeds_max"
    by (simp add: bitrate_never_exceeds_max_def aimd_current_def)
  have "aimd_ok ?d \<and> min_bps ?d = 100000"
    by (rule funpow_invariant) (simp_all add: on_overuse_ok aimd_start)
  then have "100000 \<le> aimd_bitrate_bps ?d" unfolding aimd_ok_def by metis
  then show "bitrate_never_goes_below_min"
    by (simp add: bitrate_never_goes_below_min_def aimd_current_def)
qed

lemma update_window:
  "length (deltas t) \<le> WINDOW \<Longrightarrow> length (deltas (TrendlineDetector_update t a s)) \<le> WINDOW"
  by (simp add: TrendlineDetector_update_def Let_def trend_push_def WINDOW_def)

lemma trendline_tests_pass:
  "stable_arrival_times_stay_normal" "insufficient_samples_stay_normal" "window_limits_sample_count"
proof -
  let ?f = "\<lambda>t. TrendlineDetector_update t (Fin 20) (Fin 20)"
  have s: "steady (Fin 20, Fin 20)" by (simp add: steady_def is_finite_def)
  have "tl_state ((?f ^^ 25) TrendlineDetector_new) = Normal
      \<and> (\<forall>d \<in> set (deltas ((?f ^^ 25) TrendlineDetector_new)). steady d)"
    by (rule funpow_invariant) (use steady_update [OF _ _ s] in \<open>auto simp: TrendlineDetector_new_def\<close>)
  then show "stable_arrival_times_stay_normal" by (simp add: stable_arrival_times_stay_normal_def)
  show "insufficient_samples_stay_normal"
    by (simp add: insufficient_samples_stay_normal_def TrendlineDetector_update_def TrendlineDetector_new_def
        trend_push_def WINDOW_def)
  have "length (deltas ((?f ^^ (WINDOW + 10)) TrendlineDetector_new)) \<le> WINDOW"
    by (rule funpow_invariant) (simp_all add: update_window TrendlineDetector_new_def)
  then show "window_limits_sample_count" by (simp add: window_limits_sample_count_def)
qed

lemma googcc_tests_pass: "initial_bitrate_is_default" "with_bounds_respects_min_max"
proof -
  show "initial_bitrate_is_default"
    by (simp add: initial_bitrate_is_default_def GoogCcEstimator_new_def GoogCc_with_bounds_def
        googcc_current_bps_def aimd_current_def AimdController_new_def)
  let ?g = "GoogCc_with_bounds 200000 100000 300000"
  have "aimd ?g = AimdController_new 200000 100000 300000" by (simp add: GoogCc_with_bounds_def)
  then have "aimd_ok (aimd (receive_all ?g ps)) \<and> max_bps (aimd (receive_all ?g ps)) = 300000" for ps
    using receive_all_ok [of ?g ps] by (simp add: aimd_start)
  then have "aimd_bitrate_bps (aimd (receive_all ?g ps)) \<le> 300000" for ps
    unfolding aimd_ok_def by metis
  then show "with_bounds_respects_min_max"
    by (simp add: with_bounds_respects_min_max_def googcc_current_bps_def aimd_current_def)
qed

lemma kalman_test_passes: "rate_respects_floor_and_ceiling now"
proof -
  have k: "delay_ok (((\<lambda>d. update_kalman d g) ^^ n) d)" if "delay_ok d" for d g n
    using that by (rule funpow_invariant [where P = delay_ok]) (rule delay.observe_ok)
  have r: "delay_ok (((\<lambda>d. delay_apply_rate_control d now) ^^ n) d)" if "delay_ok d" for d n
    using that by (rule funpow_invariant [where P = delay_ok]) (rule delay.control_ok)
  have b: "MIN_BITRATE_BPS \<le> delay_bitrate_bps d \<and> delay_bitrate_bps d \<le> MAX_BITRATE_BPS" if "delay_ok d" for d
    using that by (auto simp: delay_ok_def bitrate_ok_def)
  have "delay_ok (DelayEstimator_new MIN_BITRATE_BPS)" "delay_ok (DelayEstimator_new MAX_BITRATE_BPS)"
    using DelayEstimator_new_ok by (simp_all add: MIN_BITRATE_BPS_def MAX_BITRATE_BPS_def)
  then show ?thesis
    unfolding rate_respects_floor_and_ceiling_def Let_def
    by (intro conjI b [THEN conjunct1] b [THEN conjunct2] r k)
qed

section \<open>The estimator inside a room (registry/mod.rs)\<close>

definition bandwidth_reads_native_estimate_fed_via_on_twcc_feedback_seam ::
    "('r, 'd, 'p, 't) Registry \<Rightarrow> instant \<Rightarrow> bool" where
  "bandwidth_reads_native_estimate_fed_via_on_twcc_feedback_seam reg now \<longleftrightarrow>
     (let reg = reg\<lparr>r_bandwidth := record_native_estimate (r_bandwidth reg) 1 (Fin 1000000)\<rparr>
      in estimate_bps (r_bandwidth reg) 1 now \<noteq> None)"

definition bandwidth_returns_none_for_unknown_subscriber :: "('r, 'd, 'p, 't) Registry \<Rightarrow> instant \<Rightarrow> bool" where
  "bandwidth_returns_none_for_unknown_subscriber reg now \<longleftrightarrow> estimate_bps (r_bandwidth reg) 99 now = None"

definition enable_googcc_for_subscriber_is_idempotent_and_reachable_via_ceiling_mut ::
    "('r, 'd, 'p, 't) Registry \<Rightarrow> bool" where
  "enable_googcc_for_subscriber_is_idempotent_and_reachable_via_ceiling_mut reg \<longleftrightarrow>
     googcc_of (r_bandwidth reg) 7 = None
     \<and> (let reg = Registry_enable_googcc reg 7
        in googcc_of (r_bandwidth reg) 7 \<noteq> None
           \<and> (let reg = googcc_ceiling_for_subscriber_mut reg 7 (\<lambda>g. fst (on_receive g (Fin 100) (Fin 95) (Fin 0)));
                  bps_before = map_option googcc_current_bps (googcc_of (r_bandwidth reg) 7);
                  reg = Registry_enable_googcc reg 7
              in bps_before \<noteq> None \<and> map_option googcc_current_bps (googcc_of (r_bandwidth reg) 7) = bps_before))"

definition googcc_ceiling_applies_through_bandwidth_accessor ::
    "('r, 'd, 'p, 't) Registry \<Rightarrow> instant \<Rightarrow> bool" where
  "googcc_ceiling_applies_through_bandwidth_accessor reg now \<longleftrightarrow>
     (let reg = reg\<lparr>r_bandwidth := force_high_estimate_for_tests (r_bandwidth reg) 8 (Fin 5000000)\<rparr>
      in case estimate_bps (r_bandwidth reg) 8 now of
           None \<Rightarrow> False
         | Some before \<Rightarrow>
             let reg = googcc_ceiling_for_subscriber_mut (Registry_enable_googcc reg 8) 8
                         (\<lambda>g. receive_all g lossy_packets)
             in before > 1000000
                \<and> (case estimate_bps (r_bandwidth reg) 8 now of Some after \<Rightarrow> after < before | None \<Rightarrow> False))"

lemmas room_evals = Registry_new_def Registry_enable_googcc_def googcc_ceiling_for_subscriber_mut_def split_beta Let_def

lemma registry_tests_pass:
  "bandwidth_reads_native_estimate_fed_via_on_twcc_feedback_seam (fst (Registry_new E m w)) now"
  "bandwidth_returns_none_for_unknown_subscriber (fst (Registry_new E m w)) now"
  "enable_googcc_for_subscriber_is_idempotent_and_reachable_via_ceiling_mut (fst (Registry_new E m w))"
  by (simp_all add: bandwidth_reads_native_estimate_fed_via_on_twcc_feedback_seam_def
      bandwidth_returns_none_for_unknown_subscriber_def
      enable_googcc_for_subscriber_is_idempotent_and_reachable_via_ceiling_mut_def
      PerSubscriber_new_def store_evals room_evals)

lemma ceiling_tests_pass:
  "googcc_ceiling_applies_to_estimate_bps now"
  "googcc_ceiling_applies_through_bandwidth_accessor (fst (Registry_new E m w)) now"
  using forced_ceiling [of 13 now] forced_ceiling [of 8 now]
  by (simp_all add: googcc_ceiling_applies_to_estimate_bps_def googcc_ceiling_applies_through_bandwidth_accessor_def
      room_evals split: option.splits)

end
