(* ===== verification/Control_Tests.thy ===== *)
theory Control_Tests
  imports Detection Estimate_Tests
begin

text \<open>
  The remaining unit tests of the bandwidth estimation: those that follow chains of rounded arithmetic through the Kalman
  filter, the loss window, the AIMD controller, the trendline and the GoogCC estimator. Each is proved from bounds on
  the values involved; nothing is evaluated in floating point.
\<close>

section \<open>The first sample (bwe/kalman.rs)\<close>

text \<open>A fresh filter, of covariance 1, moves almost all the way to its first sample.\<close>

lemma fresh_gain: "\<exists>k. kalman_gain (Fin 1) = Fin k \<and> 63 / 64 \<le> k"
proof -
  obtain q r where q: "PROCESS_NOISE_VAR = Fin q" "13 / 131072 \<le> q" "q \<le> 1 / 8192"
    and r: "MEASUREMENT_NOISE_VAR = Fin r" "1 / 256 \<le> r" "r \<le> 11 / 2048"
    using noise_bounds by blast
  have "\<exists>p. rnd64 (1 + q) = Fin p \<and> 1 \<le> p \<and> p \<le> 2"
    using q by (intro rnd64_between) (simp_all add: dyadic_facts)
  then obtain p where p: "rnd64 (1 + q) = Fin p" "1 \<le> p" "p \<le> 2" by blast
  let ?s = "rq 53 (- 1074) (p + r)"
  have "(3 :: rat) \<le> 2 ^ 1023" by simp
  then have "\<bar>p + r\<bar> \<le> 2 ^ 1023" using p r by linarith
  then have s: "rnd64 (p + r) = Fin ?s" by (rule rnd64_Fin)
  have c: "\<bar>p + r\<bar> \<le> 2 ^ 31" using p r by simp
  have s': "1 \<le> ?s" "?s \<le> p + r + 1 / 1048576"
    using rq_mono [of 1 "p + r" 53 "- 1074"] rq_exact [of 53 "- 1074" 1] rq_abs_error [OF c] p r
    unfolding abs_le_iff by simp_all
  then have "63 / 64 \<le> p / ?s" using p r by (simp add: pos_le_divide_eq)
  moreover have "p / ?s \<le> 2" using s' p by (simp add: pos_divide_le_eq)
  moreover have "repr64 (63 / 64)" using repr64_dyadic [of 63 "- 6"] by (simp add: pow2_def)
  ultimately have "\<exists>k. rnd64 (p / ?s) = Fin k \<and> 63 / 64 \<le> k \<and> k \<le> 2"
    by (intro rnd64_between) simp_all
  then show ?thesis using s' by (auto simp: kalman_gain_def q r p s)
qed

lemma first_sample:
  assumes g: "repr64 g" "0 \<le> g" "g \<le> 2 ^ 30" and l: "repr64 l" "0 \<le> l" "l \<le> g * (63 / 64)"
  shows "kalman_in l g (update_kalman (DelayEstimator_new b) (Fin g))"
proof -
  let ?d = "DelayEstimator_new b"
  have "(2 ^ 30 :: rat) \<le> 2 ^ 1000" by simp
  then have m: "\<bar>0 :: rat\<bar> \<le> 2 ^ 1000" "\<bar>g\<bar> \<le> 2 ^ 1000" using g by simp_all
  have z: "gradient_us ?d = Fin 0" "gradient_var ?d = Fin 1" by (simp_all add: DelayEstimator_new_def)
  have in0: "kalman_in 0 g (update_kalman ?d (Fin g))"
    using update_kalman_in [OF new_kalman_in _ _ _ g(1) m, of g] g by simp
  obtain k where k: "kalman_gain (Fin 1) = Fin k"
    "gradient_us (update_kalman ?d (Fin g)) = rnd64 (0 + rq 53 (- 1074) (k * rq 53 (- 1074) (g - 0)))"
    using update_kalman_gradient [OF z(1) _ _ z(2) _ _ _ _ m, of g] g by auto
  have "63 / 64 \<le> k" using fresh_gain k(1) by auto
  then have "l \<le> k * g" using l g mult_right_mono [of "63 / 64" k g] by simp
  then have "l \<le> rq 53 (- 1074) (k * g)" using rq_mono [of l "k * g" 53 "- 1074"] rq_exact [OF l(1)] by simp
  then have "Fin l \<le> rnd64 (rq 53 (- 1074) (k * g))"
    using l g by (intro rnd64_ge) simp_all
  with k(2) have "Fin l \<le> gradient_us (update_kalman ?d (Fin g))"
    using rq_exact [OF g(1)] by simp
  with in0 show ?thesis by (auto simp: kalman_in_def)
qed

lemma first_samples:
  assumes "repr64 g" "0 \<le> g" "g \<le> 2 ^ 30" and "repr64 l" "0 \<le> l" "l \<le> g * (63 / 64)" and "0 < n"
  shows "kalman_in l g (((\<lambda>d. update_kalman d (Fin g)) ^^ n) (DelayEstimator_new b))"
  using assms(7)
proof (induction n)
  case (Suc n)
  have "(2 ^ 30 :: rat) \<le> 2 ^ 1000" by simp
  then have "\<bar>l\<bar> \<le> 2 ^ 1000" "\<bar>g\<bar> \<le> 2 ^ 1000" using assms by simp_all
  then show ?case
    using Suc update_kalman_in [of l g _ g] first_sample [OF assms(1-6)] assms by (cases "n = 0") simp_all
qed simp

definition kalman_converges_to_injected_gradient :: bool where
  "kalman_converges_to_injected_gradient \<longleftrightarrow>
     (let est = ((\<lambda>d. update_kalman d (Fin 20000)) ^^ 100) (DelayEstimator_new (Fin 1000000))
      in \<bar>filtered_gradient_us est - Fin 20000\<bar> < Fin 3000)"

definition rate_decreases_on_overuse :: "instant \<Rightarrow> bool" where
  "rate_decreases_on_overuse now \<longleftrightarrow>
     (let est = ((\<lambda>d. update_kalman d (Fin 50000)) ^^ 20) (DelayEstimator_new (Fin 2000000))
      in delay_bitrate_bps (delay_apply_rate_control est now) < delay_bitrate_bps est)"

lemma kalman_tests_pass: "kalman_converges_to_injected_gradient" "rate_decreases_on_overuse now"
proof -
  let ?u = "\<lambda>g d. update_kalman d (Fin g)"
  have "kalman_in 19000 20000 ((?u 20000 ^^ 100) (DelayEstimator_new (Fin 1000000)))"
    by (rule first_samples) simp_all
  then obtain x where x: "gradient_us ((?u 20000 ^^ 100) (DelayEstimator_new (Fin 1000000))) = Fin x" "19000 \<le> x" "x \<le> 20000"
    by (auto simp: kalman_in_def)
  have "\<exists>y. rnd64 (x - 20000) = Fin y \<and> - 1000 \<le> y \<and> y \<le> 0"
    using x by (intro rnd64_between) (simp_all add: repr_minus)
  then show "kalman_converges_to_injected_gradient"
    using x by (auto simp: kalman_converges_to_injected_gradient_def filtered_gradient_us_def minus_flt_def)
next
  let ?u = "\<lambda>d. update_kalman d (Fin 50000)"
  let ?e = "(?u ^^ 20) (DelayEstimator_new (Fin 2000000))"
  have "kalman_in 40000 50000 ?e" by (rule first_samples) simp_all
  then have "OVERUSE_THRESHOLD_US < gradient_us ?e" by (auto simp: kalman_in_def OVERUSE_THRESHOLD_US_def)
  moreover have "delay_last_decrease ((?u ^^ n) d) = delay_last_decrease d"
      "delay_bitrate_bps ((?u ^^ n) d) = delay_bitrate_bps d" for n d
    by (induction n) (simp_all add: delay.observe_last delay.observe_rate)
  then have "delay_last_decrease ?e = None" "delay_bitrate_bps ?e = Fin 2000000"
    by (simp_all add: DelayEstimator_new_def clamp_def MIN_BITRATE_BPS_def MAX_BITRATE_BPS_def)
  moreover have "delay_ok ((?u ^^ n) d)" if "delay_ok d" for n d
    using that by (induction n) (simp_all add: delay.observe_ok)
  then have "delay_ok ?e" using DelayEstimator_new_ok [of "Fin 2000000"] by simp
  ultimately show "rate_decreases_on_overuse now"
    using control_lowers [of ?e now] by (simp add: rate_decreases_on_overuse_def MIN_BITRATE_BPS_def)
qed

section \<open>Loss (bwe/loss.rs)\<close>

definition recorded :: "bool list \<Rightarrow> LossEstimator \<Rightarrow> LossEstimator" where
  "recorded rs l = foldl loss_record l rs"

definition loss_fraction_computed_correctly :: bool where
  "loss_fraction_computed_correctly \<longleftrightarrow>
     (let est = recorded (map (\<lambda>i. i mod 5 \<noteq> 0) [0..<LOSS_WINDOW]) (LossEstimator_new (Fin 1000000))
      in \<bar>loss_fraction est - rnd64 (20 / 100)\<bar> < rnd64 (5 / 100))"

definition rate_decreases_on_high_loss :: "instant \<Rightarrow> bool" where
  "rate_decreases_on_high_loss now \<longleftrightarrow>
     (let est = recorded (map (\<lambda>i. i mod 2 = 0) [0..<LOSS_WINDOW]) (LossEstimator_new (Fin 2000000))
      in loss_bitrate_bps (loss_apply_rate_control est now) < loss_bitrate_bps est)"

definition window_slides_old_entries_out :: bool where
  "window_slides_old_entries_out \<longleftrightarrow>
     (let est = recorded (replicate LOSS_WINDOW False) (LossEstimator_new (Fin 1000000))
      in rnd64 (99 / 100) < loss_fraction est
         \<and> loss_fraction (recorded (replicate LOSS_WINDOW True) est) < rnd64 (1 / 100))"

definition rate_increases_on_low_loss :: "instant \<Rightarrow> bool" where
  "rate_increases_on_low_loss now \<longleftrightarrow>
     (let est = recorded (replicate LOSS_WINDOW True) (LossEstimator_new (Fin 500000))
      in loss_bitrate_bps est < loss_bitrate_bps (loss_apply_rate_control est now))"

lemma recorded_simps [simp]:
  "loss_bitrate_bps (recorded rs l) = loss_bitrate_bps l" "loss_last_decrease (recorded rs l) = loss_last_decrease l"
  "recorded qs (recorded rs l) = recorded (rs @ qs) l"
  unfolding recorded_def by (induction rs arbitrary: l) (simp_all add: loss_record_def)

text \<open>With a full window the loss is a multiple of \<open>1/64\<close>, without rounding.\<close>

lemma recorded_loss:
  assumes "length rs = 64" "length (filter Not rs) = k"
  shows "loss_fraction (recorded (qs @ rs) (LossEstimator_new b)) = Fin (of_nat k / 64)"
proof -
  have w: "loss_window (recorded (qs @ rs) (LossEstimator_new b)) = rs"
    using loss_window_latest [of b "qs @ rs"] assms(1) by (simp add: recorded_def)
  have k: "k \<le> 64" using assms length_filter_le [of Not rs] by simp
  have r: "repr64 (of_nat k / 64)"
    using repr64_dyadic [of "int k" "- 6"] k by (simp add: pow2_def)
  have "(of_nat k / 64 :: rat) \<le> 1" using k by simp
  then have "\<bar>of_nat k / 64 :: rat\<bar> \<le> 2 ^ 1023" by (simp add: order.trans [of _ 1])
  then show ?thesis
    using assms k r by (auto simp: loss_fraction_def w usize_as_f64_def rnd64_of_nat rnd64_exact Let_def flt_simps)
qed

lemma lost_counts:
  "length (filter Not (map (\<lambda>i. i mod 5 \<noteq> 0) [0..<64 :: nat])) = 13"
  "length (filter Not (map (\<lambda>i. i mod 2 = 0) [0..<64 :: nat])) = 32"
  by code_simp+

lemma loss_tests_pass:
  "loss_fraction_computed_correctly" "rate_decreases_on_high_loss now" "window_slides_old_entries_out"
  "rate_increases_on_low_loss now"
proof -
  have d: "repr64 (3 / 16)" "repr64 (1 / 4)" "repr64 (- 3 / 64)" "repr64 (1 / 64)" "repr64 (49 / 1024)" "repr64 (1 / 2)"
    "repr64 (1023 / 1024)" "repr64 (1 / 1024)"
    using repr64_dyadic [of 3 "- 4"] repr64_dyadic [of 1 "- 2"] repr64_dyadic [of "- 3" "- 6"] repr64_dyadic [of 1 "- 6"]
      repr64_dyadic [of 49 "- 10"] repr64_dyadic [of 1 "- 1"] repr64_dyadic [of 1023 "- 10"] repr64_dyadic [of 1 "- 10"]
    by (simp_all add: pow2_def)
  obtain q where q: "rnd64 (20 / 100) = Fin q" "3 / 16 \<le> q" "q \<le> 1 / 4"
    using rnd64_between [of "3 / 16" "20 / 100" "1 / 4"] d by auto
  have "\<exists>y. rnd64 (13 / 64 - q) = Fin y \<and> - 3 / 64 \<le> y \<and> y \<le> 1 / 64"
    using q d by (intro rnd64_between) simp_all
  then obtain y where y: "rnd64 (13 / 64 - q) = Fin y" "- 3 / 64 \<le> y" "y \<le> 1 / 64" by blast
  have le: "Fin (49 / 1024) \<le> rnd64 (5 / 100)" using d by (intro rnd64_ge) simp_all
  have "\<bar>y\<bar> < 49 / 1024" using y(2,3) unfolding abs_less_iff by linarith
  then have "\<bar>Fin y\<bar> < rnd64 (5 / 100)" by (intro flt_less_le_trans [OF _ le]) simp
  moreover have "loss_fraction (recorded (map (\<lambda>i. i mod 5 \<noteq> 0) [0..<64]) (LossEstimator_new b)) = Fin (13 / 64)" for b
    using recorded_loss [of "map (\<lambda>i. i mod 5 \<noteq> 0) [0..<64]" 13 "[]" b] by (simp only: lost_counts) simp
  ultimately show "loss_fraction_computed_correctly"
    using y q by (simp add: loss_fraction_computed_correctly_def LOSS_WINDOW_def minus_flt_def)
next
  let ?b = "Fin 2000000"
  let ?e = "recorded (map (\<lambda>i. i mod 2 = 0) [0..<64]) (LossEstimator_new ?b)"
  have "loss_fraction ?e = Fin (1 / 2)"
    using recorded_loss [of "map (\<lambda>i. i mod 2 = 0) [0..<64]" 32 "[]" ?b] by (simp only: lost_counts) simp
  moreover have "repr64 (1 / 2)" using repr64_dyadic [of 1 "- 1"] by (simp add: pow2_def)
  then have "LOSS_HIGH_THRESHOLD \<le> Fin (1 / 2)" unfolding LOSS_HIGH_THRESHOLD_def by (intro rnd64_le) simp_all
  moreover have b: "loss_bitrate_bps ?e = ?b" "loss_last_decrease ?e = None"
    by (simp_all add: LossEstimator_new_def clamp_def MIN_BITRATE_BPS_def MAX_BITRATE_BPS_def)
  moreover have "fmax (?b * LOSS_DECREASE_FACTOR) MIN_BITRATE_BPS < ?b"
    using decrease_strict [of ?b] by (simp add: LOSS_DECREASE_FACTOR_def bitrate_ok_def MIN_BITRATE_BPS_def MAX_BITRATE_BPS_def)
  ultimately show "rate_decreases_on_high_loss now"
    by (simp add: rate_decreases_on_high_loss_def loss_apply_rate_control_def LOSS_WINDOW_def)
next
  have "repr64 (1023 / 1024)" "repr64 (1 / 1024)"
    using repr64_dyadic [of 1023 "- 10"] repr64_dyadic [of 1 "- 10"] by (simp_all add: pow2_def)
  then have t: "rnd64 (99 / 100) \<le> Fin (1023 / 1024)" "Fin (1 / 1024) \<le> rnd64 (1 / 100)" "Fin (1 / 1024) \<le> LOSS_LOW_THRESHOLD"
    unfolding LOSS_LOW_THRESHOLD_def by (intro rnd64_le rnd64_ge; simp)+
  have f: "loss_fraction (recorded (replicate 64 False) (LossEstimator_new b)) = Fin 1"
    "loss_fraction (recorded (qs @ replicate 64 True) (LossEstimator_new b)) = Fin 0" for b qs
    using recorded_loss [of "replicate 64 False" 64 "[]" b] recorded_loss [of "replicate 64 True" 0 qs b] by simp_all
  have "rnd64 (99 / 100) < Fin 1" using t(1) by (rule flt_le_less_trans) simp
  moreover have "Fin 0 < rnd64 (1 / 100)" by (rule flt_less_le_trans [OF _ t(2)]) simp
  ultimately show "window_slides_old_entries_out"
    by (simp add: window_slides_old_entries_out_def f LOSS_WINDOW_def)
  have l: "Fin 0 < LOSS_LOW_THRESHOLD" by (rule flt_less_le_trans [OF _ t(3)]) simp
  have "\<not> LOSS_HIGH_THRESHOLD \<le> Fin 0"
  proof -
    have "repr64 (1 / 16)" using repr64_dyadic [of 1 "- 4"] by (simp add: pow2_def)
    then have "Fin (1 / 16) \<le> LOSS_HIGH_THRESHOLD" unfolding LOSS_HIGH_THRESHOLD_def by (intro rnd64_ge) simp_all
    then show ?thesis using flt_le_trans [of "Fin (1 / 16)" LOSS_HIGH_THRESHOLD "Fin 0"] by auto
  qed
  with f(2) [of "[]" "Fin 500000"] l show "rate_increases_on_low_loss now"
    by (simp add: rate_increases_on_low_loss_def loss_apply_rate_control_def LOSS_WINDOW_def LossEstimator_new_def
        clamp_def MIN_BITRATE_BPS_def MAX_BITRATE_BPS_def LOSS_INCREASE_BPS_def flt_simps fmin_def is_nan_def)
qed

section \<open>Feedback reports (bwe/feedback.rs)\<close>

definition positive_gradient_feeds_kalman :: "instant \<Rightarrow> bool" where
  "positive_gradient_feeds_kalman base \<longleftrightarrow>
     (let seqs = [1, 2, 3, 4, 5]; sub = make_send_times base seqs 10;
          feedback = map (\<lambda>(i, seq). \<lparr>sample_seq = seq, sample_arrival = Some (base + from_millis (15 + i * 15))\<rparr>)
                       (enumerate 0 seqs);
          before = filtered_gradient_us (sub_delay sub);
          after = filtered_gradient_us (sub_delay (ingest_twcc sub feedback (base + from_millis 90)))
      in before < after \<or> Fin 0 < after)"

definition loss_recorded_for_missing_packets :: "instant \<Rightarrow> bool" where
  "loss_recorded_for_missing_packets base \<longleftrightarrow>
     (let sub = PerSubscriber_new\<lparr>send_times := AList.update 2 (base + from_millis 10) (AList.update 1 base [])\<rparr>;
          feedback = [\<lparr>sample_seq = 1, sample_arrival = Some (base + from_millis 15)\<rparr>,
                      \<lparr>sample_seq = 2, sample_arrival = None\<rparr>]
      in Fin 0 < loss_fraction (sub_loss (ingest_twcc sub feedback (base + from_millis 30))))"

lemma control_keeps [simp]:
  "gradient_us (delay_apply_rate_control d now) = gradient_us d" "loss_window (loss_apply_rate_control l now) = loss_window l"
  by (simp_all add: delay_apply_rate_control_def loss_apply_rate_control_def Let_def)

lemma funpow_4: "(f ^^ 4) x = f (f (f (f x)))"
  by (simp add: numeral_eq_Suc)

lemma twcc_tests_pass: "positive_gradient_feeds_kalman base" "loss_recorded_for_missing_packets base"
proof -
  let ?fb = "map (\<lambda>(i, seq). \<lparr>sample_seq = seq, sample_arrival = Some (base + from_millis (15 + i * 15))\<rparr>)
    (enumerate 0 [1, 2, 3, 4, 5])"
  let ?sub = "ingest_twcc (make_send_times base [1, 2, 3, 4, 5] 10) ?fb (base + from_millis 90)"
  have "gradient_us (sub_delay ?sub)
      = gradient_us (((\<lambda>d. update_kalman d (Fin 5000)) ^^ 4) (DelayEstimator_new INITIAL_BITRATE_BPS))"
    by (simp add: ingest_twcc_def ingest_sample_def make_send_times_def PerSubscriber_new_def from_millis_def
        duration_since_def as_micros_def usize_as_f64_def flt_simps minus_flt_def Let_def funpow_4)
  moreover have "kalman_in 4000 5000 (((\<lambda>d. update_kalman d (Fin 5000)) ^^ 4) (DelayEstimator_new INITIAL_BITRATE_BPS))"
    by (rule first_samples) simp_all
  ultimately have "Fin 0 < gradient_us (sub_delay ?sub)" by (auto simp: kalman_in_def)
  then show "positive_gradient_feeds_kalman base"
    by (simp add: positive_gradient_feeds_kalman_def filtered_gradient_us_def)
next
  have "repr64 (1 / 2)" using repr64_dyadic [of 1 "- 1"] by (simp add: pow2_def)
  then have "rnd64 (1 / 2) = Fin (1 / 2)" by (intro rnd64_exact) simp_all
  then show "loss_recorded_for_missing_packets base"
    by (simp add: loss_recorded_for_missing_packets_def ingest_twcc_def ingest_sample_def PerSubscriber_new_def
        LossEstimator_new_def loss_record_def loss_push_def LOSS_WINDOW_def loss_fraction_def usize_as_f64_def
        flt_simps Let_def)
qed

section \<open>AIMD (bwe/googcc/aimd.rs)\<close>

lemma rnd32_between:
  assumes "c \<le> x" "x \<le> d" and "repr 24 (- 149) c" "repr 24 (- 149) d" and "0 \<le> c" "d \<le> 1"
  shows "\<exists>q. rnd32 x = Fin q \<and> c \<le> q \<and> q \<le> d"
proof -
  have "rnd32 y = Fin y" if "repr 24 (- 149) y" "0 \<le> y" "y \<le> 1" for y
    using that rnd_Fin [of y 0 128 "- 149" 24] rq_exact [of 24 "- 149" y] by (simp add: pow2_def)
  then have "Fin c \<le> rnd32 x" "rnd32 x \<le> Fin d"
    using assms rnd_mono [of c x 24 "- 149" 128] rnd_mono [of x d 24 "- 149" 128] by auto
  then show ?thesis by (rule flt_between_Fin)
qed

lemma repr32_dyadic: "\<bar>k\<bar> \<le> 2 ^ 24 \<Longrightarrow> - 149 \<le> e \<Longrightarrow> repr 24 (- 149) (of_int k * pow2 e)"
  unfolding repr_def by blast

text \<open>The thresholds and the loss values of the tests, between binary fractions that tell them apart.\<close>

lemma loss_values:
  "\<exists>q. AIMD_LOSS_LOW_THRESHOLD = Fin q \<and> 1 / 256 \<le> q \<and> q \<le> 3 / 512"
  "\<exists>q. AIMD_LOSS_HIGH_THRESHOLD = Fin q \<and> 5 / 256 \<le> q \<and> q \<le> 11 / 512"
  "\<exists>q. rnd32 (1 / 1000) = Fin q \<and> 0 \<le> q \<and> q \<le> 1 / 512"
  "\<exists>q. rnd32 (5 / 100) = Fin q \<and> 3 / 64 \<le> q \<and> q \<le> 7 / 128"
  "\<exists>q. rnd32 (1 / 100) = Fin q \<and> 5 / 512 \<le> q \<and> q \<le> 3 / 256"
proof -
  have d: "repr 24 (- 149) (1 / 256)" "repr 24 (- 149) (3 / 512)" "repr 24 (- 149) (5 / 256)" "repr 24 (- 149) (11 / 512)"
    "repr 24 (- 149) 0" "repr 24 (- 149) (1 / 512)" "repr 24 (- 149) (3 / 64)" "repr 24 (- 149) (7 / 128)"
    "repr 24 (- 149) (5 / 512)" "repr 24 (- 149) (3 / 256)"
    using repr32_dyadic [of 1 "- 8"] repr32_dyadic [of 3 "- 9"] repr32_dyadic [of 5 "- 8"] repr32_dyadic [of 11 "- 9"]
      repr32_dyadic [of 0 0] repr32_dyadic [of 1 "- 9"] repr32_dyadic [of 3 "- 6"] repr32_dyadic [of 7 "- 7"]
      repr32_dyadic [of 5 "- 9"] repr32_dyadic [of 3 "- 8"]
    by (simp_all add: pow2_def)
  show "\<exists>q. AIMD_LOSS_LOW_THRESHOLD = Fin q \<and> 1 / 256 \<le> q \<and> q \<le> 3 / 512"
    "\<exists>q. AIMD_LOSS_HIGH_THRESHOLD = Fin q \<and> 5 / 256 \<le> q \<and> q \<le> 11 / 512"
    "\<exists>q. rnd32 (1 / 1000) = Fin q \<and> 0 \<le> q \<and> q \<le> 1 / 512"
    "\<exists>q. rnd32 (5 / 100) = Fin q \<and> 3 / 64 \<le> q \<and> q \<le> 7 / 128"
    "\<exists>q. rnd32 (1 / 100) = Fin q \<and> 5 / 512 \<le> q \<and> q \<le> 3 / 256"
    unfolding AIMD_LOSS_LOW_THRESHOLD_def AIMD_LOSS_HIGH_THRESHOLD_def
    by (rule rnd32_between; use d in simp)+
qed

lemma loss_kinds:
  "low_loss (rnd32 (1 / 1000))"
  "clamp (Fin 0) (Fin 1) (rnd32 (1 / 20)) = rnd32 (1 / 20)" "clamp (Fin 0) (Fin 1) (rnd32 (1 / 100)) = rnd32 (1 / 100)"
  "\<not> rnd32 (1 / 20) < AIMD_LOSS_LOW_THRESHOLD" "AIMD_LOSS_HIGH_THRESHOLD < rnd32 (1 / 20)"
  "\<not> rnd32 (1 / 100) < AIMD_LOSS_LOW_THRESHOLD" "\<not> AIMD_LOSS_HIGH_THRESHOLD < rnd32 (1 / 100)"
proof -
  obtain l h a b c where e: "AIMD_LOSS_LOW_THRESHOLD = Fin l" "1 / 256 \<le> l" "l \<le> 3 / 512"
    "AIMD_LOSS_HIGH_THRESHOLD = Fin h" "5 / 256 \<le> h" "h \<le> 11 / 512" "rnd32 (1 / 1000) = Fin a" "0 \<le> a" "a \<le> 1 / 512"
    "rnd32 (1 / 20) = Fin b" "3 / 64 \<le> b" "b \<le> 7 / 128" "rnd32 (1 / 100) = Fin c" "5 / 512 \<le> c" "c \<le> 3 / 256"
    using loss_values by auto
  then show "low_loss (rnd32 (1 / 1000))"
    "clamp (Fin 0) (Fin 1) (rnd32 (1 / 20)) = rnd32 (1 / 20)" "clamp (Fin 0) (Fin 1) (rnd32 (1 / 100)) = rnd32 (1 / 100)"
    "\<not> rnd32 (1 / 20) < AIMD_LOSS_LOW_THRESHOLD" "AIMD_LOSS_HIGH_THRESHOLD < rnd32 (1 / 20)"
    "\<not> rnd32 (1 / 100) < AIMD_LOSS_LOW_THRESHOLD" "\<not> AIMD_LOSS_HIGH_THRESHOLD < rnd32 (1 / 100)"
    by (simp_all add: low_loss_def clamp_def e)
qed

text \<open>A multiplicative decrease takes at least one eighth, down to the floor.\<close>

lemma decrease_eighth:
  assumes "unat b \<le> 2 ^ 50"
  shows "8 * unat (f64_as_u64 (u64_as_f64 b * MD_FACTOR)) \<le> 7 * unat b"
proof -
  obtain f where f: "MD_FACTOR = Fin f" "3 / 4 \<le> f" "f \<le> 7 / 8"
    using decrease_factor by (auto simp: MD_FACTOR_def)
  let ?c = "of_nat (7 * unat b) / 8 :: rat"
  have "(of_nat (7 * unat b) :: rat) \<le> of_nat (7 * 2 ^ 50)" using assms by (simp only: of_nat_le_iff mult_le_mono2)
  then have c: "0 \<le> ?c" "?c \<le> 2 ^ 50" by simp_all
  have r: "repr64 ?c" using repr64_dyadic [of "int (7 * unat b)" "- 3"] assms by (simp add: pow2_def)
  have "(2 ^ 50 :: rat) \<le> 2 ^ 1023" by simp
  then have m: "\<bar>?c\<bar> \<le> 2 ^ 1023" using c by linarith
  have "of_nat (unat b) * f \<le> ?c" using f mult_left_mono [of f "7 / 8" "of_nat (unat b)"] by simp
  then have "rnd64 (of_nat (unat b) * f) \<le> Fin ?c" by (intro rnd64_le [OF _ r m])
  then have "f64_as_u64 (u64_as_f64 b * MD_FACTOR) \<le> f64_as_u64 (Fin ?c)"
    using assms by (intro f64_as_u64_mono) (simp add: f u64_as_f64_exact)
  then have "unat (f64_as_u64 (u64_as_f64 b * MD_FACTOR)) \<le> unat (f64_as_u64 (Fin ?c))" by (simp only: word_le_nat_alt)
  also have "\<dots> = nat \<lfloor>?c\<rfloor>"
  proof (rule unat_f64_as_u64_Fin [OF c(1)])
    have "(2 ^ 50 :: rat) < 2 ^ 64" by simp
    with c(2) show "?c < 2 ^ 64" by linarith
  qed
  also have "nat \<lfloor>?c\<rfloor> = 7 * unat b div 8"
    using floor_divide_of_nat_eq [of "7 * unat b" 8, where 'a = rat] by (simp add: nat_div_distrib)
  finally show ?thesis by linarith
qed

definition low_loss_increases_bitrate :: bool where
  "low_loss_increases_bitrate \<longleftrightarrow>
     (let c = AimdController_new 500000 100000 2000000 in aimd_current c < aimd_current (update_loss c (rnd32 (1 / 1000))))"

definition high_loss_decreases_bitrate :: bool where
  "high_loss_decreases_bitrate \<longleftrightarrow>
     (let c = AimdController_new 500000 100000 2000000 in aimd_current (update_loss c (rnd32 (5 / 100))) < aimd_current c)"

definition neutral_loss_holds_bitrate :: bool where
  "neutral_loss_holds_bitrate \<longleftrightarrow>
     (let c = AimdController_new 500000 100000 2000000 in aimd_current (update_loss c (rnd32 (1 / 100))) = aimd_current c)"

definition overuse_decreases_bitrate :: bool where
  "overuse_decreases_bitrate \<longleftrightarrow>
     (let c = AimdController_new 1000000 100000 2000000 in aimd_current (on_overuse c) < aimd_current c)"

lemma aimd_step_tests_pass:
  "low_loss_increases_bitrate" "high_loss_decreases_bitrate" "neutral_loss_holds_bitrate" "overuse_decreases_bitrate"
proof -
  let ?c = "AimdController_new 500000 100000 2000000"
  have "508000 \<le> unat (aimd_bitrate_bps (update_loss ?c (rnd32 (1 / 1000))))"
    using update_loss_increase [of ?c, OF _ loss_kinds(1)] by (simp add: AimdController_new_def aimd_ok_def)
  then show "low_loss_increases_bitrate"
    by (simp add: low_loss_increases_bitrate_def aimd_current_def word_less_nat_alt AimdController_new_def)
  have "unat (f64_as_u64 (u64_as_f64 (500000 :: u64) * MD_FACTOR)) < 500000"
    using decrease_eighth [of 500000] by simp
  then show "high_loss_decreases_bitrate"
    by (simp add: high_loss_decreases_bitrate_def aimd_current_def update_loss_def loss_kinds AimdController_new_def
        word_less_nat_alt max_def Let_def)
  show "neutral_loss_holds_bitrate"
    by (simp add: neutral_loss_holds_bitrate_def update_loss_def loss_kinds Let_def)
  have "unat (f64_as_u64 (u64_as_f64 (1000000 :: u64) * MD_FACTOR)) < 1000000"
    using decrease_eighth [of 1000000] by simp
  then show "overuse_decreases_bitrate"
    by (simp add: overuse_decreases_bitrate_def aimd_current_def on_overuse_def AimdController_new_def
        word_less_nat_alt max_def)
qed

section \<open>The trendline (bwe/googcc/trendline.rs)\<close>

definition deltas_run :: "(f64 \<times> f64) list \<Rightarrow> TrendlineDetector" where
  "deltas_run ds = foldl (\<lambda>t (a, s). TrendlineDetector_update t a s) TrendlineDetector_new ds"

definition growing_delay :: "(f64 \<times> f64) list" where
  "growing_delay = map (\<lambda>i. (Fin 20 + usize_as_f64 i * Fin 2, Fin 20)) [0..<25]"

definition increasing_delay_triggers_overuse :: bool where
  "increasing_delay_triggers_overuse \<longleftrightarrow> tl_state (deltas_run growing_delay) = Overuse"

definition decreasing_delay_triggers_underuse :: bool where
  "decreasing_delay_triggers_underuse \<longleftrightarrow>
     tl_state (deltas_run (map (\<lambda>i. (Fin 1, usize_as_f64 i * Fin 3)) [1..<26])) = Underuse"

text \<open>The slope depends on the window alone, and the state after three packets on the slope alone.\<close>

definition slope_of :: "(f64 \<times> f64) list \<Rightarrow> f64" where
  "slope_of ds = trendline_slope \<lparr>deltas = ds, tl_state = Normal\<rparr>"

lemma trendline_slope_window: "trendline_slope t = slope_of (deltas t)"
  by (simp add: slope_of_def trendline_slope_def)

lemma deltas_update [simp]: "deltas (TrendlineDetector_update t a s) = trend_push (deltas t) (a, s)"
  by (simp add: TrendlineDetector_update_def Let_def)

lemma deltas_after: "deltas (deltas_run ds) = drop (length ds - 20) ds"
proof -
  have "deltas (foldl (\<lambda>t (a, s). TrendlineDetector_update t a s) t ds) = foldl trend_push (deltas t) ds" for t
    by (induction ds arbitrary: t) (simp_all add: split_beta)
  then show ?thesis
    using trend_win.foldl_push [of "[]" ds] by (simp add: deltas_run_def TrendlineDetector_new_def WINDOW_def)
qed

lemma state_after:
  assumes "20 \<le> length ds"
  shows "tl_state (deltas_run ds) = (if OVERUSE_THRESHOLD < slope_of (drop (length ds - 20) ds) then Overuse
    else if slope_of (drop (length ds - 20) ds) < - OVERUSE_THRESHOLD then Underuse else Normal)"
proof -
  obtain es a s where ds: "ds = es @ [(a, s)]" using assms by (cases ds rule: rev_cases) auto
  let ?t = "deltas_run es"
  have run: "deltas_run ds = TrendlineDetector_update ?t a s" by (simp add: ds deltas_run_def)
  then have w: "trend_push (deltas ?t) (a, s) = drop (length ds - 20) ds"
    using deltas_after [of ds] by simp
  then have l: "\<not> length (trend_push (deltas ?t) (a, s)) < 3" using assms by simp
  show ?thesis using l unfolding run by (simp add: TrendlineDetector_update_def Let_def trendline_slope_window w)
qed

text \<open>Multiples of a quarter are not rounded.\<close>

lemma rnd64_quarter:
  assumes "\<bar>n\<bar> \<le> 2 ^ 50"
  shows "rnd64 (of_int n / 4) = Fin (of_int n / 4)"
proof (rule rnd64_exact)
  show "repr64 (of_int n / 4)" using assms repr64_dyadic [of n "- 2"] by (simp add: pow2_def)
  have "\<bar>of_int n :: rat\<bar> \<le> of_int (2 ^ 50)" using assms by (simp only: of_int_le_iff flip: of_int_abs)
  then have "\<bar>of_int n / 4 :: rat\<bar> \<le> 2 ^ 50" by simp
  moreover have "(2 ^ 50 :: rat) \<le> 2 ^ 1023" by simp
  ultimately show "\<bar>of_int n / 4 :: rat\<bar> \<le> 2 ^ 1023" by linarith
qed

lemma rnd64_int: "\<bar>n\<bar> \<le> 2 ^ 40 \<Longrightarrow> rnd64 (of_int n) = Fin (of_int n)"
  using rnd64_quarter [of "4 * n"] by simp

lemma rnd64_half: "\<bar>n\<bar> \<le> 2 ^ 40 \<Longrightarrow> rnd64 (of_int n / 2) = Fin (of_int n / 2)"
  using rnd64_quarter [of "2 * n"] by simp

text \<open>
  The regression on integer delays and a full window, in integers: twice the numerator and four times the
  denominator of the code, with \<open>m\<close> the mean of the accumulated delays.
\<close>

fun int_delays :: "int \<Rightarrow> (int \<times> int) list \<Rightarrow> int list" where
  "int_delays c [] = []"
| "int_delays c ((a, s) # ds) = (c + (a - s)) # int_delays (c + (a - s)) ds"

fun int_regression :: "int \<Rightarrow> int \<Rightarrow> int list \<Rightarrow> int \<times> int \<Rightarrow> int \<times> int" where
  "int_regression m i [] nd = nd"
| "int_regression m i (y # ys) (num, den) =
     int_regression m (i + 1) ys (num + (2 * i - 19) * (y - m), den + (2 * i - 19) * (2 * i - 19))"

definition fin_pair :: "int \<times> int \<Rightarrow> f64 \<times> f64" where
  "fin_pair d = (Fin (of_int (fst d)), Fin (of_int (snd d)))"

lemma fin_pair_Pair: "fin_pair (a, s) = (Fin (of_int a), Fin (of_int s))"
  by (simp add: fin_pair_def)

definition fins :: "int list \<Rightarrow> f64 list" where
  "fins ys = map (\<lambda>y. Fin (of_int y)) ys"

lemma fins_simps [simp]: "fins [] = []" "fins (y # ys) = Fin (of_int y) # fins ys" "length (fins ys) = length ys"
  by (simp_all add: fins_def)

lemma plus_int: "\<bar>a + b\<bar> \<le> 2 ^ 40 \<Longrightarrow> Fin (of_int a) + Fin (of_int b) = Fin (of_int (a + b))"
  using rnd64_int [of "a + b"] by simp

lemma minus_int: "\<bar>a - b\<bar> \<le> 2 ^ 40 \<Longrightarrow> Fin (of_int a) - Fin (of_int b) = Fin (of_int (a - b))"
  using rnd64_int [of "a - b"] by (simp add: minus_flt_def)

lemma accumulate_int:
  assumes "\<forall>d \<in> set ds. \<bar>fst d - snd d\<bar> \<le> 2 ^ 10" and "\<bar>c\<bar> + 2 ^ 10 * int (length ds) \<le> 2 ^ 20"
  shows "accumulate (Fin (of_int c)) (map fin_pair ds) = fins (int_delays c ds)
    \<and> (\<forall>y \<in> set (int_delays c ds). \<bar>y\<bar> \<le> 2 ^ 20)"
  using assms
proof (induction c ds rule: int_delays.induct)
  case (2 c a s ds)
  have d: "\<bar>a - s\<bar> \<le> 2 ^ 10" using 2(2) by simp
  have c: "\<bar>c + (a - s)\<bar> + 2 ^ 10 * int (length ds) \<le> 2 ^ 20" using 2(3) d by simp
  then have "\<bar>c + (a - s)\<bar> \<le> 2 ^ 20" by simp
  then have b: "\<bar>c + (a - s)\<bar> \<le> 2 ^ 40" "\<bar>a - s\<bar> \<le> 2 ^ 40" using d by simp_all
  have "Fin (of_int c) + (Fin (of_int a) - Fin (of_int s)) = Fin (of_int (c + (a - s)))"
    by (simp only: minus_int [OF b(2)] plus_int [OF b(1)])
  moreover have "accumulate (Fin (of_int (c + (a - s)))) (map fin_pair ds) = fins (int_delays (c + (a - s)) ds)
      \<and> (\<forall>y \<in> set (int_delays (c + (a - s)) ds). \<bar>y\<bar> \<le> 2 ^ 20)"
    using 2(1) 2(2) c by simp
  ultimately show ?case using \<open>\<bar>c + (a - s)\<bar> \<le> 2 ^ 20\<close>
    by (simp only: accumulate.simps fin_pair_Pair list.map fst_conv snd_conv Let_def int_delays.simps fins_simps list.set) simp
qed simp

lemma sum_int:
  assumes "\<forall>y \<in> set ys. \<bar>y\<bar> \<le> 2 ^ 20" and "\<bar>c\<bar> + 2 ^ 20 * int (length ys) \<le> 2 ^ 30"
  shows "foldl (+) (Fin (of_int c)) (fins ys) = Fin (of_int (c + sum_list ys))"
  using assms
proof (induction ys arbitrary: c)
  case (Cons y ys)
  then have c: "\<bar>c + y\<bar> + 2 ^ 20 * int (length ys) \<le> 2 ^ 30" by (auto simp: algebra_simps abs_le_iff)
  then have "\<bar>c + y\<bar> \<le> 2 ^ 40" by simp
  then have "Fin (of_int c) + Fin (of_int y) = Fin (of_int (c + y))" by (rule plus_int)
  then show ?case using Cons.IH [of "c + y"] Cons.prems(1) c by (simp only: foldl_Cons fins_simps) (simp add: add.assoc)
qed simp

lemma regression_int:
  assumes "\<forall>y \<in> set ys. \<bar>y\<bar> \<le> 2 ^ 20" and "\<bar>m\<bar> \<le> 2 ^ 20" and "i + length ys \<le> 20"
    and "\<bar>num\<bar> \<le> 2 ^ 30 * int i" "\<bar>den\<bar> \<le> 2 ^ 10 * int i"
  shows "regression (Fin (19 / 2)) (Fin (of_int m)) i (fins ys) (Fin (of_int num / 2), Fin (of_int den / 4))
    = (case int_regression m (int i) ys (num, den) of (n, d) \<Rightarrow> (Fin (of_int n / 2), Fin (of_int d / 4)))"
  using assms(1,3-)
proof (induction ys arbitrary: i num den)
  case (Cons y ys)
  let ?x = "2 * int i - 19" and ?y = "y - m"
  have i: "i < 20" "\<bar>?x\<bar> \<le> 19" using Cons.prems(2) by auto
  have y: "\<bar>?y\<bar> \<le> 2 ^ 21" using Cons.prems(1) assms(2) by (auto simp: abs_le_iff)
  have xy: "\<bar>?x * ?y\<bar> \<le> 2 ^ 30" using mult_mono [OF i(2) y] by (simp add: abs_mult)
  have xx: "\<bar>?x * ?x\<bar> \<le> 2 ^ 10" using mult_mono [OF i(2) i(2)] by (simp add: abs_mult)
  have num: "\<bar>num + ?x * ?y\<bar> \<le> 2 ^ 30 * int (Suc i)" using Cons.prems(3) xy unfolding abs_le_iff by (simp add: algebra_simps)
  have den: "\<bar>den + ?x * ?x\<bar> \<le> 2 ^ 10 * int (Suc i)" using Cons.prems(4) xx unfolding abs_le_iff by (simp add: algebra_simps)
  have x': "usize_as_f64 i - Fin (19 / 2) = Fin (of_int ?x / 2)"
  proof -
    have "usize_as_f64 i = Fin (of_int (int i))" using rnd64_int [of "int i"] i by (simp add: usize_as_f64_def)
    moreover have "rnd64 (of_int ?x / 2) = Fin (of_int ?x / 2)" using i by (intro rnd64_half) simp
    ultimately show ?thesis by (simp add: minus_flt_def field_simps)
  qed
  have y': "Fin (of_int y) - Fin (of_int m) = Fin (of_int ?y)" using y by (intro minus_int) simp
  have n: "Fin (of_int num / 2) + Fin (of_int ?x / 2) * Fin (of_int ?y) = Fin (of_int (num + ?x * ?y) / 2)"
  proof -
    have "rnd64 (of_int (?x * ?y) / 2) = Fin (of_int (?x * ?y) / 2)" using xy by (intro rnd64_half) simp
    moreover have "rnd64 (of_int (num + ?x * ?y) / 2) = Fin (of_int (num + ?x * ?y) / 2)"
      using num i by (intro rnd64_half) simp
    ultimately show ?thesis by (simp add: add_divide_distrib)
  qed
  have d: "Fin (of_int den / 4) + Fin (of_int ?x / 2) * Fin (of_int ?x / 2) = Fin (of_int (den + ?x * ?x) / 4)"
  proof -
    have "rnd64 (of_int (?x * ?x) / 4) = Fin (of_int (?x * ?x) / 4)" using xx by (intro rnd64_quarter) simp
    moreover have "rnd64 (of_int (den + ?x * ?x) / 4) = Fin (of_int (den + ?x * ?x) / 4)"
      using den i by (intro rnd64_quarter) simp
    ultimately show ?thesis by (simp add: add_divide_distrib)
  qed
  have "int (Suc i) = int i + 1" by simp
  then show ?case
    using Cons.IH [of "Suc i", OF _ _ num den] Cons.prems(1,2)
    by (simp only: regression.simps int_regression.simps fins_simps Let_def x' y' n d) simp
qed simp

lemma slope_int:
  assumes "length ds = 20" "\<forall>d \<in> set ds. \<bar>fst d - snd d\<bar> \<le> 2 ^ 10"
    and "sum_list (int_delays 0 ds) = 20 * m" "\<bar>m\<bar> \<le> 2 ^ 20"
    and "int_regression m 0 (int_delays 0 ds) (0, 0) = (num, 2660)"
  shows "slope_of (map fin_pair ds) = rnd64 (of_int num / 1330)"
proof -
  let ?ys = "int_delays 0 ds"
  have acc: "accumulate (Fin 0) (map fin_pair ds) = fins ?ys" "\<forall>y \<in> set ?ys. \<bar>y\<bar> \<le> 2 ^ 20"
    using accumulate_int [OF assms(2), of 0] assms(1) by simp_all
  have l: "length (int_delays c ds) = length ds" for c by (induction c ds rule: int_delays.induct) simp_all
  have sum: "foldl (+) (Fin 0) (fins ?ys) = Fin (of_int (20 * m))"
    using sum_int [OF acc(2), of 0] l assms(1,3) by simp
  have n: "usize_as_f64 20 = Fin 20" using rnd64_int [of 20] by (simp add: usize_as_f64_def)
  have "rnd64 (of_int (20 * m) / 20) = Fin (of_int m)" using rnd64_int [of m] assms(4) by simp
  then have mean: "Fin (of_int (20 * m)) / Fin 20 = Fin (of_int m)" by simp
  have xbar: "(Fin 20 - Fin 1) / Fin 2 = Fin (19 / 2)"
    using rnd64_int [of 19] rnd64_half [of 19] by (simp add: minus_flt_def)
  have "regression (Fin (19 / 2)) (Fin (of_int m)) 0 (fins ?ys) (Fin 0, Fin 0) = (Fin (of_int num / 2), Fin 665)"
    using regression_int [OF acc(2) assms(4), of 0 0 0] l assms(1,5) by simp
  moreover have "\<not> Fin 665 < rnd64 (1 / 10000000000)"
    using rnd64_le [of "1 / 10000000000" 1] flt_le_less_trans [of "Fin 665" "rnd64 (1 / 10000000000)" "Fin 1"]
    by (cases "rnd64 (1 / 10000000000)") auto
  ultimately show ?thesis
    using assms(1) by (simp add: slope_of_def trendline_slope_def Let_def acc(1) n sum [simplified] mean [simplified] xbar)
qed

text \<open>The windows of the tests; the last is that of the congested link of \<^verbatim>\<open>googcc/mod.rs\<close>.\<close>

lemma fin_scaled:
  assumes "i \<le> 1000"
  shows "Fin 20 + usize_as_f64 i * Fin 2 = Fin (of_int (20 + 2 * int i))" "usize_as_f64 i * Fin 3 = Fin (of_int (3 * int i))"
  using assms rnd64_int [of "int i"] rnd64_int [of "int i * 2"] rnd64_int [of "20 + int i * 2"] rnd64_int [of "int i * 3"]
  by (simp_all add: usize_as_f64_def mult.commute)

lemma growing_slope: "OVERUSE_THRESHOLD < slope_of (drop 5 growing_delay)"
proof -
  let ?ds = "map (\<lambda>i. (20 + 2 * int i, 20)) [5..<25]"
  have s: "slope_of (map fin_pair ?ds) = rnd64 (of_int 39900 / 1330)"
    by (rule slope_int [where m = 238]) code_simp+
  have "drop 5 growing_delay = map fin_pair ?ds"
    unfolding growing_delay_def drop_map map_map
    by (intro map_cong) (auto simp: drop_upt fin_scaled fin_pair_def)
  then show ?thesis using s rnd64_int [of 30] by (simp add: OVERUSE_THRESHOLD_def)
qed

lemma shrinking_slope:
  "slope_of (drop 5 (map (\<lambda>i. (Fin 1, usize_as_f64 i * Fin 3)) [1..<26])) < - OVERUSE_THRESHOLD"
proof -
  let ?ds = "map (\<lambda>i. (1, 3 * int i)) [6..<26]"
  have s: "slope_of (map fin_pair ?ds) = rnd64 (of_int (- 62510) / 1330)"
    by (rule slope_int [where m = "- 378"]) code_simp+
  have "drop 5 (map (\<lambda>i. (Fin 1, usize_as_f64 i * Fin 3)) [1..<26]) = map fin_pair ?ds"
    unfolding drop_map map_map by (intro map_cong) (auto simp: drop_upt fin_scaled fin_pair_def)
  then show ?thesis using s rnd64_int [of "- 47"] by (simp add: OVERUSE_THRESHOLD_def)
qed

lemma congested_slope: "OVERUSE_THRESHOLD < slope_of (replicate 20 (Fin 70, Fin 20))"
proof -
  have s: "slope_of (map fin_pair (replicate 20 (70, 20))) = rnd64 (of_int 66500 / 1330)"
    by (rule slope_int [where m = 525]) code_simp+
  then show ?thesis using rnd64_int [of 50] by (simp add: OVERUSE_THRESHOLD_def fin_pair_def)
qed

lemma trendline_slope_tests_pass: "increasing_delay_triggers_overuse" "decreasing_delay_triggers_underuse"
proof -
  have "length growing_delay = 25" by (simp add: growing_delay_def)
  then show "increasing_delay_triggers_overuse"
    using growing_slope by (simp add: increasing_delay_triggers_overuse_def state_after)
  have "\<not> OVERUSE_THRESHOLD < x" if "x < - OVERUSE_THRESHOLD" for x
    using that by (cases x) (auto simp: OVERUSE_THRESHOLD_def)
  then show "decreasing_delay_triggers_underuse"
    using shrinking_slope by (simp add: decreasing_delay_triggers_underuse_def state_after)
qed

section \<open>The GoogCC estimator (bwe/googcc/mod.rs)\<close>

text \<open>Packets of a link without queueing, 20 ms apart, and of one where each packet is delayed by 50 ms more.\<close>

definition link_packets :: "nat \<Rightarrow> f32 \<Rightarrow> (f64 \<times> f64 \<times> f32) list" where
  "link_packets n loss = map (\<lambda>i. let t = Fin 20 * (Fin 1 + usize_as_f64 i) in (t, t, loss)) [0..<n]"

definition congested_packets :: "nat \<Rightarrow> f32 \<Rightarrow> (f64 \<times> f64 \<times> f32) list" where
  "congested_packets n loss =
     map (\<lambda>i. let base = Fin 20 * (Fin 31 + usize_as_f64 i) in (base + usize_as_f64 i * Fin 50, base, loss)) [0..<n]"

definition low_loss_raises_bitrate :: bool where
  "low_loss_raises_bitrate \<longleftrightarrow>
     GOOGCC_INITIAL_BPS < googcc_current_bps (receive_all GoogCcEstimator_new (link_packets 30 (rnd32 (1 / 1000))))"

definition overuse_signal_decreases_bitrate :: bool where
  "overuse_signal_decreases_bitrate \<longleftrightarrow>
     (let est = receive_all GoogCcEstimator_new (link_packets 30 (rnd32 (1 / 1000)));
          high_bps = googcc_current_bps est
      in googcc_current_bps (receive_all est (congested_packets 30 (rnd32 (1 / 1000)))) < high_bps)"

definition high_loss_keeps_bitrate_low :: bool where
  "high_loss_keeps_bitrate_low \<longleftrightarrow>
     googcc_current_bps (receive_all GoogCcEstimator_new (link_packets 10 (rnd32 (5 / 100)))) \<le> GOOGCC_INITIAL_BPS"

lemma on_receive_first:
  "last_arrival_ms g = None \<Longrightarrow> fst (on_receive g a s l)
     = g\<lparr>last_arrival_ms := Some a, last_send_ms := Some s, aimd := update_loss (aimd g) l\<rparr>"
  by (simp add: on_receive_def Let_def)

lemma on_receive_next:
  assumes "last_arrival_ms g = Some la" "last_send_ms g = Some ls"
  shows "fst (on_receive g a s l) = (let t = TrendlineDetector_update (trendline g) (a - la) (s - ls)
    in g\<lparr>trendline := t, last_arrival_ms := Some a, last_send_ms := Some s,
         aimd := if overuse t then on_overuse (aimd g) else update_loss (aimd g) l\<rparr>)"
  using assms by (simp add: on_receive_def Let_def)

text \<open>Without queueing only the loss counts.\<close>

definition unqueued :: "GoogCcEstimator \<Rightarrow> bool" where
  "unqueued g \<longleftrightarrow> tl_state (trendline g) = Normal \<and> (\<forall>d \<in> set (deltas (trendline g)). steady d)
     \<and> length (deltas (trendline g)) \<le> 20"

lemma push_length: "length w \<le> 20 \<Longrightarrow> length (trend_push w x) \<le> 20"
  by (auto simp: trend_push_def WINDOW_def)

definition stamped :: "int \<Rightarrow> int \<Rightarrow> GoogCcEstimator \<Rightarrow> bool" where
  "stamped a s g \<longleftrightarrow> last_arrival_ms g = Some (Fin (of_int a)) \<and> last_send_ms g = Some (Fin (of_int s))"

lemma link_time: "i \<le> 1000 \<Longrightarrow> Fin 20 * (Fin 1 + usize_as_f64 i) = Fin (of_int (20 * (1 + int i)))"
  using rnd64_int [of "int i"] rnd64_int [of "1 + int i"] rnd64_int [of "20 * (1 + int i)"]
  by (simp add: usize_as_f64_def)

lemma unqueued_run:
  assumes "unqueued g" "last_arrival_ms g = None" "n \<le> 1000"
  shows "unqueued (receive_all g (link_packets n l))
    \<and> aimd (receive_all g (link_packets n l)) = ((\<lambda>c. update_loss c l) ^^ n) (aimd g)
    \<and> (if n = 0 then last_arrival_ms (receive_all g (link_packets n l)) = None
       else stamped (20 * int n) (20 * int n) (receive_all g (link_packets n l)))"
  using assms(3)
proof (induction n)
  case (Suc n)
  let ?g = "receive_all g (link_packets n l)" and ?t = "20 * (1 + int n)"
  have n: "n \<le> 1000" using Suc.prems by simp
  have run: "receive_all g (link_packets (Suc n) l) = fst (on_receive ?g (Fin (of_int ?t)) (Fin (of_int ?t)) l)"
    using link_time [OF n] by (simp add: receive_all_def link_packets_def Let_def)
  show ?case
  proof (cases "n = 0")
    case True
    then show ?thesis using Suc run by (simp add: on_receive_first unqueued_def stamped_def)
  next
    case False
    have "Fin (of_int ?t) - Fin (of_int (20 * int n)) = Fin (of_int 20)"
      using minus_int [of ?t "20 * int n"] by simp
    moreover have "steady (Fin 20, Fin 20)" by (simp add: steady_def is_finite_def)
    ultimately show ?thesis
      using Suc n False run steady_update [of "trendline ?g" "Fin 20" "Fin 20"]
      by (simp add: on_receive_next stamped_def unqueued_def overuse_def Let_def push_length)
  qed
qed (use assms in \<open>simp add: receive_all_def link_packets_def\<close>)

lemma climbs:
  assumes "aimd_ok c" "low_loss l"
  shows "aimd_ok (((\<lambda>c. update_loss c l) ^^ n) c) \<and> max_bps (((\<lambda>c. update_loss c l) ^^ n) c) = max_bps c
    \<and> min (unat (aimd_bitrate_bps c) + 8000 * n) (unat (max_bps c)) \<le> unat (aimd_bitrate_bps (((\<lambda>c. update_loss c l) ^^ n) c))"
proof (induction n)
  case (Suc n)
  then show ?case
    using update_loss_increase [of "((\<lambda>c. update_loss c l) ^^ n) c", OF _ assms(2)] update_loss_ok
    by (auto simp: min_def split: if_splits)
qed (use assms in simp)

lemma fresh_googcc:
  "unqueued GoogCcEstimator_new" "last_arrival_ms GoogCcEstimator_new = None" "aimd_ok (aimd GoogCcEstimator_new)"
  "aimd GoogCcEstimator_new = \<lparr>aimd_bitrate_bps = 500000, min_bps = 100000, max_bps = 2500000\<rparr>"
  by (simp_all add: GoogCcEstimator_new_def GoogCc_with_bounds_def AimdController_new_def unqueued_def
      TrendlineDetector_new_def aimd_ok_def GOOGCC_INITIAL_BPS_def GOOGCC_MIN_BPS_def GOOGCC_MAX_BPS_def)

lemma clean_link_bitrate:
  "740000 \<le> unat (googcc_current_bps (receive_all GoogCcEstimator_new (link_packets 30 (rnd32 (1 / 1000)))))"
  using unqueued_run [OF fresh_googcc(1,2), of 30 "rnd32 (1 / 1000)"] climbs [OF fresh_googcc(3) loss_kinds(1), of 30]
  by (simp add: googcc_current_bps_def aimd_current_def fresh_googcc(4))

text \<open>
  With queueing the window fills up with the grown spacing; from the twenty-first packet on every packet signals
  overuse and takes an eighth off the bitrate.
\<close>

definition queued :: "nat \<Rightarrow> GoogCcEstimator \<Rightarrow> bool" where
  "queued k g \<longleftrightarrow> stamped (620 + 70 * (int k - 1)) (620 + 20 * (int k - 1)) g
     \<and> (\<exists>pre. deltas (trendline g) = pre @ replicate (min (k - 1) 20) (Fin 70, Fin 20))
     \<and> length (deltas (trendline g)) \<le> 20
     \<and> aimd_ok (aimd g) \<and> min_bps (aimd g) = 100000 \<and> max_bps (aimd g) = 2500000
     \<and> 8 ^ (k - 20) * unat (aimd_bitrate_bps (aimd g)) \<le> max (8 ^ (k - 20) * 100000) (7 ^ (k - 20) * 2500000)"

lemma congested_time:
  assumes "i \<le> 1000"
  shows "Fin 20 * (Fin 31 + usize_as_f64 i) = Fin (of_int (620 + 20 * int i))"
    "Fin (of_int (620 + 20 * int i)) + usize_as_f64 i * Fin 50 = Fin (of_int (620 + 70 * int i))"
  using assms rnd64_int [of "int i"] rnd64_int [of "31 + int i"] rnd64_int [of "20 * (31 + int i)"]
    rnd64_int [of "int i * 50"] rnd64_int [of "620 + 70 * int i"]
  by (simp_all add: usize_as_f64_def algebra_simps)

lemma push_same:
  assumes "w = pre @ replicate (min k 20) x" "length w \<le> 20"
  shows "\<exists>pre. trend_push w x = pre @ replicate (min (Suc k) 20) x"
proof -
  have snoc: "replicate n x @ [x] = replicate (Suc n) x" for n by (simp add: replicate_append_same)
  show ?thesis
  proof (cases "20 \<le> length w")
    case False
    then have "k < 20" using assms by (auto simp: min_def split: if_splits)
    with False assms show ?thesis by (auto simp: trend_push_def WINDOW_def min_def snoc)
  next
    case True
    show ?thesis
    proof (cases pre)
      case Nil
      then have "20 \<le> k" using True assms(1) by (auto simp: min_def split: if_splits)
      with Nil True assms(1) have "trend_push w x = tl (replicate 20 x) @ [x]" by (simp add: trend_push_def WINDOW_def min_def)
      also have "\<dots> = replicate 20 x" using snoc [of 19] by simp
      finally show ?thesis using \<open>20 \<le> k\<close> by (simp add: min_def)
    next
      case (Cons y ys)
      with assms have "k < 20" by (auto simp: min_def split: if_splits)
      with Cons True assms(1) show ?thesis by (auto simp: trend_push_def WINDOW_def min_def snoc)
    qed
  qed
qed

lemma overuse_step:
  assumes "aimd_ok c" "max_bps c = 2500000" "min_bps c = 100000"
    and "8 ^ j * unat (aimd_bitrate_bps c) \<le> max (8 ^ j * 100000) (7 ^ j * 2500000)"
  shows "8 ^ Suc j * unat (aimd_bitrate_bps (on_overuse c)) \<le> max (8 ^ Suc j * 100000) (7 ^ Suc j * 2500000)"
proof -
  let ?b = "unat (aimd_bitrate_bps c)" and ?b' = "unat (aimd_bitrate_bps (on_overuse c))"
  have "?b \<le> 2500000" using assms(1,2) by (simp add: aimd_ok_def word_le_nat_alt)
  then have "8 * ?b' \<le> max (8 * 100000) (7 * ?b)"
    using decrease_eighth [of "aimd_bitrate_bps c"] assms(3) by (auto simp: on_overuse_def max_def)
  then have "8 ^ j * (8 * ?b') \<le> 8 ^ j * max (8 * 100000) (7 * ?b)" by (rule mult_le_mono2)
  also have "\<dots> = max (8 ^ Suc j * 100000) (7 * (8 ^ j * ?b))" by (simp add: max_def)
  also have "\<dots> \<le> max (8 ^ Suc j * 100000) (7 * max (8 ^ j * 100000) (7 ^ j * 2500000))"
    using assms(4) by (intro max.mono mult_le_mono2) simp_all
  also have "\<dots> \<le> max (8 ^ Suc j * 100000) (7 ^ Suc j * 2500000)" by (simp add: max_def)
  finally show ?thesis by (simp add: mult.assoc mult.left_commute)
qed

lemma queued_step:
  assumes q: "queued k g" and k: "1 \<le> k" "k \<le> 1000"
  shows "queued (Suc k) (fst (on_receive g (Fin (of_int (620 + 70 * int k))) (Fin (of_int (620 + 20 * int k))) l))"
proof -
  let ?a = "620 + 70 * int k" and ?s = "620 + 20 * int k"
  define g' where "g' = fst (on_receive g (Fin (of_int ?a)) (Fin (of_int ?s)) l)"
  let ?t = "TrendlineDetector_update (trendline g) (Fin 70) (Fin 20)"
  have d: "Fin (of_int ?a) - Fin (of_int (620 + 70 * (int k - 1))) = Fin 70"
    "Fin (of_int ?s) - Fin (of_int (620 + 20 * (int k - 1))) = Fin 20"
    using minus_int [of ?a "620 + 70 * (int k - 1)"] minus_int [of ?s "620 + 20 * (int k - 1)"] k by simp_all
  have step: "g' = g\<lparr>trendline := ?t, last_arrival_ms := Some (Fin (of_int ?a)), last_send_ms := Some (Fin (of_int ?s)),
      aimd := if overuse ?t then on_overuse (aimd g) else update_loss (aimd g) l\<rparr>"
    using q unfolding queued_def stamped_def g'_def by (simp only: on_receive_next d Let_def)
  have w: "\<exists>pre. deltas ?t = pre @ replicate (min k 20) (Fin 70, Fin 20)" "length (deltas ?t) \<le> 20"
    using q k push_same [of "deltas (trendline g)" _ "k - 1" "(Fin 70, Fin 20)"] push_length
    by (auto simp: queued_def)
  have ok: "aimd_ok (aimd g)" "min_bps (aimd g) = 100000" "max_bps (aimd g) = 2500000" using q by (auto simp: queued_def)
  then have ok': "aimd_ok (aimd g')" "min_bps (aimd g') = 100000" "max_bps (aimd g') = 2500000"
    using on_receive_ok [OF ok(1)] by (simp_all only: g'_def)
  have "8 ^ (Suc k - 20) * unat (aimd_bitrate_bps (aimd g')) \<le> max (8 ^ (Suc k - 20) * 100000) (7 ^ (Suc k - 20) * 2500000)"
  proof (cases "20 \<le> k")
    case True
    then have "min k 20 = 20" by simp
    with w have "deltas ?t = replicate 20 (Fin 70, Fin 20)" by auto
    then have "\<not> length (trend_push (deltas (trendline g)) (Fin 70, Fin 20)) < 3"
      and "slope_of (trend_push (deltas (trendline g)) (Fin 70, Fin 20)) = slope_of (replicate 20 (Fin 70, Fin 20))"
      by simp_all
    then have "overuse ?t"
      using congested_slope by (simp add: overuse_def TrendlineDetector_update_def Let_def trendline_slope_window)
    moreover have "Suc k - 20 = Suc (k - 20)" using True by simp
    ultimately show ?thesis
      using overuse_step [OF ok(1,3,2), of "k - 20"] q by (simp only: step queued_def) simp
  next
    case False
    then have "Suc k - 20 = 0" by simp
    moreover have "unat (aimd_bitrate_bps (aimd g')) \<le> 2500000" using ok' by (auto simp: aimd_ok_def word_le_nat_alt)
    ultimately show ?thesis by simp
  qed
  moreover have "stamped ?a ?s g'" "deltas (trendline g') = deltas ?t" by (simp_all add: step stamped_def)
  ultimately have "queued (Suc k) g'" using ok' w by (simp add: queued_def)
  then show ?thesis by (simp only: g'_def)
qed

lemma queued_run:
  assumes "unqueued g" "stamped 600 600 g" "aimd_ok (aimd g)" "min_bps (aimd g) = 100000" "max_bps (aimd g) = 2500000"
    and "1 \<le> n" "n \<le> 1000"
  shows "queued n (receive_all g (congested_packets n l))"
  using assms(6,7)
proof (induction n rule: nat_induct_at_least)
  case base
  let ?g = "fst (on_receive g (Fin 620) (Fin 620) l)"
  have run: "receive_all g (congested_packets 1 l) = ?g"
    using congested_time [of 0] by (simp add: receive_all_def congested_packets_def Let_def)
  have "Fin 620 - Fin 600 = Fin 20" using minus_int [of 620 600] by simp
  then have t: "?g = (let t = TrendlineDetector_update (trendline g) (Fin 20) (Fin 20)
    in g\<lparr>trendline := t, last_arrival_ms := Some (Fin 620), last_send_ms := Some (Fin 620),
         aimd := if overuse t then on_overuse (aimd g) else update_loss (aimd g) l\<rparr>)"
    using assms(2) on_receive_next [of g "Fin 600" "Fin 600"] by (simp add: stamped_def)
  have ok: "aimd_ok (aimd ?g)" "min_bps (aimd ?g) = 100000" "max_bps (aimd ?g) = 2500000"
    using assms(3-5) by (auto simp: t Let_def on_overuse_ok update_loss_ok)
  then have "unat (aimd_bitrate_bps (aimd ?g)) \<le> 2500000" by (auto simp: aimd_ok_def word_le_nat_alt)
  then show ?case
    using ok assms(1) push_length by (simp only: run queued_def stamped_def) (simp add: t Let_def unqueued_def)
next
  case (Suc n)
  have "receive_all g (congested_packets (Suc n) l)
      = fst (on_receive (receive_all g (congested_packets n l)) (Fin (of_int (620 + 70 * int n))) (Fin (of_int (620 + 20 * int n))) l)"
    using congested_time [of n] Suc.prems by (simp add: receive_all_def congested_packets_def Let_def)
  with Suc queued_step [of n _ l] show ?case by simp
qed

lemma congested_link_bitrate:
  assumes "unqueued g" "stamped 600 600 g" "aimd_ok (aimd g)" "min_bps (aimd g) = 100000" "max_bps (aimd g) = 2500000"
  shows "unat (googcc_current_bps (receive_all g (congested_packets 30 l))) < 740000"
proof -
  have "8 ^ 10 * unat (aimd_bitrate_bps (aimd (receive_all g (congested_packets 30 l))))
      \<le> max (8 ^ 10 * 100000) (7 ^ 10 * 2500000)"
    using queued_run [OF assms, of 30 l] by (simp add: queued_def)
  then show ?thesis by (simp add: googcc_current_bps_def aimd_current_def)
qed

text \<open>The estimator after thirty packets of a clean link.\<close>

lemma clean_link:
  defines "g \<equiv> receive_all GoogCcEstimator_new (link_packets 30 (rnd32 (1 / 1000)))"
  shows "unqueued g" "stamped 600 600 g" "aimd_ok (aimd g)" "min_bps (aimd g) = 100000" "max_bps (aimd g) = 2500000"
  unfolding g_def using unqueued_run [OF fresh_googcc(1,2), of 30 "rnd32 (1 / 1000)"]
    receive_all_ok [OF fresh_googcc(3), of "link_packets 30 (rnd32 (1 / 1000))", unfolded fresh_googcc(4)]
  by auto

lemma googcc_link_tests_pass:
  "low_loss_raises_bitrate" "overuse_signal_decreases_bitrate" "high_loss_keeps_bitrate_low"
proof -
  show "low_loss_raises_bitrate"
    using clean_link_bitrate by (simp add: low_loss_raises_bitrate_def GOOGCC_INITIAL_BPS_def word_less_nat_alt)
  show "overuse_signal_decreases_bitrate"
    using clean_link_bitrate congested_link_bitrate [OF clean_link, of "rnd32 (1 / 1000)"]
    by (simp add: overuse_signal_decreases_bitrate_def word_less_nat_alt Let_def)
  have "aimd_ok (((\<lambda>c. update_loss c (rnd32 (1 / 20))) ^^ n) c) \<and> aimd_bitrate_bps (((\<lambda>c. update_loss c (rnd32 (1 / 20))) ^^ n) c) \<le> 500000"
    if "aimd_ok c" "aimd_bitrate_bps c \<le> 500000" for n c
  proof (rule funpow_invariant [where P = "\<lambda>c. aimd_ok c \<and> aimd_bitrate_bps c \<le> 500000"])
    fix c assume "aimd_ok c \<and> aimd_bitrate_bps c \<le> 500000"
    moreover from this have "aimd_bitrate_bps (update_loss c (rnd32 (1 / 20))) \<le> aimd_bitrate_bps c"
      using decreased_bitrate [of c] by (simp add: update_loss_def loss_kinds Let_def)
    ultimately show "aimd_ok (update_loss c (rnd32 (1 / 20))) \<and> aimd_bitrate_bps (update_loss c (rnd32 (1 / 20))) \<le> 500000"
      using update_loss_ok by fastforce
  qed (use that in simp)
  then show "high_loss_keeps_bitrate_low"
    using unqueued_run [OF fresh_googcc(1,2), of 10 "rnd32 (1 / 20)"] fresh_googcc(3,4)
    by (simp add: high_loss_keeps_bitrate_low_def googcc_current_bps_def aimd_current_def GOOGCC_INITIAL_BPS_def)
qed

end
