(* ===== verification/Examples.thy ===== *)
theory Examples
  imports Control_Tests Process
begin

text \<open>
  The example programs of \<^verbatim>\<open>examples/\<close> as runs of the model: the pacer and GoogCC demonstrations, the wiring of TWCC
  feedback to GoogCC, and the single-node SFU. What a program prints is its value; a failed assertion or another panic
  is \<open>None\<close>. The load generator has a theory of its own, \<^theory_text>\<open>Synthetic_Room\<close>.
\<close>

section \<open>The pacer (examples/pacer\_basic.rs)\<close>

text \<open>The readings whose action is printed, with the action; and, for the second part, with the tick.\<close>

definition pacer_readings :: "u64 list" where
  "pacer_readings = [800000, 800000, 800000, 400000, 400000, 400000, 50000, 200000]"

definition printed :: "'a list \<Rightarrow> PacerAction list \<Rightarrow> ('a \<times> PacerAction) list" where
  "printed labels actions = filter (\<lambda>(_, a). a \<noteq> NoChange) (zip labels actions)"

definition pacer_basic_main :: "((u64 \<times> PacerAction) list \<times> (nat \<times> PacerAction) list) option" where
  "pacer_basic_main =
     (case SubscriberPacer_new of
        None \<Rightarrow> None
      | Some pacer \<Rightarrow>
          (case run pacer pacer_readings of
             None \<Rightarrow> None
           | Some (_, actions) \<Rightarrow>
               (case with_config (PacerConfig_default\<lparr>cfg_upgrade_streak := 5\<rparr>) of
                  None \<Rightarrow> None
                | Some pacer \<Rightarrow>
                    map_option (\<lambda>(_, ticks). (printed pacer_readings actions, printed [1..<7] ticks))
                      (run pacer (replicate 6 400000)))))"

text \<open>The link climbs to HIGH on the third reading, falls to MEDIUM at once, and so on; five ticks are needed with the custom streak.\<close>

lemma pacer_basic_prints:
  "pacer_basic_main = Some ([(800000, ChangeLayer HIGH), (400000, ChangeLayer MEDIUM), (50000, GoAudioOnly),
     (200000, RestoreVideo)], [(5, ChangeLayer MEDIUM)])"
  by code_simp

section \<open>GoogCC (examples/with\_googcc.rs)\<close>

definition saturating_sub :: "u64 \<Rightarrow> u64 \<Rightarrow> u64" where
  "saturating_sub a b = (if b \<le> a then a - b else 0)"

record googcc_report =
  stable_link :: "u64 \<times> u64 \<times> u64"
  congested_link :: "u64 \<times> u64"
  lossy_link :: u64
  custom_bounds :: u64
  growing_state :: BandwidthState

definition with_googcc_main :: "googcc_report option" where
  "with_googcc_main =
     (let est = GoogCcEstimator_new;
          initial = googcc_current_bps est;
          est = receive_all est (link_packets 30 (rnd32 (1 / 1000)));
          final = googcc_current_bps est;
          est2 = receive_all GoogCcEstimator_new (link_packets 30 (rnd32 (1 / 1000)));
          high = googcc_current_bps est2;
          est2 = receive_all est2 (congested_packets 30 (rnd32 (1 / 1000)));
          est3 = receive_all GoogCcEstimator_new (link_packets 10 (rnd32 (5 / 100)));
          est4 = receive_all (GoogCc_with_bounds 200000 50000 1000000) (link_packets 50 (Fin 0));
          est5 = receive_all GoogCcEstimator_new (link_packets 5 (Fin 0));
          tl = deltas_run growing_delay
      in if tl_state tl \<noteq> Overuse then None
         else Some \<lparr>stable_link = (initial, final, saturating_sub final initial),
                    congested_link = (high, googcc_current_bps est2), lossy_link = googcc_current_bps est3,
                    custom_bounds = googcc_current_bps est4, growing_state = tl_state tl\<rparr>)"

text \<open>
  The program runs to its end, and what it prints is what its headings announce: a stable link gains at least 240 kbit/s,
  a congested one loses bitrate, loss does not raise it, and the custom ceiling holds.
\<close>

lemma with_googcc_prints:
  "\<exists>r. with_googcc_main = Some r
    \<and> (case stable_link r of (initial, final, delta) \<Rightarrow> initial = 500000 \<and> 740000 \<le> final \<and> delta = final - initial)
    \<and> snd (congested_link r) < fst (congested_link r) \<and> lossy_link r \<le> 500000 \<and> custom_bounds r \<le> 1000000
    \<and> growing_state r = Overuse"
proof -
  let ?est = "receive_all GoogCcEstimator_new (link_packets 30 (rnd32 (1 / 1000)))"
  have i: "googcc_current_bps GoogCcEstimator_new = 500000"
    by (simp add: googcc_current_bps_def aimd_current_def fresh_googcc(4))
  have f: "740000 \<le> googcc_current_bps ?est" using clean_link_bitrate by (simp add: word_le_nat_alt)
  then have d: "500000 \<le> googcc_current_bps ?est" by (simp add: word_le_nat_alt)
  have c: "googcc_current_bps (receive_all ?est (congested_packets 30 (rnd32 (1 / 1000)))) < googcc_current_bps ?est"
    "googcc_current_bps (receive_all GoogCcEstimator_new (link_packets 10 (rnd32 (5 / 100)))) \<le> 500000"
    "tl_state (deltas_run growing_delay) = Overuse"
    using googcc_link_tests_pass(2,3) trendline_slope_tests_pass(1)
    by (simp_all add: overuse_signal_decreases_bitrate_def high_loss_keeps_bitrate_low_def GOOGCC_INITIAL_BPS_def
        increasing_delay_triggers_overuse_def Let_def)
  let ?g = "GoogCc_with_bounds 200000 50000 1000000"
  have "aimd ?g = AimdController_new 200000 50000 1000000" by (simp add: GoogCc_with_bounds_def)
  then have "aimd_ok (aimd (receive_all ?g ps)) \<and> max_bps (aimd (receive_all ?g ps)) = 1000000" for ps
    using receive_all_ok [of ?g ps] by (simp add: aimd_start)
  then have "googcc_current_bps (receive_all ?g (link_packets 50 (Fin 0))) \<le> 1000000"
    unfolding googcc_current_bps_def aimd_current_def aimd_ok_def by metis
  with i f d c show ?thesis by (simp add: with_googcc_main_def Let_def saturating_sub_def)
qed

section \<open>TWCC feedback and GoogCC (examples/twcc\_googcc\_wiring.rs)\<close>

text \<open>The first part adds up the deltas of the packets; the state is the estimator and the two sums.\<close>

definition twcc_packet :: "GoogCcEstimator \<times> f64 \<times> f64 \<Rightarrow> GoogCcEstimator \<times> f64 \<times> f64" where
  "twcc_packet s =
     (case s of (gcc, arrival_ms, send_ms) \<Rightarrow>
        let arrival_ms = arrival_ms + Fin 20; send_ms = send_ms + Fin 20
        in (fst (on_receive gcc arrival_ms send_ms (rnd32 (1 / 1000))), arrival_ms, send_ms))"

text \<open>The second part feeds the estimator inside a subscriber from instants.\<close>

definition wire_packet ::
    "instant \<Rightarrow> PerSubscriber \<times> instant option \<times> instant option \<Rightarrow> nat \<Rightarrow> PerSubscriber \<times> instant option \<times> instant option" where
  "wire_packet base s i =
     (case s of (sub, prev_arrival, prev_send) \<Rightarrow>
        let send_instant = base + from_millis (i * 20); recv_instant = send_instant + from_millis 2;
            sub = (case (prev_arrival, prev_send) of
                     (Some la, Some ls) \<Rightarrow>
                       let arr_delta_ms = as_secs_f64 (duration_since recv_instant la) * Fin 1000;
                           snd_delta_ms = as_secs_f64 (duration_since send_instant ls) * Fin 1000;
                           arr_abs_ms = arr_delta_ms * usize_as_f64 i; snd_abs_ms = snd_delta_ms * usize_as_f64 i
                       in sub\<lparr>googcc := map_option (\<lambda>gcc. fst (on_receive gcc arr_abs_ms snd_abs_ms (rnd32 (1 / 1000)))) (googcc sub)\<rparr>
                   | _ \<Rightarrow> sub)
        in (sub, Some recv_instant, Some send_instant))"

definition twcc_wiring_main :: "instant \<Rightarrow> instant \<Rightarrow> (u64 \<times> f64) option" where
  "twcc_wiring_main base now =
     (let (gcc, _, _) = (twcc_packet ^^ 30) (GoogCcEstimator_new, Fin 0, Fin 0)
      in if \<not> 500000 < googcc_current_bps gcc then None
         else let (sub, _, _) = foldl (wire_packet base)
                    (PerSubscriber_new\<lparr>googcc := Some GoogCcEstimator_new\<rparr>, None, None) [0..<30];
                  combined = combined_bps sub now
              in if \<not> Fin 0 < combined then None else Some (googcc_current_bps gcc, combined))"

lemma twcc_packets_link:
  "n \<le> 1000 \<Longrightarrow> (twcc_packet ^^ n) (g, Fin 0, Fin 0)
     = (receive_all g (link_packets n (rnd32 (1 / 1000))), Fin (of_int (20 * int n)), Fin (of_int (20 * int n)))"
proof (induction n)
  case (Suc n)
  have t: "rnd64 (20 * of_nat n + 20) = Fin (20 + 20 * of_nat n)"
    using rnd64_int [of "20 * int n + 20"] Suc.prems by (simp add: add.commute)
  have "int (Suc n) = 1 + int n" by simp
  with Suc show ?case
    using link_time [of n] by (simp only: funpow.simps comp_def twcc_packet_def) (simp add: receive_all_def link_packets_def t Let_def)
qed (simp add: receive_all_def link_packets_def)

text \<open>Whatever the packets, the subscriber keeps its rates, and GoogCC its bounds.\<close>

definition wired :: "PerSubscriber \<Rightarrow> bool" where
  "wired s \<longleftrightarrow> s = PerSubscriber_new\<lparr>googcc := googcc s\<rparr>
     \<and> (\<exists>g. googcc s = Some g \<and> aimd_ok (aimd g) \<and> min_bps (aimd g) = 100000 \<and> max_bps (aimd g) = 2500000)"

lemma wired_packets:
  assumes "wired (fst s)"
  shows "wired (fst (foldl (wire_packet base) s is))"
  using assms
proof (induction "is" arbitrary: s)
  case (Cons i "is")
  have "wired (fst (wire_packet base s i))"
  proof -
    obtain sub la ls where s: "s = (sub, la, ls)" by (cases s) auto
    obtain g where g: "sub = PerSubscriber_new\<lparr>googcc := Some g\<rparr>" "aimd_ok (aimd g)" "min_bps (aimd g) = 100000"
      "max_bps (aimd g) = 2500000"
      using Cons.prems s by (auto simp: wired_def)
    show ?thesis
      using g on_receive_ok [OF g(2)] by (auto simp: s wire_packet_def wired_def Let_def split: option.split)
  qed
  then show ?case using Cons.IH by simp
qed simp

lemma wired_combined:
  assumes "wired s"
  shows "Fin 0 < combined_bps s now"
proof -
  obtain g where g: "s = PerSubscriber_new\<lparr>googcc := Some g\<rparr>" "aimd_ok (aimd g)" "min_bps (aimd g) = 100000"
    "max_bps (aimd g) = 2500000"
    using assms by (auto simp: wired_def)
  let ?b = "unat (aimd_bitrate_bps (aimd g))"
  have "min_bps (aimd g) \<le> aimd_bitrate_bps (aimd g)" "aimd_bitrate_bps (aimd g) \<le> max_bps (aimd g)"
    using g(2) by (auto simp: aimd_ok_def)
  then have b: "100000 \<le> ?b" "?b \<le> 2500000" using g(3,4) by (simp_all add: word_le_nat_alt)
  then have "u64_as_f64 (aimd_bitrate_bps (aimd g)) = Fin (of_nat ?b)" by (intro u64_as_f64_exact) simp
  moreover have "(0 :: rat) < of_nat ?b" using b(1) by simp
  ultimately show ?thesis
    by (simp add: g(1) estimate_evals combined_bps_def combined_bps_with_term_def PerSubscriber_new_def)
qed

lemma twcc_wiring_passes: "\<exists>bps combined. twcc_wiring_main base now = Some (bps, combined) \<and> 740000 \<le> bps \<and> Fin 0 < combined"
proof -
  let ?s = "(PerSubscriber_new\<lparr>googcc := Some GoogCcEstimator_new\<rparr>, None, None)"
  have "wired (fst ?s)" by (simp add: wired_def fresh_googcc(3)) (simp add: fresh_googcc(4))
  then have "Fin 0 < combined_bps (fst (foldl (wire_packet base) ?s [0..<30])) now"
    by (intro wired_combined wired_packets)
  moreover have "740000 \<le> googcc_current_bps (receive_all GoogCcEstimator_new (link_packets 30 (rnd32 (1 / 1000))))"
    using clean_link_bitrate by (simp add: word_le_nat_alt)
  moreover from this have "500000 < googcc_current_bps (receive_all GoogCcEstimator_new (link_packets 30 (rnd32 (1 / 1000))))"
    by (simp add: word_le_nat_alt word_less_nat_alt)
  ultimately show ?thesis
    by (simp add: twcc_wiring_main_def twcc_packets_link split_beta Let_def)
qed

section \<open>The single-node SFU (examples/basic-sfu.rs)\<close>

text \<open>
  The TCP side: binding, making the listener non-blocking and handing it to the runtime, each of which can fail with the
  error of the operating system; and whether the handler of SIGTERM can be installed.
\<close>

record 'l tcp =
  tcp_bind :: "string \<Rightarrow> string + 'l"
  tcp_set_nonblocking :: "'l \<Rightarrow> string option"
  tcp_from_std :: "'l \<Rightarrow> string option"
  sigterm_installs :: bool

definition spawn_metrics_server :: "'l tcp \<Rightarrow> string \<Rightarrow> string + 'l" where
  "spawn_metrics_server T addr =
     (case tcp_bind T addr of
        Inl e \<Rightarrow> Inl (''bind metrics at '' @ addr @ '': '' @ e)
      | Inr listener \<Rightarrow>
          (case tcp_set_nonblocking T listener of
             Some e \<Rightarrow> Inl (''set_nonblocking: '' @ e)
           | None \<Rightarrow> (case tcp_from_std T listener of
                        Some e \<Rightarrow> Inl (''convert TcpListener: '' @ e)
                      | None \<Rightarrow> Inr listener)))"

text \<open>The answer of \<^verbatim>\<open>/metrics\<close>: status, content type and body.\<close>

definition metrics_endpoint :: "('g \<Rightarrow> 'f) \<Rightarrow> ('f \<Rightarrow> u8 list option) \<Rightarrow> 'g \<Rightarrow> nat \<times> string \<times> string" where
  "metrics_endpoint gather encode registry =
     (case encode_text gather encode registry of
        Inr body \<Rightarrow> (200, ''text/plain; version=0.0.4'', body)
      | Inl _ \<Rightarrow> (500, ''text/plain'', ''encode failed''))"

text \<open>
  The outcome of \<^verbatim>\<open>main\<close> is an error or what the loop ended with, and the listener of the metrics server when the server
  has been started and not aborted. \<open>None\<close> is a panic: of the configuration, of the metrics, or of the shutdown
  future, which is first polled once the loop runs.
\<close>

definition basic_sfu_main ::
    "('r, 'd, 'p, 't) env \<Rightarrow> nat \<Rightarrow> (string \<Rightarrow> string option) \<Rightarrow> 'g option \<Rightarrow> (metric_opts \<Rightarrow> bool)
     \<Rightarrow> ('g \<Rightarrow> metric_opts \<Rightarrow> 'g option) \<Rightarrow> 'l tcp \<Rightarrow> 's net \<Rightarrow> branch list \<Rightarrow> nat \<Rightarrow> world
     \<Rightarrow> ((string + ('r, 'd, 'p, 't) Registry \<times> (u8 list \<times> socket_addr) list \<times> duration list \<times> world) \<times> 'l option) option" where
  "basic_sfu_main E fuel var new_custom create register T N bs metrics w =
     (case SfuConfig_from_env var of
        None \<Rightarrow> None
      | Some cfg \<Rightarrow>
          (case SfuMetrics_new_default new_custom create register of
             None \<Rightarrow> None
           | Some _ \<Rightarrow>
               (case spawn_metrics_server T (bind_address cfg @ '':'' @ nat_to_string (unat (metrics_port cfg))) of
                  Inl e \<Rightarrow> Some (Inl e, None)
                | Inr listener \<Rightarrow>
                    (case bind N cfg of
                       Inl e \<Rightarrow> Some (Inl e, Some listener)
                     | Inr socket \<Rightarrow>
                         if udp_local_addr N socket \<noteq> None \<and> \<not> sigterm_installs T then None
                         else map_option (\<lambda>result. (result, None)) (serve_bound E fuel N socket bs metrics w)))))"

text \<open>
  With ports that parse, a Prometheus registry that accepts well-formed metrics and a working signal handler the program never panics:
  it ends with the error of the first socket that fails, TCP before UDP, or serves its empty room until it is shut
  down and then stops the metrics server.
\<close>

lemma basic_sfu_outcome:
  assumes "SfuConfig_from_env var = Some cfg" "registry_contract names create register" "names g = {}" "sigterm_installs T"
  shows "case spawn_metrics_server T (bind_address cfg @ '':'' @ nat_to_string (unat (metrics_port cfg))) of
      Inl e \<Rightarrow> basic_sfu_main E fuel var (Some g) create register T N bs m w = Some (Inl e, None)
    | Inr listener \<Rightarrow>
        (case bind N cfg of
           Inl e \<Rightarrow> basic_sfu_main E fuel var (Some g) create register T N bs m w = Some (Inl e, Some listener)
         | Inr s \<Rightarrow> \<exists>reg sleeps w'. basic_sfu_main E fuel var (Some g) create register T N bs m w
             = Some (Inr (reg, [], sleeps, w'), None) \<and> r_clients reg = [] \<and> list_all park_ok sleeps)"
proof -
  obtain g' where g: "SfuMetrics_new_default (Some g) create register = Some g'"
    using SfuMetrics_new_ok [OF assms(2,3)] by (auto simp: SfuMetrics_new_default_def)
  have "\<exists>reg sleeps w'. serve E fuel a bs m w = Some (reg, [], sleeps, w') \<and> r_clients reg = [] \<and> list_all park_ok sleeps" for a
    using serve_empty [of E fuel a bs m w] by blast
  moreover have "udp_local_addr N s \<noteq> None" if "bind N cfg = Inr s" for s
    using that by (auto simp: bind_def split: option.splits)
  ultimately show ?thesis
    using assms(1,4) g
    by (fastforce simp: basic_sfu_main_def serve_bound_def split: sum.split option.split)
qed

text \<open>The endpoint answers every scrape, with the text of Prometheus when that can be encoded.\<close>

lemma metrics_endpoint_answers:
  "fst (metrics_endpoint gather encode g) \<in> {200, 500}"
  "encode (gather g) = Some buf \<Longrightarrow> list_all (in_range 0 127) buf \<Longrightarrow>
     metrics_endpoint gather encode g = (200, ''text/plain; version=0.0.4'', map (\<lambda>b. char_of (unat b)) buf)"
  by (simp_all add: metrics_endpoint_def encode_text_ascii split: sum.split)

end
