(* ===== verification/Pacer_Tests.thy ===== *)
theory Pacer_Tests
  imports Pacer
begin

text \<open>
  The unit tests of \<^verbatim>\<open>bwe/hysteresis.rs\<close> and \<^verbatim>\<open>bwe/pacer_config.rs\<close>, run on the model. A test of the state machine
  is the list of what it does to a fresh pacer and what it asserts; all of them pass, so the model
  agrees with the code on every behaviour that its authors pinned down.
\<close>

section \<open>Scripts\<close>

text \<open>
  \<open>Tick\<close> discards the action, \<open>Returns\<close> is \<^verbatim>\<open>assert_eq!\<close> on it, \<open>Avoids\<close> is \<^verbatim>\<open>assert_ne!\<close> for each action of a list, and
  \<open>Assert\<close> is \<^verbatim>\<open>assert!\<close> on the pacer.
\<close>

datatype check =
    Tick u64
  | Returns u64 PacerAction
  | Avoids u64 "PacerAction list"
  | Assert "SubscriberPacer \<Rightarrow> bool"

fun passes :: "check list \<Rightarrow> SubscriberPacer \<Rightarrow> bool" where
  "passes [] p \<longleftrightarrow> True"
| "passes (Tick b # cs) p \<longleftrightarrow> (case update p b of Some (p, _) \<Rightarrow> passes cs p | None \<Rightarrow> False)"
| "passes (Returns b a # cs) p \<longleftrightarrow> (case update p b of Some (p, a') \<Rightarrow> a' = a \<and> passes cs p | None \<Rightarrow> False)"
| "passes (Avoids b as # cs) p \<longleftrightarrow>
     (case update p b of Some (p, a') \<Rightarrow> a' \<notin> set as \<and> passes cs p | None \<Rightarrow> False)"
| "passes (Assert Q # cs) p \<longleftrightarrow> Q p \<and> passes cs p"

definition passes_new :: "check list \<Rightarrow> bool" where
  "passes_new cs \<longleftrightarrow> (case SubscriberPacer_new of Some p \<Rightarrow> passes cs p | None \<Rightarrow> False)"

definition pump :: "u64 \<Rightarrow> u8 \<Rightarrow> check list" where
  "pump bps n = replicate (unat n) (Tick bps)"

definition pump_returns :: "u64 \<Rightarrow> u8 \<Rightarrow> PacerAction \<Rightarrow> check list" where
  "pump_returns bps n a = replicate (unat n - 1) (Tick bps) @ [Returns bps a]"

section \<open>The state machine\<close>

definition starts_at_low :: "check list" where
  "starts_at_low = [Assert (\<lambda>p. current_layer p = LOW), Assert (\<lambda>p. \<not> audio_only p)]"

definition upgrade_requires_3_consecutive_ticks :: "check list" where
  "upgrade_requires_3_consecutive_ticks =
     (let bps = MEDIUM_MIN_BPS + 1000
      in pump bps 2 @ [Assert (\<lambda>p. current_layer p = LOW), Returns bps (ChangeLayer MEDIUM),
           Assert (\<lambda>p. current_layer p = MEDIUM)])"

definition downgrade_is_immediate :: "check list" where
  "downgrade_is_immediate =
     pump (HIGH_MIN_BPS + 100000) 6 @ [Assert (\<lambda>p. current_layer p = HIGH),
       Returns (MEDIUM_MIN_BPS - 10000) (ChangeLayer LOW), Assert (\<lambda>p. current_layer p = LOW)]"

definition streak_resets_on_interruption :: "check list" where
  "streak_resets_on_interruption =
     (let hi = MEDIUM_MIN_BPS + 1000; lo = LOW_MIN_BPS + 1000
      in [Tick hi, Tick hi, Tick lo, Tick hi, Tick hi, Assert (\<lambda>p. current_layer p = LOW)])"

definition audio_only_below_threshold :: "check list" where
  "audio_only_below_threshold =
     [Returns (AUDIO_ONLY_BPS - 1000) GoAudioOnly, Assert audio_only, Returns 100000 NoChange,
      Returns (LOW_MIN_BPS + 1000) RestoreVideo, Assert (\<lambda>p. \<not> audio_only p)]"

definition no_change_at_correct_layer :: "check list" where
  "no_change_at_correct_layer = replicate 10 (Returns (LOW_MIN_BPS + 50000) NoChange)"

definition exact_audio_only_boundary_is_video_mode :: "check list" where
  "exact_audio_only_boundary_is_video_mode = [Avoids AUDIO_ONLY_BPS [GoAudioOnly]]"

definition no_double_go_audio_only :: "check list" where
  "no_double_go_audio_only = [Returns (AUDIO_ONLY_BPS - 1) GoAudioOnly, Returns (SUSPEND_VIDEO_BPS + 1) NoChange]"

definition restore_video_resets_streak_for_upgrade :: "check list" where
  "restore_video_resets_streak_for_upgrade =
     [Tick (AUDIO_ONLY_BPS - 1), Tick (LOW_MIN_BPS + 1), Tick (MEDIUM_MIN_BPS + 1), Tick (MEDIUM_MIN_BPS + 1),
      Assert (\<lambda>p. current_layer p = LOW), Returns (MEDIUM_MIN_BPS + 1) (ChangeLayer MEDIUM)]"

definition exact_low_min_boundary_triggers_restore_video :: "check list" where
  "exact_low_min_boundary_triggers_restore_video = [Tick (AUDIO_ONLY_BPS - 1), Returns LOW_MIN_BPS RestoreVideo]"

definition grey_zone_while_audio_only_is_no_change :: "check list" where
  "grey_zone_while_audio_only_is_no_change =
     Tick (AUDIO_ONLY_BPS - 1)
     # map (\<lambda>bps. Returns bps NoChange) [AUDIO_ONLY_BPS, AUDIO_ONLY_BPS + 1, LOW_MIN_BPS - 1]"

definition downgrade_from_medium_resets_streak_so_re_upgrade_needs_3_ticks :: "check list" where
  "downgrade_from_medium_resets_streak_so_re_upgrade_needs_3_ticks =
     replicate 3 (Tick (MEDIUM_MIN_BPS + 1)) @ [Assert (\<lambda>p. current_layer p = MEDIUM),
       Tick (LOW_MIN_BPS + 1), Assert (\<lambda>p. current_layer p = LOW), Tick (MEDIUM_MIN_BPS + 1),
       Tick (MEDIUM_MIN_BPS + 1), Assert (\<lambda>p. current_layer p = LOW), Tick (MEDIUM_MIN_BPS + 1),
       Assert (\<lambda>p. current_layer p = MEDIUM)]"

definition enters_suspended_below_suspend_threshold :: "check list" where
  "enters_suspended_below_suspend_threshold =
     pump_returns (SUSPEND_VIDEO_BPS - 1) SUSPEND_STREAK SuspendVideo @ [Assert suspended, Assert audio_only]"

definition double_suspend_is_no_change :: "check list" where
  "double_suspend_is_no_change =
     pump_returns (SUSPEND_VIDEO_BPS - 1) SUSPEND_STREAK SuspendVideo @ [Returns 1 NoChange]"

definition grey_zone_while_suspended_is_no_change :: "check list" where
  "grey_zone_while_suspended_is_no_change =
     pump (SUSPEND_VIDEO_BPS - 1) SUSPEND_STREAK
     @ map (\<lambda>bps. Returns bps NoChange) [SUSPEND_VIDEO_BPS, SUSPEND_VIDEO_BPS + 1, AUDIO_ONLY_BPS - 1]"

definition restore_audio_lands_in_audio_only_state :: "check list" where
  "restore_audio_lands_in_audio_only_state =
     pump (SUSPEND_VIDEO_BPS - 1) SUSPEND_STREAK
     @ [Returns AUDIO_ONLY_BPS RestoreAudio, Assert (\<lambda>p. \<not> suspended p), Assert audio_only]"

definition full_recovery_cascade_suspend_to_video :: "check list" where
  "full_recovery_cascade_suspend_to_video =
     pump_returns (SUSPEND_VIDEO_BPS - 1) SUSPEND_STREAK SuspendVideo
     @ [Returns AUDIO_ONLY_BPS RestoreAudio, Returns LOW_MIN_BPS RestoreVideo, Tick (MEDIUM_MIN_BPS + 1),
        Tick (MEDIUM_MIN_BPS + 1), Returns (MEDIUM_MIN_BPS + 1) (ChangeLayer MEDIUM)]"

definition exact_suspend_boundary_is_audio_only_mode :: "check list" where
  "exact_suspend_boundary_is_audio_only_mode = [Returns SUSPEND_VIDEO_BPS GoAudioOnly, Assert (\<lambda>p. \<not> suspended p)]"

definition exact_audio_only_boundary_while_suspended_triggers_restore_audio :: "check list" where
  "exact_audio_only_boundary_while_suspended_triggers_restore_audio =
     pump (SUSPEND_VIDEO_BPS - 1) SUSPEND_STREAK @ [Returns AUDIO_ONLY_BPS RestoreAudio]"

definition suspend_supersedes_pending_layer_change :: "check list" where
  "suspend_supersedes_pending_layer_change =
     [Tick (MEDIUM_MIN_BPS + 1), Tick (MEDIUM_MIN_BPS + 1)]
     @ concat (replicate (unat (SUSPEND_STREAK - 1))
         [Returns (SUSPEND_VIDEO_BPS - 1) NoChange, Assert (\<lambda>p. \<not> suspended p)])
     @ [Returns (SUSPEND_VIDEO_BPS - 1) SuspendVideo, Assert suspended]"

definition drop_from_video_directly_to_suspend_is_one_event :: "check list" where
  "drop_from_video_directly_to_suspend_is_one_event =
     [Returns (LOW_MIN_BPS + 1) NoChange]
     @ replicate (unat (SUSPEND_STREAK - 1)) (Avoids (SUSPEND_VIDEO_BPS - 1) [GoAudioOnly, SuspendVideo])
     @ [Returns (SUSPEND_VIDEO_BPS - 1) SuspendVideo, Assert suspended, Assert audio_only]"

definition single_tick_below_suspend_threshold_does_not_suspend :: "check list" where
  "single_tick_below_suspend_threshold_does_not_suspend =
     [Returns (SUSPEND_VIDEO_BPS - 1) NoChange, Assert (\<lambda>p. \<not> suspended p)]"

definition suspend_streak_consecutive_ticks_required :: "check list" where
  "suspend_streak_consecutive_ticks_required =
     replicate (unat (SUSPEND_STREAK - 1)) (Returns (SUSPEND_VIDEO_BPS - 1) NoChange)
     @ [Assert (\<lambda>p. \<not> suspended p), Returns (SUSPEND_VIDEO_BPS - 1) SuspendVideo, Assert suspended]"

definition suspend_streak_resets_on_interruption :: "check list" where
  "suspend_streak_resets_on_interruption =
     replicate (unat (SUSPEND_STREAK - 1)) (Tick (SUSPEND_VIDEO_BPS - 1))
     @ [Tick SUSPEND_VIDEO_BPS, Assert (\<lambda>p. \<not> suspended p)]
     @ replicate (unat (SUSPEND_STREAK - 1)) (Returns (SUSPEND_VIDEO_BPS - 1) NoChange)
     @ [Assert (\<lambda>p. \<not> suspended p), Returns (SUSPEND_VIDEO_BPS - 1) SuspendVideo]"

lemma hysteresis_tests_pass:
  "list_all passes_new
     [starts_at_low, upgrade_requires_3_consecutive_ticks, downgrade_is_immediate,
      streak_resets_on_interruption, audio_only_below_threshold, no_change_at_correct_layer,
      exact_audio_only_boundary_is_video_mode, no_double_go_audio_only,
      restore_video_resets_streak_for_upgrade, exact_low_min_boundary_triggers_restore_video,
      grey_zone_while_audio_only_is_no_change,
      downgrade_from_medium_resets_streak_so_re_upgrade_needs_3_ticks,
      enters_suspended_below_suspend_threshold, double_suspend_is_no_change,
      grey_zone_while_suspended_is_no_change, restore_audio_lands_in_audio_only_state,
      full_recovery_cascade_suspend_to_video, exact_suspend_boundary_is_audio_only_mode,
      exact_audio_only_boundary_while_suspended_triggers_restore_audio,
      suspend_supersedes_pending_layer_change, drop_from_video_directly_to_suspend_is_one_event,
      single_tick_below_suspend_threshold_does_not_suspend, suspend_streak_consecutive_ticks_required,
      suspend_streak_resets_on_interruption]"
  by code_simp


section \<open>Configurations\<close>

text \<open>A test that asserts on values only is the conjunction of its assertions; \<^verbatim>\<open>should_panic\<close> asks for \<open>None\<close>.\<close>

definition upgrade_streak_zero_panics :: bool where
  "upgrade_streak_zero_panics \<longleftrightarrow> with_config (PacerConfig_default\<lparr>cfg_upgrade_streak := 0\<rparr>) = None"

definition suspend_streak_zero_panics :: bool where
  "suspend_streak_zero_panics \<longleftrightarrow> with_config (PacerConfig_default\<lparr>cfg_suspend_streak := 0\<rparr>) = None"

definition try_with_config_rejects_invalid_in_all_profiles :: bool where
  "try_with_config_rejects_invalid_in_all_profiles \<longleftrightarrow>
     try_with_config (PacerConfig_default\<lparr>cfg_upgrade_streak := 0\<rparr>) = Inl UpgradeStreakZero
     \<and> try_with_config (PacerConfig_default\<lparr>cfg_suspend_streak := 0\<rparr>) = Inl SuspendStreakZero
     \<and> \<not> isl (try_with_config PacerConfig_default)"

definition default_values_match_constants :: bool where
  "default_values_match_constants \<longleftrightarrow>
     (let cfg = PacerConfig_default
      in suspend_video_bps cfg = SUSPEND_VIDEO_BPS \<and> audio_only_bps cfg = AUDIO_ONLY_BPS
         \<and> low_min_bps cfg = LOW_MIN_BPS \<and> medium_min_bps cfg = MEDIUM_MIN_BPS
         \<and> high_min_bps cfg = HIGH_MIN_BPS \<and> cfg_suspend_streak cfg = SUSPEND_STREAK
         \<and> cfg_upgrade_streak cfg = UPGRADE_STREAK)"

definition default_config_validates_ok :: bool where
  "default_config_validates_ok \<longleftrightarrow> \<not> isl (PacerConfig_validate PacerConfig_default)"

definition validate_upgrade_streak_zero :: bool where
  "validate_upgrade_streak_zero \<longleftrightarrow>
     PacerConfig_validate (PacerConfig_default\<lparr>cfg_upgrade_streak := 0\<rparr>) = Inl UpgradeStreakZero"

definition validate_suspend_streak_zero :: bool where
  "validate_suspend_streak_zero \<longleftrightarrow>
     PacerConfig_validate (PacerConfig_default\<lparr>cfg_suspend_streak := 0\<rparr>) = Inl SuspendStreakZero"

definition validate_audio_only_below_suspend_video :: bool where
  "validate_audio_only_below_suspend_video \<longleftrightarrow>
     PacerConfig_validate (PacerConfig_default\<lparr>audio_only_bps := 5000\<rparr>) = Inl BitrateOrderingViolation"

definition validate_low_min_below_audio_only :: bool where
  "validate_low_min_below_audio_only \<longleftrightarrow>
     PacerConfig_validate (PacerConfig_default\<lparr>low_min_bps := 50000\<rparr>) = Inl BitrateOrderingViolation"

definition validate_medium_min_below_low_min :: bool where
  "validate_medium_min_below_low_min \<longleftrightarrow>
     PacerConfig_validate (PacerConfig_default\<lparr>medium_min_bps := 100000\<rparr>) = Inl BitrateOrderingViolation"

definition validate_high_min_below_medium_min :: bool where
  "validate_high_min_below_medium_min \<longleftrightarrow>
     PacerConfig_validate (PacerConfig_default\<lparr>high_min_bps := 200000\<rparr>) = Inl BitrateOrderingViolation"

definition validate_equal_thresholds_ok :: bool where
  "validate_equal_thresholds_ok \<longleftrightarrow>
     \<not> isl (PacerConfig_validate \<lparr>suspend_video_bps = 10000, audio_only_bps = 10000, low_min_bps = 10000,
       medium_min_bps = 10000, high_min_bps = 10000, cfg_suspend_streak = 1, cfg_upgrade_streak = 1\<rparr>)"

definition struct_update_syntax_works :: bool where
  "struct_update_syntax_works \<longleftrightarrow>
     (let cfg = PacerConfig_default\<lparr>cfg_upgrade_streak := 5\<rparr>
      in cfg_upgrade_streak cfg = 5 \<and> audio_only_bps cfg = AUDIO_ONLY_BPS \<and> cfg_suspend_streak cfg = SUSPEND_STREAK)"

definition custom_config_drives_pacer_behavior :: bool where
  "custom_config_drives_pacer_behavior \<longleftrightarrow>
     (case with_config (PacerConfig_default\<lparr>cfg_upgrade_streak := 1\<rparr>) of
        Some p \<Rightarrow> passes [Returns (MEDIUM_MIN_BPS + 1) (ChangeLayer MEDIUM)] p
      | None \<Rightarrow> False)"

definition custom_audio_only_threshold :: bool where
  "custom_audio_only_threshold \<longleftrightarrow>
     (let custom_audio_only = 200000
      in case with_config (PacerConfig_default\<lparr>audio_only_bps := custom_audio_only,
                             low_min_bps := custom_audio_only + 50000\<rparr>) of
           Some p \<Rightarrow> passes [Returns 100000 GoAudioOnly] p
         | None \<Rightarrow> False)"

lemma pacer_config_tests_pass:
  "list_all (\<lambda>t. t)
     [upgrade_streak_zero_panics, suspend_streak_zero_panics, try_with_config_rejects_invalid_in_all_profiles,
      default_values_match_constants, default_config_validates_ok, validate_upgrade_streak_zero,
      validate_suspend_streak_zero, validate_audio_only_below_suspend_video, validate_low_min_below_audio_only,
      validate_medium_min_below_low_min, validate_high_min_below_medium_min, validate_equal_thresholds_ok,
      struct_update_syntax_works, custom_config_drives_pacer_behavior, custom_audio_only_threshold]"
  by code_simp

end
