(* ===== verification/Wire_Tests.thy ===== *)
theory Wire_Tests
  imports Layer_Selector Media
begin

text \<open>
  The unit tests of identifiers, layer selection, header extensions and tags, run on the model: a test is the conjunction of
  its assertions. str0m's conversion from a string to a \<^verbatim>\<open>Rid\<close> is an argument where a test uses it.
  The tests that print an identifier are in \<^theory_text>\<open>Process_Tests\<close>.
\<close>

section \<open>Identifiers (ids.rs)\<close>

definition bytes_of :: "string \<Rightarrow> u8 list" where
  "bytes_of s = map (\<lambda>c. word_of_nat (of_char c)) s"

definition rid_from_trait_roundtrip :: bool where
  "rid_from_trait_roundtrip \<longleftrightarrow> SfuRid_from_str0m (SfuRid_to_str0m MEDIUM) = MEDIUM"

definition mid_from_trait_roundtrip :: bool where
  "mid_from_trait_roundtrip \<longleftrightarrow>
     (let raw = Mid (bytes_of ''0'') in SfuMid_to_str0m (SfuMid_from_str0m raw) = raw)"

definition pt_from_trait_roundtrip :: bool where
  "pt_from_trait_roundtrip \<longleftrightarrow> SfuPt_to_str0m (SfuPt_from_str0m (Pt 96)) = Pt 96"

definition rid_is_err :: "string \<Rightarrow> bool" where
  "rid_is_err s = isl (SfuRid_from_str Rid (bytes_of s))"

definition rid_rejects_empty :: bool where
  "rid_rejects_empty \<longleftrightarrow> rid_is_err ''''"

definition rid_rejects_non_alphanumeric :: bool where
  "rid_rejects_non_alphanumeric \<longleftrightarrow> rid_is_err ''low-res'' \<and> rid_is_err ''a b'' \<and> rid_is_err ''x!''"

definition rid_rejects_overlong :: bool where
  "rid_rejects_overlong \<longleftrightarrow> rid_is_err ''123456789''"

definition rid_accepts_all_alphanumeric :: bool where
  "rid_accepts_all_alphanumeric \<longleftrightarrow>
     list_all (\<lambda>s. \<not> rid_is_err s) [''q'', ''h'', ''f'', ''a1'', ''LAYER1'', ''12345678'']"

definition mid_roundtrip :: bool where
  "mid_roundtrip \<longleftrightarrow> (let raw = Mid (bytes_of ''0''); mid = SfuMid_from_str0m raw in SfuMid_to_str0m mid = raw)"

definition pt_roundtrip :: bool where
  "pt_roundtrip \<longleftrightarrow> (let raw = Pt 96; pt = SfuPt_from_str0m raw in SfuPt_to_str0m pt = raw)"

lemma ids_tests_pass:
  "rid_from_trait_roundtrip" "mid_from_trait_roundtrip" "pt_from_trait_roundtrip" "rid_rejects_empty"
  "rid_rejects_non_alphanumeric" "rid_rejects_overlong" "rid_accepts_all_alphanumeric" "mid_roundtrip" "pt_roundtrip"
  by code_simp+

section \<open>Tags (keyframe.rs, net.rs, media.rs)\<close>

definition kind_roundtrip :: bool where
  "kind_roundtrip \<longleftrightarrow> list_all (\<lambda>k. SfuKeyframeKind_to_str0m (SfuKeyframeKind_from_str0m k) = k) [Pli, Fir]"

definition protocol_roundtrip :: bool where
  "protocol_roundtrip \<longleftrightarrow>
     list_all (\<lambda>p. SfuProtocol_to_str0m (SfuProtocol_from_str0m p) = p) [Udp, Tcp, SslTcp, Tls]"

definition media_kind_roundtrip :: bool where
  "media_kind_roundtrip \<longleftrightarrow> list_all (\<lambda>k. SfuMediaKind_to_str0m (SfuMediaKind_from_str0m k) = k) [Audio, Video]"

lemma tag_tests_pass: "kind_roundtrip" "protocol_roundtrip" "media_kind_roundtrip"
  by code_simp+

section \<open>Layer selection (layer\_selector.rs)\<close>

definition empty_active_returns_desired :: bool where
  "empty_active_returns_desired \<longleftrightarrow> best_fit_select MEDIUM [] = MEDIUM"

definition selects_matching_layer :: bool where
  "selects_matching_layer \<longleftrightarrow> best_fit_select MEDIUM [LOW, MEDIUM, HIGH] = MEDIUM"

definition clamps_to_best_below_desired :: bool where
  "clamps_to_best_below_desired \<longleftrightarrow> best_fit_select HIGH [LOW, MEDIUM] = MEDIUM"

definition falls_back_to_lowest_when_all_above :: bool where
  "falls_back_to_lowest_when_all_above \<longleftrightarrow> best_fit_select LOW [MEDIUM, HIGH] = MEDIUM"

definition single_active_rid_always_wins :: bool where
  "single_active_rid_always_wins \<longleftrightarrow>
     best_fit_select LOW [HIGH] = HIGH \<and> best_fit_select HIGH [LOW] = LOW \<and> best_fit_select MEDIUM [MEDIUM] = MEDIUM"

definition desired_exactly_matches_one_of_multiple_active :: bool where
  "desired_exactly_matches_one_of_multiple_active \<longleftrightarrow> best_fit_select LOW [LOW, MEDIUM, HIGH] = LOW"

definition best_fit_prefers_highest_below_desired_not_lowest :: bool where
  "best_fit_prefers_highest_below_desired_not_lowest \<longleftrightarrow> best_fit_select HIGH [LOW, MEDIUM] = MEDIUM"

lemma selector_tests_pass:
  "empty_active_returns_desired" "selects_matching_layer" "clamps_to_best_below_desired"
  "falls_back_to_lowest_when_all_above" "single_active_rid_always_wins"
  "desired_exactly_matches_one_of_multiple_active" "best_fit_prefers_highest_below_desired_not_lowest"
  by code_simp+

section \<open>AV1 dependency descriptor (av1/dependency\_descriptor.rs)\<close>

text \<open>\<^verbatim>\<open>parse(..).unwrap()\<close> and the assertions on what it yields.\<close>

definition av1_info :: "u8 list \<Rightarrow> (Av1DdInfo \<Rightarrow> bool) \<Rightarrow> bool" where
  "av1_info bytes P = (case av1_parse bytes of Some i \<Rightarrow> P i | None \<Rightarrow> False)"

definition av1_layer :: "u8 \<Rightarrow> u8 \<Rightarrow> Av1DdInfo \<Rightarrow> bool" where
  "av1_layer s t i \<longleftrightarrow> spatial_id i = s \<and> av1_temporal_id i = t"

definition av1_empty_returns_none :: bool where
  "av1_empty_returns_none \<longleftrightarrow> av1_parse [] = None"

definition base_layer_s0t0 :: bool where
  "base_layer_s0t0 \<longleftrightarrow> av1_info [av1_make_byte True False 0]
     (\<lambda>i. av1_layer 0 0 i \<and> av1_start_of_frame i \<and> \<not> av1_end_of_frame i)"

definition s1t2_layer :: bool where
  "s1t2_layer \<longleftrightarrow> av1_info [av1_make_byte False True 5]
     (\<lambda>i. av1_layer 1 2 i \<and> \<not> av1_start_of_frame i \<and> av1_end_of_frame i)"

definition s2t1_layer :: bool where
  "s2t1_layer \<longleftrightarrow> av1_info [av1_make_byte True True 7] (av1_layer 2 1)"

definition unknown_template_falls_back_to_base :: bool where
  "unknown_template_falls_back_to_base \<longleftrightarrow> av1_info [av1_make_byte False False 63] (av1_layer 0 0)"

definition all_nine_l3t3_templates_map_correctly :: bool where
  "all_nine_l3t3_templates_map_correctly \<longleftrightarrow>
     (let expected = [(0, 0), (0, 1), (0, 2), (1, 0), (1, 1), (1, 2), (2, 0), (2, 1), (2, 2)]
      in list_all (\<lambda>(template_id, s, t). av1_info [av1_make_byte False False (word_of_nat template_id)] (av1_layer s t))
           (zip [0..<9] expected))"

definition template_id_8_is_last_valid_l3t3 :: bool where
  "template_id_8_is_last_valid_l3t3 \<longleftrightarrow>
     av1_info [av1_make_byte False False 8] (av1_layer 2 2) \<and> av1_info [av1_make_byte False False 9] (av1_layer 0 0)"

definition multi_byte_payload_uses_only_first_byte :: bool where
  "multi_byte_payload_uses_only_first_byte \<longleftrightarrow> av1_info [av1_make_byte True True 4, 0xFF, 0xFF, 0xFF]
     (\<lambda>i. av1_layer 1 1 i \<and> av1_start_of_frame i \<and> av1_end_of_frame i)"

definition template_id_63_highest_unknown_is_base :: bool where
  "template_id_63_highest_unknown_is_base \<longleftrightarrow> av1_info [av1_make_byte True False 0x3F] (av1_layer 0 0)"

lemma av1_tests_pass:
  "av1_empty_returns_none" "base_layer_s0t0" "s1t2_layer" "s2t1_layer" "unknown_template_falls_back_to_base"
  "all_nine_l3t3_templates_map_correctly" "template_id_8_is_last_valid_l3t3"
  "multi_byte_payload_uses_only_first_byte" "template_id_63_highest_unknown_is_base"
  by code_simp+

section \<open>Video frame marking (vfm/frame\_marking.rs)\<close>

definition vfm_info :: "u8 list \<Rightarrow> (FrameMarkingInfo \<Rightarrow> bool) \<Rightarrow> bool" where
  "vfm_info bytes P = (case vfm_parse bytes of Some i \<Rightarrow> P i | None \<Rightarrow> False)"

definition vfm_empty_returns_none :: bool where
  "vfm_empty_returns_none \<longleftrightarrow> vfm_parse [] = None"

definition base_layer_keyframe :: bool where
  "base_layer_keyframe \<longleftrightarrow> vfm_info [vfm_make_byte True True True False True 0]
     (\<lambda>i. vfm_start_of_frame i \<and> vfm_end_of_frame i \<and> independent i \<and> \<not> discardable i \<and> base_layer_sync i
        \<and> vfm_temporal_id i = 0)"

definition temporal_layer_2_discardable :: bool where
  "temporal_layer_2_discardable \<longleftrightarrow> vfm_info [vfm_make_byte False True False True False 2]
     (\<lambda>i. \<not> vfm_start_of_frame i \<and> vfm_end_of_frame i \<and> \<not> independent i \<and> discardable i \<and> \<not> base_layer_sync i
        \<and> vfm_temporal_id i = 2)"

definition max_temporal_id_7 :: bool where
  "max_temporal_id_7 \<longleftrightarrow> vfm_info [vfm_make_byte False False False False False 7] (\<lambda>i. vfm_temporal_id i = 7)"

definition tid_mask_is_3_bits :: bool where
  "tid_mask_is_3_bits \<longleftrightarrow> vfm_info [vfm_make_byte False False False False False 5] (\<lambda>i. vfm_temporal_id i = 5)"

definition multi_byte_uses_only_first_byte :: bool where
  "multi_byte_uses_only_first_byte \<longleftrightarrow> vfm_info [vfm_make_byte True False True False False 1, 0xFF, 0xAB]
     (\<lambda>i. vfm_temporal_id i = 1 \<and> vfm_start_of_frame i)"

lemma vfm_tests_pass:
  "vfm_empty_returns_none" "base_layer_keyframe" "temporal_layer_2_discardable" "max_temporal_id_7"
  "tid_mask_is_3_bits" "multi_byte_uses_only_first_byte"
  by code_simp+

section \<open>SFrame key epoch (sframe.rs)\<close>

definition key_epoch_newtype_roundtrip :: bool where
  "key_epoch_newtype_roundtrip \<longleftrightarrow>
     KeyEpoch_as_u64 (KeyEpoch_new 42) = 42 \<and> KeyEpoch_as_u64 (KeyEpoch_new 0) = 0"

definition key_epoch_serializer_wire_roundtrip :: bool where
  "key_epoch_serializer_wire_roundtrip \<longleftrightarrow>
     list_all (\<lambda>kid.
       let (buf, n) = kid_write_to (replicate 16 0) (Some (KeyEpoch_new kid));
           (parsed, ok) = kid_parse_value (take n buf) None
       in n = SFRAME_KID_WIDTH \<and> ok \<and> parsed = Some (KeyEpoch_new kid))
     [0, 1, 7, 255, 256, 65535, 4294967295]"

definition key_epoch_serializer_omits_kid_above_u32 :: bool where
  "key_epoch_serializer_omits_kid_above_u32 \<longleftrightarrow>
     snd (kid_write_to (replicate 16 0) (Some (KeyEpoch_new (4294967295 + 1)))) = 0"

definition key_epoch_serializer_refuses_short_buffer :: bool where
  "key_epoch_serializer_refuses_short_buffer \<longleftrightarrow>
     snd (kid_write_to (replicate (SFRAME_KID_WIDTH - 1) 0) (Some (KeyEpoch_new 7))) = 0"

definition key_epoch_serializer_absent_writes_nothing :: bool where
  "key_epoch_serializer_absent_writes_nothing \<longleftrightarrow> snd (kid_write_to (replicate 16 0) None) = 0"

definition key_epoch_serializer_rejects_wrong_width :: bool where
  "key_epoch_serializer_rejects_wrong_width \<longleftrightarrow>
     list_all (\<lambda>n. \<not> snd (kid_parse_value (replicate n 0) None)) [0, 3, 5, 9]
     \<and> snd (kid_parse_value (replicate SFRAME_KID_WIDTH 0) None)"

lemmas kid_evals =
  kid_write_to_def kid_parse_value_def to_be_bytes_def from_be_bytes_def KeyEpoch_new_def SFRAME_KID_WIDTH_def

lemma sframe_tests_pass:
  "key_epoch_newtype_roundtrip" "key_epoch_serializer_absent_writes_nothing" "key_epoch_serializer_rejects_wrong_width"
  "key_epoch_serializer_wire_roundtrip" "key_epoch_serializer_omits_kid_above_u32"
  "key_epoch_serializer_refuses_short_buffer"
proof -
  show "key_epoch_newtype_roundtrip" "key_epoch_serializer_absent_writes_nothing"
    "key_epoch_serializer_rejects_wrong_width"
    by code_simp+
  show "key_epoch_serializer_wire_roundtrip"
    by (simp add: key_epoch_serializer_wire_roundtrip_def kid_evals)
  show "key_epoch_serializer_omits_kid_above_u32" "key_epoch_serializer_refuses_short_buffer"
    by (simp_all add: key_epoch_serializer_omits_kid_above_u32_def key_epoch_serializer_refuses_short_buffer_def kid_evals)
qed

end
