(* ===== verification/Process_Tests.thy ===== *)
theory Process_Tests
  imports Process Wire_Tests
begin

text \<open>
  The unit tests that need something outside the kit: identifiers as str0m parses and prints them (\<^verbatim>\<open>ids.rs\<close>,
  \<^verbatim>\<open>client/layer.rs\<close>), payloads with a codec of str0m (\<^verbatim>\<open>media.rs\<close>), the configuration (\<^verbatim>\<open>config.rs\<close>), and sockets of
  the operating system (\<^verbatim>\<open>udp_loop.rs\<close>). What the tests rely on are the hypotheses of the lemmas.
\<close>

section \<open>Identifiers (ids.rs, client/layer.rs)\<close>

definition rid_roundtrip :: "(u8 list \<Rightarrow> Rid) \<Rightarrow> (Rid \<Rightarrow> string) \<Rightarrow> bool" where
  "rid_roundtrip rid_from to_string \<longleftrightarrow>
     (case SfuRid_from_str rid_from (bytes_of ''h'') of
        Inl _ \<Rightarrow> False
      | Inr rid \<Rightarrow> to_string (SfuRid_to_str0m rid) = ''h''
          \<and> (let raw = SfuRid_to_str0m rid; back = SfuRid_from_str0m raw in rid = back))"

definition rid_roundtrip_fidelity :: "(u8 list \<Rightarrow> Rid) \<Rightarrow> (Rid \<Rightarrow> string) \<Rightarrow> bool" where
  "rid_roundtrip_fidelity rid_from to_string \<longleftrightarrow>
     list_all (\<lambda>s. case SfuRid_from_str rid_from (bytes_of s) of
                     Inl _ \<Rightarrow> False | Inr rid \<Rightarrow> to_string (SfuRid_to_str0m rid) = s) [''q'', ''h'', ''f'', ''hi1080'']"

definition const_matches_from_str :: "(u8 list \<Rightarrow> Rid) \<Rightarrow> bool" where
  "const_matches_from_str rid_from \<longleftrightarrow>
     SfuRid_to_str0m LOW = rid_from (bytes_of ''q'') \<and> SfuRid_to_str0m MEDIUM = rid_from (bytes_of ''h'')
     \<and> SfuRid_to_str0m HIGH = rid_from (bytes_of ''f'')"

text \<open>str0m pads an identifier with spaces to its eight bytes, and prints it without them.\<close>

definition str0m_rid_from :: "u8 list \<Rightarrow> Rid" where
  "str0m_rid_from bs = Rid (take 8 (bs @ replicate 8 0x20))"

fun str0m_rid_string :: "Rid \<Rightarrow> string" where
  "str0m_rid_string (Rid bs) = map (\<lambda>b. char_of (unat b)) (filter (\<lambda>b. b \<noteq> 0x20) bs)"

lemma rid_tests_pass:
  assumes "\<And>s. length s \<le> 8 \<Longrightarrow> list_all is_ascii_alphanumeric (bytes_of s) \<Longrightarrow> to_string (rid_from (bytes_of s)) = s"
  shows "rid_roundtrip rid_from to_string" "rid_roundtrip_fidelity rid_from to_string"
proof -
  have ok: "case SfuRid_from_str rid_from (bytes_of s) of Inl _ \<Rightarrow> False | Inr rid \<Rightarrow> to_string (SfuRid_to_str0m rid) = s"
    if "s \<in> {''q'', ''h'', ''f'', ''hi1080''}" for s
  proof -
    have "list_all is_ascii_alphanumeric (bytes_of s) \<and> length s \<le> 8 \<and> bytes_of s \<noteq> [] \<and> length (bytes_of s) \<le> 8"
      using that by (elim insertE emptyE; hypsubst; code_simp)
    with assms [of s] show ?thesis by (simp add: SfuRid_from_str_def)
  qed
  show "rid_roundtrip rid_from to_string"
    using ok [of "''h''"] by (auto simp: rid_roundtrip_def Let_def SfuRid_from_str_def split: if_splits sum.splits)
  show "rid_roundtrip_fidelity rid_from to_string"
    unfolding rid_roundtrip_fidelity_def list_all_iff by (intro ballI ok) simp
qed

lemma layer_test_passes: "const_matches_from_str str0m_rid_from"
  by code_simp

section \<open>Payloads (media.rs)\<close>

text \<open>
  str0m's codecs and clock rates, the parameters and the media time it makes of them, and its answers: whether the
  parameters are those of a video codec, and the time in seconds.
\<close>

datatype codec = Vp8 | Opus

record ('p, 't) codec_ops =
  payload_params :: "Pt \<Rightarrow> codec \<Rightarrow> nat \<Rightarrow> 'p"
  media_time :: "u64 \<Rightarrow> nat \<Rightarrow> 't"
  is_video_codec :: "'p \<Rightarrow> bool"
  time_secs :: "'t \<Rightarrow> f64"

definition payload_with_codec :: "('p, 't) codec_ops \<Rightarrow> codec \<Rightarrow> nat \<Rightarrow> u64 \<Rightarrow> world \<Rightarrow> ('p, 't) SfuMediaPayload" where
  "payload_with_codec C codec clock_rate rtp_ts w =
     SfuMediaPayload_from_str0m
       \<lparr>md_mid = Mid (bytes_of ''m0''), md_pt = Pt 96, md_rid = None, md_params = payload_params C (Pt 96) codec clock_rate,
        md_time = media_time C rtp_ts clock_rate, md_network_time = fst (instant_now w), md_data = replicate 4 0,
        md_contiguous = True, md_audio_level = None, md_key_epoch = None\<rparr>"

definition is_video_true_for_video_codec :: "('p, 't) codec_ops \<Rightarrow> world \<Rightarrow> bool" where
  "is_video_true_for_video_codec C w \<longleftrightarrow> payload_is_video (is_video_codec C) (payload_with_codec C Vp8 90000 90000 w)"

definition is_video_false_for_audio_codec :: "('p, 't) codec_ops \<Rightarrow> world \<Rightarrow> bool" where
  "is_video_false_for_audio_codec C w \<longleftrightarrow> \<not> payload_is_video (is_video_codec C) (payload_with_codec C Opus 48000 48000 w)"

definition rtp_send_ms_converts_via_the_packets_own_clock_rate :: "('p, 't) codec_ops \<Rightarrow> world \<Rightarrow> bool" where
  "rtp_send_ms_converts_via_the_packets_own_clock_rate C w \<longleftrightarrow>
     \<bar>rtp_send_ms (time_secs C) (payload_with_codec C Vp8 90000 90000 w) - Fin 1000\<bar> < rnd64 (1 / 1000000)
     \<and> \<bar>rtp_send_ms (time_secs C) (payload_with_codec C Opus 48000 48000 w) - Fin 1000\<bar> < rnd64 (1 / 1000000)"

text \<open>Given that VP8 is a video codec and Opus is not, and that as many ticks as the clock rate are one second.\<close>

lemma payload_tests_pass:
  assumes "\<And>pt c r. is_video_codec C (payload_params C pt c r) \<longleftrightarrow> c = Vp8"
    and "\<And>t r. 0 < r \<Longrightarrow> unat t = r \<Longrightarrow> time_secs C (media_time C t r) = Fin 1"
  shows "is_video_true_for_video_codec C w" "is_video_false_for_audio_codec C w"
    "rtp_send_ms_converts_via_the_packets_own_clock_rate C w"
proof -
  show "is_video_true_for_video_codec C w" "is_video_false_for_audio_codec C w"
    by (simp_all add: is_video_true_for_video_codec_def is_video_false_for_audio_codec_def payload_is_video_def
        payload_with_codec_def SfuMediaPayload_from_str0m_def assms(1))
  have t: "time_secs C (media_time C 90000 90000) = Fin 1" "time_secs C (media_time C 48000 48000) = Fin 1"
    by (simp_all add: assms(2))
  have "repr64 (pow2 (- 20))" by (rule repr_pow2) simp
  then have "Fin (pow2 (- 20)) \<le> rnd64 (1 / 1000000)" by (intro rnd64_ge) (simp_all add: pow2_def)
  moreover have "Fin 0 < Fin (pow2 (- 20))" by simp
  ultimately have "Fin 0 < rnd64 (1 / 1000000)" by (rule flt_less_le_trans [rotated])
  then show "rtp_send_ms_converts_via_the_packets_own_clock_rate C w"
    by (simp add: rtp_send_ms_converts_via_the_packets_own_clock_rate_def rtp_send_ms_def payload_with_codec_def
        SfuMediaPayload_from_str0m_def t flt_simps minus_flt_def)
qed

section \<open>Configuration and sockets (config.rs, udp\_loop.rs)\<close>

definition default_is_sensible :: bool where
  "default_is_sensible \<longleftrightarrow>
     (let cfg = SfuConfig_default
      in bind_address cfg = ''0.0.0.0'' \<and> udp_port cfg = 3478 \<and> udp_port cfg \<noteq> metrics_port cfg)"

definition bind_uses_ephemeral_port_when_zero :: "'s net \<Rightarrow> bool" where
  "bind_uses_ephemeral_port_when_zero N \<longleftrightarrow>
     (case bind N (SfuConfig_default\<lparr>udp_port := 0\<rparr>) of
        Inl _ \<Rightarrow> False
      | Inr socket \<Rightarrow> (case udp_local_addr N socket of None \<Rightarrow> False | Some got \<Rightarrow> snd got \<noteq> 0))"

text \<open>The shutdown future is ready when the loop first waits, so the branch that fires is \<open>Shutdown\<close>.\<close>

definition serve_shuts_down_cleanly ::
    "('r, 'd, 'p, 't) env \<Rightarrow> nat \<Rightarrow> 'g option \<Rightarrow> (metric_opts \<Rightarrow> bool) \<Rightarrow> ('g \<Rightarrow> metric_opts \<Rightarrow> 'g option)
     \<Rightarrow> 's net \<Rightarrow> nat \<Rightarrow> world \<Rightarrow> bool" where
  "serve_shuts_down_cleanly E fuel new_custom create register N metrics w \<longleftrightarrow>
     (case bind N (SfuConfig_default\<lparr>udp_port := 0, bind_address := ''127.0.0.1''\<rparr>) of
        Inl _ \<Rightarrow> False
      | Inr socket \<Rightarrow>
          (case SfuMetrics_new_default new_custom create register of
             None \<Rightarrow> False
           | Some _ \<Rightarrow> (case serve_bound E fuel N socket [Shutdown] metrics w of Some (Inr _) \<Rightarrow> True | _ \<Rightarrow> False)))"

lemma config_test_passes: "default_is_sensible"
  by (simp add: default_is_sensible_def SfuConfig_default_def)

text \<open>Given an operating system that binds port 0 of the two addresses to a free port.\<close>

lemma socket_tests_pass:
  assumes os: "\<And>addr. addr \<in> {''0.0.0.0:0'', ''127.0.0.1:0''} \<Longrightarrow>
      \<exists>s ip port. udp_bind N addr = Some s \<and> udp_local_addr N s = Some (ip, port) \<and> port \<noteq> 0"
  shows "bind_uses_ephemeral_port_when_zero N"
    and "registry_contract names create register \<Longrightarrow> names g = {}
      \<Longrightarrow> serve_shuts_down_cleanly E fuel (Some g) create register N m w"
proof -
  have addr: "bind_addr (SfuConfig_default\<lparr>udp_port := 0\<rparr>) = ''0.0.0.0:0''"
    "bind_addr (SfuConfig_default\<lparr>udp_port := 0, bind_address := ''127.0.0.1''\<rparr>) = ''127.0.0.1:0''"
    by (simp_all add: bind_addr_def SfuConfig_default_def nat_to_string.simps char_of_def bit_0)
  show "bind_uses_ephemeral_port_when_zero N"
    using os [of "''0.0.0.0:0''"] by (auto simp: bind_uses_ephemeral_port_when_zero_def bind_def addr)
  assume r: "registry_contract names create register" "names g = {}"
  obtain g' where g: "SfuMetrics_new_default (Some g) create register = Some g'"
    using SfuMetrics_new_ok [OF r] by (auto simp: SfuMetrics_new_default_def)
  have serve: "\<exists>reg sleeps w'. serve E fuel a [Shutdown] m w = Some (reg, [], sleeps, w')" for a
    using serve_empty [of E fuel a "[Shutdown]" m w] by blast
  obtain s a where s: "udp_bind N ''127.0.0.1:0'' = Some s" "udp_local_addr N s = Some a"
    using os [of "''127.0.0.1:0''"] by auto
  obtain reg sleeps w' where "serve E fuel a [Shutdown] m w = Some (reg, [], sleeps, w')" using serve by blast
  then show "serve_shuts_down_cleanly E fuel (Some g) create register N m w"
    by (simp add: serve_shuts_down_cleanly_def bind_def addr s g serve_bound_def)
qed

end
