(* ===== verification/Room_Tests.thy ===== *)
theory Room_Tests
  imports Test_Seams Forwarding
begin

text \<open>
  The unit tests of \<^verbatim>\<open>registry/drive.rs\<close>, run on the model through the test seams: what each pacer action emits, and
  the tick floor that keeps a burst of low readings from suspending a subscriber. They pass for every session, every
  detector and every clock.
\<close>

section \<open>Pacer actions\<close>

text \<open>The tests match on the event and on the suspension change that the action yields.\<close>

definition emits :: "PacerAction \<Rightarrow> (unit, unit) Propagated option \<Rightarrow> bool option \<Rightarrow> bool" where
  "emits action event suspend \<longleftrightarrow> apply_pacer_action action 7 = (event, suspend)"

definition go_audio_only_emits_audio_only_mode_true_no_suspend_change :: bool where
  "go_audio_only_emits_audio_only_mode_true_no_suspend_change \<longleftrightarrow> emits GoAudioOnly (Some (AudioOnlyMode 7 True)) None"

definition restore_video_emits_audio_only_mode_false_no_suspend_change :: bool where
  "restore_video_emits_audio_only_mode_false_no_suspend_change \<longleftrightarrow> emits RestoreVideo (Some (AudioOnlyMode 7 False)) None"

definition suspend_video_emits_suspend_video_true_and_suspend_change_true :: bool where
  "suspend_video_emits_suspend_video_true_and_suspend_change_true \<longleftrightarrow>
     emits SuspendVideo (Some (SuspendVideoEv 7 True)) (Some True)"

definition restore_audio_emits_suspend_video_false_and_suspend_change_false :: bool where
  "restore_audio_emits_suspend_video_false_and_suspend_change_false \<longleftrightarrow>
     emits RestoreAudio (Some (SuspendVideoEv 7 False)) (Some False)"

definition change_layer_and_no_change_emit_nothing :: bool where
  "change_layer_and_no_change_emit_nothing \<longleftrightarrow> emits (ChangeLayer MEDIUM) None None \<and> emits NoChange None None"

lemma action_tests_pass:
  "go_audio_only_emits_audio_only_mode_true_no_suspend_change"
  "restore_video_emits_audio_only_mode_false_no_suspend_change"
  "suspend_video_emits_suspend_video_true_and_suspend_change_true"
  "restore_audio_emits_suspend_video_false_and_suspend_change_false"
  "change_layer_and_no_change_emit_nothing"
  by (simp_all add: emits_def go_audio_only_emits_audio_only_mode_true_no_suspend_change_def
      restore_video_emits_audio_only_mode_false_no_suspend_change_def
      suspend_video_emits_suspend_video_true_and_suspend_change_true_def
      restore_audio_emits_suspend_video_false_and_suspend_change_false_def change_layer_and_no_change_emit_nothing_def)

section \<open>The tick floor\<close>

text \<open>A room with two fresh clients, a publisher and a subscriber whose only reading is \<open>bps\<close>.\<close>

definition room_of_two ::
    "('r, 'd, 'p, 't) env \<Rightarrow> 'r \<Rightarrow> client_id \<Rightarrow> client_id \<Rightarrow> f64 \<Rightarrow> world
     \<Rightarrow> (('r, 'd, 'p, 't) Registry \<times> world) option" where
  "room_of_two E rtc pub_id sub_id bps w =
     (let (reg, w) = Registry_new E 0 w
      in case new_client rtc 0 pub_id w of
           None \<Rightarrow> None
         | Some (c, w) \<Rightarrow>
             let (reg, w) = insert_client E reg c w
             in case new_client rtc 0 sub_id w of
                  None \<Rightarrow> None
                | Some (c, w) \<Rightarrow>
                    let (reg, w) = insert_client E reg c w
                    in Some (bandwidth_mut_for_tests reg (\<lambda>e. record_native_estimate e sub_id bps), w))"

definition suspend_video_enters :: "('p, 't) Propagated list \<Rightarrow> nat" where
  "suspend_video_enters evs = length (filter (\<lambda>e. case e of SuspendVideoEv _ True \<Rightarrow> True | _ \<Rightarrow> False) evs)"

text \<open>Ticks at the given times and how many suspensions each of them queued.\<close>

fun enters_at ::
    "client_id \<Rightarrow> instant list \<Rightarrow> ('r, 'd, 'p, 't) Registry \<times> world \<Rightarrow> nat list option" where
  "enters_at pub_id [] s = Some []"
| "enters_at pub_id (t # ts) s =
     (case update_pacer_layers pub_id t (fst s) (snd s) of
        None \<Rightarrow> None
      | Some (reg, w) \<Rightarrow>
          let (reg, evs) = drain_propagated_for_tests reg
          in map_option ((#) (suspend_video_enters evs)) (enters_at pub_id ts (reg, w)))"

definition min_tick_floor_prevents_burst_suspend ::
    "('r, 'd, 'p, 't) env \<Rightarrow> 'r \<Rightarrow> instant \<Rightarrow> world \<Rightarrow> bool" where
  "min_tick_floor_prevents_burst_suspend E rtc t0 w \<longleftrightarrow>
     Option.bind (room_of_two E rtc 900 901 (Fin 5000) w)
       (enters_at 900 [t0, t0 + from_millis 10, t0 + PACER_MIN_TICK_INTERVAL]) = Some [0, 0, 1]"

definition first_tick_records_drive_instant ::
    "('r, 'd, 'p, 't) env \<Rightarrow> 'r \<Rightarrow> instant \<Rightarrow> world \<Rightarrow> bool" where
  "first_tick_records_drive_instant E rtc t w \<longleftrightarrow>
     (case Option.bind (room_of_two E rtc 910 911 (Fin 1000000) w) (\<lambda>(reg, w). update_pacer_layers 910 t reg w) of
        None \<Rightarrow> False
      | Some (reg, w) \<Rightarrow>
          (case find (\<lambda>c. c_id c = 911) (r_clients reg) of
             None \<Rightarrow> False | Some c \<Rightarrow> c_last_pacer_drive c \<noteq> None))"

definition fresh_client :: "client_id \<Rightarrow> 'r Client \<Rightarrow> bool" where
  "fresh_client i c \<longleftrightarrow> c_id c = i \<and> c_pacer c = default_pacer \<and> c_last_pacer_drive c = None \<and> \<not> c_suspended c
     \<and> c_tracks_in c = []"

lemma new_client_fresh: "\<exists>c w'. new_client rtc 0 i w = Some (c, w') \<and> fresh_client i c"
  by (simp add: new_client_def Client_new_def SubscriberPacer_new_def with_config_def try_with_config_default
      next_client_id_def fresh_client_def split_beta Let_def)

lemma insert_client_fresh:
  assumes "fresh_client i c" "\<forall>d \<in> set (r_clients reg). c_tracks_in d = []"
  obtains c' reg' w' where "insert_client E reg c w = (reg', w')" "r_clients reg' = r_clients reg @ [c']"
    "fresh_client i c'" "r_bandwidth reg' = r_bandwidth reg" "r_to_propagate reg' = r_to_propagate reg"
proof -
  have t: "concat (map c_tracks_in (r_clients reg)) = []" using assms(2) by simp
  obtain reg' w' where i: "insert_client E reg c w = (reg', w')" by fastforce
  show thesis
    by (rule that [OF i, where c' = "c\<lparr>c_metrics := r_metrics reg, c_video_frames_dropped := (r_metrics reg, c_id c),
          c_in_speaker_detector := \<not> is_relay c\<rparr>"])
       (use i assms(1) in \<open>auto simp: insert_client_def t fresh_client_def is_relay_def Let_def
          split: if_splits prod.splits\<close>)
qed

lemma room_of_two_fresh:
  obtains reg w' c d where "room_of_two E rtc p s bps w = Some (reg, w')" "r_clients reg = [c, d]"
    "fresh_client p c" "fresh_client s d" "r_bandwidth reg = record_native_estimate BandwidthEstimator_new s bps"
    "r_to_propagate reg = []"
proof -
  obtain reg0 w0 where r0: "Registry_new E 0 w = (reg0, w0)" "r_clients reg0 = []" "r_to_propagate reg0 = []"
    "r_bandwidth reg0 = BandwidthEstimator_new"
    by (simp add: Registry_new_def split_beta Let_def)
  obtain c w1 where c: "new_client rtc 0 p w0 = Some (c, w1)" "fresh_client p c"
    using new_client_fresh [of rtc p w0] by blast
  obtain c' reg1 w2 where r1: "insert_client E reg0 c w1 = (reg1, w2)" "r_clients reg1 = r_clients reg0 @ [c']"
    "fresh_client p c'" "r_bandwidth reg1 = r_bandwidth reg0" "r_to_propagate reg1 = r_to_propagate reg0"
    by (rule insert_client_fresh [OF c(2), of reg0]) (simp add: r0)
  obtain d w3 where d: "new_client rtc 0 s w2 = Some (d, w3)" "fresh_client s d"
    using new_client_fresh [of rtc s w2] by blast
  obtain d' reg2 w4 where r2: "insert_client E reg1 d w3 = (reg2, w4)" "r_clients reg2 = r_clients reg1 @ [d']"
    "fresh_client s d'" "r_bandwidth reg2 = r_bandwidth reg1" "r_to_propagate reg2 = r_to_propagate reg1"
    by (rule insert_client_fresh [OF d(2), of reg1]) (use r0 r1 in \<open>auto simp: fresh_client_def\<close>)
  show thesis
    by (rule that [where c = c' and d = d' and reg = "reg2\<lparr>r_bandwidth := record_native_estimate (r_bandwidth reg2) s bps\<rparr>"
          and w' = w4])
       (use r0 c r1 d r2 in \<open>simp_all add: room_of_two_def bandwidth_mut_for_tests_def\<close>)
qed

lemma native_only_estimate:
  "estimate_with_term (record_native_estimate BandwidthEstimator_new s (Fin 5000)) s now = Some (5000, Native)"
  by (simp add: estimate_with_term_def record_native_estimate_def with_subscriber_def
      get_or_insert_def BandwidthEstimator_new_def combined_bps_with_term_def combine_terms_def min_update_def
      PerSubscriber_new_def DelayEstimator_new_def LossEstimator_new_def INITIAL_BITRATE_BPS_def
      fmax_def is_nan_def clamp_def MIN_BITRATE_BPS_def MAX_BITRATE_BPS_def)

lemma min_tick_floor_test_passes:
  fixes E :: "('r, 'd, 'p, 't) env"
  shows "min_tick_floor_prevents_burst_suspend E rtc t0 w"
proof -
  obtain reg :: "('r, 'd, 'p, 't) Registry" and w' c d where
    r: "room_of_two E rtc 900 901 (Fin 5000) w = Some (reg, w')" "r_clients reg = [c, d]"
    "fresh_client 900 c" "fresh_client 901 d"
    "r_bandwidth reg = record_native_estimate BandwidthEstimator_new 901 (Fin 5000)" "r_to_propagate reg = []"
    by (rule room_of_two_fresh)
  have "\<not> (2 :: u8) \<le> 1" by code_simp
  with r(3,4) show ?thesis
    by (simp add: min_tick_floor_prevents_burst_suspend_def r(1,2,5,6) fresh_client_def update_pacer_layers_def
        pacer_round_def native_only_estimate pacer_tick_ready_def drive_pacer_def update_def default_defs
        PACER_MIN_TICK_INTERVAL_def from_millis_def duration_since_def saturating_add_def set_suspended_def Let_def
        drain_propagated_for_tests_def suspend_video_enters_def)
qed

lemma first_tick_test_passes:
  fixes E :: "('r, 'd, 'p, 't) env"
  shows "first_tick_records_drive_instant E rtc t w"
proof -
  obtain reg :: "('r, 'd, 'p, 't) Registry" and w' c d where
    r: "room_of_two E rtc 910 911 (Fin 1000000) w = Some (reg, w')" "r_clients reg = [c, d]"
    "fresh_client 910 c" "fresh_client 911 d"
    "r_bandwidth reg = record_native_estimate BandwidthEstimator_new 911 (Fin 1000000)" "r_to_propagate reg = []"
    by (rule room_of_two_fresh)
  have e: "estimate_with_term (r_bandwidth reg) 911 t = Some (300000, Delay)"
    by (simp add: r(5) estimate_with_term_def record_native_estimate_def with_subscriber_def
      get_or_insert_def BandwidthEstimator_new_def combined_bps_with_term_def combine_terms_def min_update_def
      PerSubscriber_new_def DelayEstimator_new_def LossEstimator_new_def INITIAL_BITRATE_BPS_def
      fmax_def is_nan_def clamp_def MIN_BITRATE_BPS_def MAX_BITRATE_BPS_def)
  show ?thesis
    using r(3,4)
    by (simp add: first_tick_records_drive_instant_def r(1,2) fresh_client_def update_pacer_layers_def
        pacer_round_def e pacer_tick_ready_def drive_pacer_def update_def default_defs layer_for_bps_def
        pacer_rank_def Let_def)
qed

section \<open>The suspension flag (client/accessors.rs)\<close>

definition suspended_default_is_false :: "'r \<Rightarrow> world \<Rightarrow> bool" where
  "suspended_default_is_false rtc w \<longleftrightarrow>
     (case new_client rtc 0 0 w of None \<Rightarrow> False | Some (c, _) \<Rightarrow> \<not> c_suspended c)"

definition set_suspended_round_trips :: "'r \<Rightarrow> world \<Rightarrow> bool" where
  "set_suspended_round_trips rtc w \<longleftrightarrow>
     (case new_client rtc 0 1 w of
        None \<Rightarrow> False
      | Some (c, _) \<Rightarrow> \<not> c_suspended c \<and> c_suspended (set_suspended c True)
                       \<and> \<not> c_suspended (set_suspended (set_suspended c True) False))"

lemma suspension_tests_pass: "suspended_default_is_false rtc w" "set_suspended_round_trips rtc w"
  using new_client_fresh [of rtc 0 w] new_client_fresh [of rtc 1 w]
  by (auto simp: suspended_default_is_false_def set_suspended_round_trips_def fresh_client_def set_suspended_def)

end
