(* ===== verification/Spec2Isabelle.thy ===== *)
theory Spec2Isabelle
  imports Kalman Detection Keyframes Exposition Pacing Abstract_Room Process Builds Synthetic_Room Examples
    Pacer_Tests Estimate_Tests Control_Tests Wire_Tests Process_Tests Room_Tests
begin

text \<open>
  \<^bold>\<open>oxpulse-sfu-kit: a verified model of a selective forwarding unit.\<close>

  The kit is the media plane of a video room. Every participant has a str0m WebRTC session; the kit
  routes datagrams to the sessions, forwards the media of each participant to the others, picks a
  simulcast layer per subscriber from an estimate of the subscriber's bandwidth, and reports what it
  does to Prometheus. The model is the build with all features on (\<^verbatim>\<open>active-speaker\<close>,
  \<^verbatim>\<open>metrics-prometheus\<close>, \<^verbatim>\<open>pacer\<close>, \<^verbatim>\<open>kalman-bwe\<close>, \<^verbatim>\<open>googcc-bwe\<close>, \<^verbatim>\<open>av1-dd\<close>, \<^verbatim>\<open>vfm\<close>,
  \<^verbatim>\<open>test-utils\<close>), and follows the code of \<^verbatim>\<open>src/src\<close> function by function.

  \<^bold>\<open>Parts and theories.\<close>

  \<^descr> \<^theory_text>\<open>Prelude\<close>: machine integers, \<^verbatim>\<open>Instant\<close> and \<^verbatim>\<open>Duration\<close> as nanoseconds (saturating differences),
    hash maps as association lists with distinct keys, and the lemmas the other theories share.
  \<^descr> \<^theory_text>\<open>Float64\<close>: IEEE-754 binary64 (and binary32) as \<open>flt\<close>: NaN, signed infinities and rationals rounded
    to nearest even after every operation; the two zeros are identified, which no comparison or
    conversion of the kit can tell apart. Comparisons, \<^verbatim>\<open>min\<close>, \<^verbatim>\<open>max\<close>, \<^verbatim>\<open>clamp\<close> and casts are Rust's.
  \<^descr> \<^theory_text>\<open>Ids\<close> (\<^verbatim>\<open>ids.rs\<close>, \<^verbatim>\<open>keyframe.rs\<close>, \<^verbatim>\<open>origin.rs\<close>, \<^verbatim>\<open>net.rs\<close>): identifiers, their parsers and the
    conversions from and to str0m's types.
  \<^descr> \<^theory_text>\<open>Layer_Selector\<close> (\<^verbatim>\<open>layer_selector.rs\<close>): the trait as a locale, \<^verbatim>\<open>BestFitSelector\<close> as its
    interpretation; the choice does not depend on the order of a hash set.
  \<^descr> \<^theory_text>\<open>Pacer\<close> (\<^verbatim>\<open>bwe/hysteresis.rs\<close>, \<^verbatim>\<open>bwe/pacer_config.rs\<close>, \<^verbatim>\<open>bwe/mod.rs\<close>): the state machine that turns
    bandwidth readings into layer changes. It refines the abstract machine \<open>mode_step\<close> over the modes
    full video, audio-only and suspended; debouncing, absence of panics and progress are proved of runs.
  \<^descr> \<^theory_text>\<open>Rate_Control\<close>: the contract shared by the rate controllers as a locale (a rate that stays in bounds,
    decreases separated by a cool-down), and what runs of such a controller satisfy.
  \<^descr> \<^theory_text>\<open>Delay_Loss\<close> (\<^verbatim>\<open>bwe/kalman.rs\<close>, \<^verbatim>\<open>bwe/loss.rs\<close>): the two estimators, interpreting that locale;
    \<^theory_text>\<open>Kalman\<close>: the rounding-error analysis of the filter and of the loss thresholds; \<^theory_text>\<open>Detection\<close>: the delay estimator
    notices a growing queue after a bounded number of samples.
  \<^descr> \<^theory_text>\<open>Googcc\<close> (\<^verbatim>\<open>bwe/googcc\<close>): trendline detector and AIMD controller, with 64-bit words.
  \<^descr> \<^theory_text>\<open>Bandwidth\<close> (\<^verbatim>\<open>bwe/subscriber.rs\<close>, \<^verbatim>\<open>bwe/feedback.rs\<close>, \<^verbatim>\<open>bwe/estimator.rs\<close>): the state per
    subscriber, the minimum of the ceilings and its equality with the original hand-written chain,
    TWCC feedback, and the map of all subscribers of a room.
  \<^descr> \<^theory_text>\<open>Metrics\<close> (\<^verbatim>\<open>metrics/prom.rs\<close>): what is registered, and every recording operation as the list of
    Prometheus calls it makes; \<open>prom_contract\<close> and \<open>registry_contract\<close> state what Prometheus documents.
    \<^theory_text>\<open>Metrics_Text\<close>: starting the metrics and encoding them as text. \<^theory_text>\<open>Exposition\<close>: the series a scrape shows
    after any run of a room, and that every call a room makes fits the registered metrics.
  \<^descr> \<^theory_text>\<open>Header_Ext\<close> (\<^verbatim>\<open>av1\<close>, \<^verbatim>\<open>vfm\<close>, \<^verbatim>\<open>sframe.rs\<close>): the header extensions byte by byte, as instances of
    a codec locale.
  \<^descr> \<^theory_text>\<open>Media\<close> (\<^verbatim>\<open>media.rs\<close>, \<^verbatim>\<open>propagate.rs\<close>, \<^verbatim>\<open>client/stats.rs\<close>, \<^verbatim>\<open>dc.rs\<close>): payloads and the events
    exchanged between sessions.
  \<^descr> \<^theory_text>\<open>Client\<close> (\<^verbatim>\<open>client/\<close>): one participant: its session, its incoming and outgoing tracks, pacer and
    filters; every operation, the whole event handler included.
  \<^descr> \<^theory_text>\<open>Registry\<close> (\<^verbatim>\<open>registry/\<close>, \<^verbatim>\<open>fanout.rs\<close>): the room: joining, routing, polling, pacing, fan-out, hints,
    draining and reaping.
  \<^descr> \<^theory_text>\<open>Udp_Loop\<close> (\<^verbatim>\<open>udp_loop.rs\<close>, \<^verbatim>\<open>config.rs\<close>): the receive loop around a room, and its configuration.
  \<^descr> \<^theory_text>\<open>Room\<close>: the step relation \<open>room_step\<close>, one rule per public operation of the registry, the states
    reachable by it, and the invariant \<open>room_ok\<close> with one preservation lemma per operation.
  \<^descr> \<^theory_text>\<open>Test_Seams\<close> (\<^verbatim>\<open>registry/test_seams.rs\<close>, \<^verbatim>\<open>client/test_seed.rs\<close>): the seams of the \<^verbatim>\<open>test-utils\<close> feature,
    and that those which mirror production do what the production paths they stand for do. They are not steps of a room.
  \<^descr> \<^theory_text>\<open>Scripted\<close>: a concrete environment (a scripted session, a detector that keeps a set) on which the
    room properties are exercised. \<^theory_text>\<open>Forwarding\<close>: the forwarding decision, the keyframe throttle,
    layer hints. \<^theory_text>\<open>Keyframes\<close>: the way of a keyframe request to the publisher. \<^theory_text>\<open>Serving\<close>: termination of polling and progress of the loop. This theory: the
    properties of reachable rooms.
  \<^descr> \<^theory_text>\<open>Operations\<close>: \<open>room_call\<close>, the step relation of a room labelled with the call that was made and what it was given,
    and what each call does to ids, tracks and pacers. \<^theory_text>\<open>Pacing\<close>: the ticks of a client's pacer over a history of calls.
  \<^descr> \<^theory_text>\<open>Abstract_Room\<close>: the specification of a room, participants with the tracks they publish and the mode in
    which they receive; \<open>spec_step\<close> says for every call who joins, publishes, adapts or leaves and that nothing else changes,
    \<open>abs_room\<close> maps a room of the code to participants, and every call of the code is its step of the specification.
  \<^descr> \<^theory_text>\<open>Process\<close> (\<^verbatim>\<open>rtc.rs\<close>, \<^verbatim>\<open>raw.rs\<close>, \<^verbatim>\<open>cc.rs\<close>, \<^verbatim>\<open>udp_loop.rs\<close>): building sessions, binding the socket and
    running the whole process, errors included.
  \<^descr> \<^theory_text>\<open>Builds\<close> (\<^verbatim>\<open>registry/drive.rs\<close>, \<^verbatim>\<open>metrics/noop.rs\<close>): the code that other choices of features compile instead.
  \<^descr> \<^theory_text>\<open>Synthetic_Room\<close> (\<^verbatim>\<open>examples/synthetic_room.rs\<close>): the load generator, a room seated and driven through the
    test seams, the report it ends with, and the panic on a deadline that is not representable. \<^theory_text>\<open>Examples\<close> (the other programs of \<^verbatim>\<open>examples\<close>): what each prints or ends with.
  \<^descr> \<^theory_text>\<open>Pacer_Tests\<close>, \<^theory_text>\<open>Estimate_Tests\<close>, \<^theory_text>\<open>Control_Tests\<close>, \<^theory_text>\<open>Wire_Tests\<close>, \<^theory_text>\<open>Process_Tests\<close>, \<^theory_text>\<open>Room_Tests\<close>: the unit tests of the
    crate as definitions over the model, which passes all of them. They tie the model to what the authors pinned down.

  \<^bold>\<open>Parameters.\<close> Code outside the repository is a parameter. \<open>env\<close> is a record of str0m's operations on
  a session of type \<open>'r\<close>, of the speaker detector's operations on a state of type \<open>'d\<close>, and of the
  iteration orders of the two kinds of hash containers whose order the code observes. What the kit
  relies on is stated by name: \<open>detector_contract\<close> (which peers the detector knows after each call) and
  \<open>rtc_quiesces\<close> (a session has finitely many outputs pending before it asks to be woken), to which
  \<open>rtc_rests\<close> adds the instant it then asks for; \<open>scores_contract\<close> adds that the detector
  scores only peers it knows. A \<open>net\<close> binds sockets and reads their local address, \<open>rtc_config_ops\<close> are str0m's operations on
  a configuration, and Prometheus' registry and text encoder are functions. \<open>world\<close> holds what
  the process shares: the \<^verbatim>\<open>Arc\<close> allocations of tracks (a \<^verbatim>\<open>Weak\<close> upgrades while its allocation
  lives), the clock as an arbitrary sequence of readings, the global id counter, and the Prometheus calls
  made so far.

  \<^bold>\<open>Errors and loops.\<close> A panic is the value \<open>None\<close>, an error result an element of a sum. The operations of \<^theory_text>\<open>Googcc\<close> are modelled
  as a release build runs them and, as \<open>update_loss_debug\<close> and \<open>on_receive_debug\<close>, with the assertions and overflow checks of a debug build. The polling loop
  of \<^verbatim>\<open>poll_all\<close> takes fuel, one unit per output of a session; theory \<^theory_text>\<open>Serving\<close> shows that two more than the number of
  pending outputs is enough and that the whole receive loop then completes. \<^verbatim>\<open>fanout_pending\<close>, whose queue grows while it
  is drained, is a total function: handling a media packet adds only pacer events, which add nothing.

  \<^bold>\<open>What is shown.\<close> Of the room: fan-out and the receive loop complete; forwarding does exactly what the filters
  say, and the metrics count it; ids, track ownership, the participants gauge, the detector's peers and the suspension
  flag stay in step with the clients through every interleaving of operations; every call is its step of the abstract room; reaping leaves
  nothing behind, so the series of a scrape are bounded by the peers that are alive; every Prometheus call fits the metric it is made on; keyframe
  requests on an open track reach the publisher and nobody else; and, a defect, no code of the kit opens an outgoing track,
  so no packet reaches a writer, and audio-only mode does not stop video. Of the control loops: pacer ticks, over every history of a room, and keyframe requests, counted at the writer,
  keep their minimum gaps, the polling loop sleeps until the first instant a session asks for, layer hints
  carry the highest layer wanted. Of the pacer: it refines an abstract machine, never panics, debounces suspension and upgrades and
  makes progress. Of bandwidth estimation: bounds, ceilings, isolation of subscribers, rate-limited decreases, no false congestion
  on lossy, jitter-free or steady paths, roundings included, and congestion that lasts is detected after a bounded number of
  samples and lowers the estimate. Of layer selection, header extensions, metrics and configuration:
  the choice does not depend on hash order, encodings are read back, the configuration panics only on unreadable ports. Of the process: it never panics, its errors are those of the
  socket, and, since it owns the room it serves, that room stays empty. Of the load generator: it ends and reports
  what was delivered, but wires only half of the subscriptions it claims and panics on a duration that is too long.

  \<^bold>\<open>Not modelled.\<close> Logging, which has no effect on the state, the printing of values for debugging, and accessors that only
  return a field (they are the fields of the records) or wrap a conversion that is modelled. The crate root only
  declares modules. Which branch of \<^verbatim>\<open>tokio::select!\<close> fires is an arbitrary input.
  Benchmarks and integration tests run the kit under a harness, with real sockets or with negotiated str0m sessions, and are
  left out; so is what an example prints for information around its figures. A unit test that only checks that a signature
  compiles has no content here.
\<close>

section \<open>No media leaves the kit\<close>

lemma track_out_unopened: "client_ok c \<Longrightarrow> t \<in> set (c_tracks_out c) \<Longrightarrow> TrackOut_mid t = None"
  by (simp add: client_ok_def TrackOut_mid_def)

lemma forward_unopened:
  assumes "client_ok c" "handle_media_data_out E origin d c w = (c', w')"
  shows "c_rtc c' = c_rtc c \<and> c_chosen_rid c' = c_chosen_rid c"
proof -
  have "Option.bind (find P (c_tracks_out c)) TrackOut_mid = None" for P
  proof (cases "find P (c_tracks_out c)")
    case (Some t)
    then have "t \<in> set (c_tracks_out c)" by (auto simp: find_Some_iff)
    with Some track_out_unopened [OF assms(1)] show ?thesis by simp
  qed simp
  with assms(2) show ?thesis
    by (auto simp: handle_media_data_out_def forward_to_writer_def Let_def split: if_splits)
qed

lemma for_clients_map:
  assumes "for_clients f cs w = (cs', w')" "\<And>c w c' w'. c \<in> set cs \<Longrightarrow> f c w = (c', w') \<Longrightarrow> g c' = g c"
  shows "map g cs' = map g cs"
  using assms
proof (induction cs arbitrary: w cs' w')
  case (Cons c cs)
  then show ?case by (fastforce split: prod.splits)
qed simp

text \<open>
  C11: In every reachable room no forwarded packet is handed to str0m: fanning out a media packet leaves
  every client's session untouched. No code path outside the test helpers ever moves an outgoing
  track out of its initial state, so the writer stage is not reached; for the same
  reason a subscriber's keyframe request never finds its track and is dropped.
\<close>

theorem media_never_written:
  assumes "room_reachable E reg w" "detector_contract E peers"
    and "fanout E (MediaDataEv origin d) (r_clients reg) w = (cs', w')"
  shows "map c_rtc cs' = map c_rtc (r_clients reg)
    \<and> list_all (\<lambda>c. incoming_keyframe_req c req w = (Noop, w)) (r_clients reg)"
proof
  have ok: "client_ok c" if "c \<in> set (r_clients reg)" for c
    using room_reachable_ok [OF assms(1,2)] that by (auto simp: room_ok_def list_all_iff)
  have f: "for_clients (fanout_client E (MediaDataEv origin d) origin) (r_clients reg) w = (cs', w')"
    using assms(3) by (simp add: fanout_def)
  show "map c_rtc cs' = map c_rtc (r_clients reg)"
    by (rule for_clients_map [OF f])
       (auto simp: fanout_client_def dest: forward_unopened [OF ok] split: if_splits)
  show "list_all (\<lambda>c. incoming_keyframe_req c req w = (Noop, w)) (r_clients reg)"
  proof (unfold list_all_iff, intro ballI)
    fix c assume "c \<in> set (r_clients reg)"
    then have "find (\<lambda>t. TrackOut_mid t = Some (kr_mid req)) (c_tracks_out c) = None"
      using track_out_unopened [OF ok] by (fastforce simp: find_None_iff)
    then show "incoming_keyframe_req c req w = (Noop, w)" by (simp add: incoming_keyframe_req_def)
  qed
qed

section \<open>The room's books\<close>

text \<open>
  C1: Fan-out never panics and never stalls: from every reachable room \<^verbatim>\<open>fanout_pending\<close> returns with an
  empty queue, the result is reachable again, and every client then mirrors every track that
  any other client publishes.
\<close>

theorem fanout_pending_completes:
  assumes "room_reachable E reg w" "detector_contract E peers"
  shows "\<exists>reg' w'. fanout_pending E reg w = Some (reg', w') \<and> r_to_propagate reg' = []
    \<and> room_reachable E reg' w'
    \<and> (\<forall>c \<in> set (r_clients reg'). \<forall>c' \<in> set (r_clients reg'). c_id c \<noteq> c_id c' \<longrightarrow>
         set (arc_ids c') \<subseteq> to_track_in ` set (c_tracks_out c))"
proof -
  obtain reg' w' where f: "fanout_pending E reg w = Some (reg', w')" "room_ok peers (r_clients reg') reg' w'"
      "r_to_propagate reg' = []"
    using fanout_pending_ok [OF room_reachable_ok [OF assms]] by blast
  have "room_reachable E reg' w'" using assms(1) room_step.fan [OF f(1)] by (rule room_reachable.step)
  moreover have "\<forall>c \<in> set (r_clients reg'). \<forall>c' \<in> set (r_clients reg'). c_id c \<noteq> c_id c' \<longrightarrow>
      set (arc_ids c') \<subseteq> to_track_in ` set (c_tracks_out c)"
    using f(2,3) unfolding room_ok_def mesh_def by auto
  ultimately show ?thesis using f by blast
qed

text \<open>
  C8: In every reachable room the participants gauge of the metrics instance counts the clients, and
  the speaker detector holds exactly the clients that are not relays: none is forgotten, and
  none is left behind by a disconnect or registered by an audio level alone.
\<close>

theorem room_books_exact:
  assumes "room_reachable E reg w" "detector_contract E peers"
  shows "participants (r_metrics reg) w = int (length (r_clients reg))
    \<and> peers (r_detector reg) = c_id ` {c \<in> set (r_clients reg). \<not> is_relay c}"
  using room_reachable_ok [OF assms] by (auto simp: room_ok_def registered_def ids_ok_def)

text \<open>
  C6: Client ids are unique in a room, and the live track allocations are exactly the tracks of the clients
  present, each owned by one client and tagged with its id. A client that
  leaves takes its tracks with it and nothing leaks.
\<close>

theorem tracks_owned_exactly:
  assumes "room_reachable E reg w" "detector_contract E peers"
  shows "distinct (map c_id (r_clients reg)) \<and> distinct (concat (map arc_ids (r_clients reg)))
    \<and> fst ` set (arcs w) = set (concat (map arc_ids (r_clients reg)))
    \<and> list_all (\<lambda>c. list_all (\<lambda>a. map_option ti_origin (upgrade w a) = Some (c_id c)) (arc_ids c)) (r_clients reg)"
  using room_reachable_ok [OF assms] by (auto simp: room_ok_def ids_ok_def owned_def list_all_iff)

text \<open>
  C5: In every reachable room the flag that makes the forwarding path drop video agrees with
  the subscriber's pacer, and the pacer satisfies its own invariant.
\<close>

theorem suspension_agrees:
  assumes "room_reachable E reg w" "detector_contract E peers"
  shows "list_all (\<lambda>c. c_suspended c = suspended (c_pacer c) \<and> pacer_inv (c_pacer c)) (r_clients reg)"
  using room_reachable_ok [OF assms] by (auto simp: room_ok_def client_ok_def list_all_iff)

section \<open>Leaving a room\<close>

lemma reap_fold:
  assumes "foldl (\<lambda>s c. if \<not> client_is_alive E c then reap_client E c s else s) (reg, w) cs = (reg', w')"
  shows "r_clients reg' = r_clients reg
    \<and> (\<forall>i. map_of (r_bandwidth reg') i = (if i \<in> c_id ` {c \<in> set cs. \<not> client_is_alive E c} then None else map_of (r_bandwidth reg) i))
    \<and> (\<forall>a. upgrade w' a = (if a \<in> \<Union> (set ` arc_ids ` {c \<in> set cs. \<not> client_is_alive E c}) then None else upgrade w a))"
  using assms
proof (induction cs arbitrary: reg w)
  case (Cons c cs)
  show ?case
  proof (cases "client_is_alive E c")
    case True
    with Cons.IH [of reg w] Cons.prems show ?thesis by (simp add: conj_commute cong: conj_cong) (auto split: if_splits)
  next
    case False
    obtain reg1 w1 where 1: "reap_client E c (reg, w) = (reg1, w1)" by fastforce
    have r1: "r_clients reg1 = r_clients reg" "map_of (r_bandwidth reg1) i = (if i = c_id c then None else map_of (r_bandwidth reg) i)"
      "upgrade w1 a = (if a \<in> set (arc_ids c) then None else upgrade w a)" for i a
      using 1 by (auto simp: reap_client_def Let_def est_reap_dead_def delete_conv' upgrade_arc_drop arc_ids_def
          upgrade_def [of "emit _ _ _"] upgrade_def [of w] split: if_splits)
    from Cons.IH [of reg1 w1] Cons.prems 1 False show ?thesis by (simp add: r1) (auto split: if_splits)
  qed
qed simp

text \<open>
  C7: \<^verbatim>\<open>reap_dead\<close> removes exactly the dead clients, in place. For each of them the bandwidth
  state, the detector entry and the track allocations are gone afterwards; the survivors keep
  their bandwidth state and their tracks.
\<close>

theorem reap_dead_exact:
  assumes "room_reachable E reg w" "detector_contract E peers" "reap_dead E reg w = (reg', w')"
  shows "r_clients reg' = filter (client_is_alive E) (r_clients reg)
    \<and> list_all (\<lambda>c. if client_is_alive E c
         then map_of (r_bandwidth reg') (c_id c) = map_of (r_bandwidth reg) (c_id c)
           \<and> list_all (\<lambda>a. upgrade w' a = upgrade w a) (arc_ids c)
         else map_of (r_bandwidth reg') (c_id c) = None \<and> c_id c \<notin> peers (r_detector reg')
           \<and> list_all (\<lambda>a. upgrade w' a = None) (arc_ids c)) (r_clients reg)"
proof -
  note ok = room_reachable_ok [OF assms(1,2)]
  note ok' = reap_dead_ok [OF assms(2) ok assms(3)]
  obtain reg1 where f: "foldl (\<lambda>s c. if \<not> client_is_alive E c then reap_client E c s else s) (reg, w) (r_clients reg) = (reg1, w')"
    and reg': "reg' = reg1\<lparr>r_clients := filter (client_is_alive E) (r_clients reg1)\<rparr>"
    using assms(3) by (auto simp: reap_dead_def Let_def split: prod.splits)
  note fold = reap_fold [OF f]
  have cs: "r_clients reg' = filter (client_is_alive E) (r_clients reg)" using fold reg' by simp
  have inj: "c_id c = c_id c' \<Longrightarrow> c = c'" "a \<in> set (arc_ids c) \<Longrightarrow> a \<in> set (arc_ids c') \<Longrightarrow> c = c'"
    if "c \<in> set (r_clients reg)" "c' \<in> set (r_clients reg)" for c c' a
  proof -
    have d: "distinct (map c_id (r_clients reg))" using ok by (simp add: room_ok_def ids_ok_def)
    then show 1: "c_id c = c_id c' \<Longrightarrow> c = c'" using that by (auto simp: distinct_map inj_on_def)
    have "\<forall>c \<in> set (r_clients reg). \<forall>a \<in> set (arc_ids c). map_option ti_origin (upgrade w a) = Some (c_id c)"
      using ok by (simp add: room_ok_def owned_def)
    then show "a \<in> set (arc_ids c) \<Longrightarrow> a \<in> set (arc_ids c') \<Longrightarrow> c = c'"
      using that 1 by (metis option.inject)
  qed
  have det: "peers (r_detector reg') = registered (r_clients reg')" using ok' by (simp add: room_ok_def)
  show ?thesis
  proof (intro conjI cs, unfold list_all_iff, intro ballI)
    fix c assume c: "c \<in> set (r_clients reg)"
    show "if client_is_alive E c
         then map_of (r_bandwidth reg') (c_id c) = map_of (r_bandwidth reg) (c_id c)
           \<and> (\<forall>a \<in> set (arc_ids c). upgrade w' a = upgrade w a)
         else map_of (r_bandwidth reg') (c_id c) = None \<and> c_id c \<notin> peers (r_detector reg')
           \<and> (\<forall>a \<in> set (arc_ids c). upgrade w' a = None)"
    proof (cases "client_is_alive E c")
      case True
      then have "c_id c \<notin> c_id ` {c \<in> set (r_clients reg). \<not> client_is_alive E c}"
        and "a \<in> set (arc_ids c) \<Longrightarrow> a \<notin> \<Union> (set ` arc_ids ` {c \<in> set (r_clients reg). \<not> client_is_alive E c})" for a
        using inj [OF c] by fastforce+
      with True fold show ?thesis by (auto simp: reg')
    next
      case False
      then have "c_id c \<in> c_id ` {c \<in> set (r_clients reg). \<not> client_is_alive E c}"
        and "a \<in> set (arc_ids c) \<Longrightarrow> a \<in> \<Union> (set ` arc_ids ` {c \<in> set (r_clients reg). \<not> client_is_alive E c})" for a
        using c by auto
      moreover have "c_id c \<notin> peers (r_detector reg')"
        using inj(1) [OF c] False by (auto simp: det cs registered_def)
      ultimately show ?thesis using False fold by (simp add: reg')
    qed
  qed
qed

section \<open>Witnesses\<close>

text \<open>The two-client room of theory \<^verbatim>\<open>Scripted\<close>, and a payload of its publisher.\<close>

definition demo_payload :: "(unit, unit) SfuMediaPayload" where
  "demo_payload = SfuMediaPayload_from_str0m
     \<lparr>md_mid = Mid [1], md_pt = Pt 96, md_rid = None, md_params = (), md_time = (), md_network_time = 0,
      md_data = [1, 2, 3], md_contiguous = True, md_audio_level = None, md_key_epoch = None\<rparr>"

theorem media_never_written_witness:
  "map c_rtc (fst (fanout script_env (MediaDataEv 0 demo_payload) (r_clients (fst demo_room)) (snd demo_room)))
     = map c_rtc (r_clients (fst demo_room))"
  using media_never_written [OF demo_room_reachable script_contract prod.collapse [symmetric]] by blast

theorem fanout_pending_completes_witness:
  "\<exists>reg' w'. fanout_pending script_env (fst demo_room) (snd demo_room) = Some (reg', w') \<and> r_to_propagate reg' = []"
  using fanout_pending_completes [OF demo_room_reachable script_contract] by blast

theorem room_books_exact_witness:
  "participants (r_metrics (fst demo_room)) (snd demo_room) = 2
   \<and> set (r_detector (fst demo_room)) = c_id ` {c \<in> set (r_clients (fst demo_room)). \<not> is_relay c}"
  using room_books_exact [OF demo_room_reachable script_contract] by (simp add: demo_room_clients)

theorem tracks_owned_exactly_witness: "distinct (map c_id (r_clients (fst demo_room)))"
  using tracks_owned_exactly [OF demo_room_reachable script_contract] by blast

theorem suspension_agrees_witness:
  "list_all (\<lambda>c. c_suspended c = suspended (c_pacer c) \<and> pacer_inv (c_pacer c)) (r_clients (fst demo_room))"
  by (rule suspension_agrees [OF demo_room_reachable script_contract])

theorem reap_dead_exact_witness:
  "r_clients (fst (reap_dead script_env (fst demo_room) (snd demo_room)))
     = filter (client_is_alive script_env) (r_clients (fst demo_room))"
  using reap_dead_exact [OF demo_room_reachable script_contract prod.collapse [symmetric]] by blast

end
